theory Spec2Isabelle
  imports Main
begin

section \<open>Strings, errors and the outside world\<close>

text \<open>
  A Go \<open>string\<close> and a \<open>[]byte\<close> are both modelled as a list of bytes (\<open>char list\<close>);
  text outside ASCII appears as its UTF-8 bytes.  An \<open>error\<close> is a message, possibly
  wrapping another error (\<open>fmt.Errorf("...: %w", err)\<close>).
\<close>

type_synonym bytes = string

datatype err = Err string | Wrap string err

fun Error_string :: "err \<Rightarrow> string" where
  "Error_string (Err m) = m"
| "Error_string (Wrap m e) = m @ '': '' @ Error_string e"

fun Unwrap :: "err \<Rightarrow> err option" where
  "Unwrap (Err m) = None"
| "Unwrap (Wrap m e) = Some e"

definition digit :: "nat \<Rightarrow> char" where
  "digit n = ''0123456789'' ! (n mod 10)"

fun showd :: "nat \<Rightarrow> string" where
  "showd n = (if n < 10 then [digit n] else showd (n div 10) @ [digit n])"

definition show_int :: "int \<Rightarrow> string" where
  "show_int i = (if i < 0 then ''-'' @ showd (nat (- i)) else showd (nat i))"

subsection \<open>The functions of package \<open>strings\<close> that the program calls\<close>

definition HasPrefix :: "string \<Rightarrow> string \<Rightarrow> bool" where
  "HasPrefix s p = (take (length p) s = p)"

definition HasSuffix :: "string \<Rightarrow> string \<Rightarrow> bool" where
  "HasSuffix s p = (length p \<le> length s \<and> drop (length s - length p) s = p)"

definition TrimSuffix :: "string \<Rightarrow> string \<Rightarrow> string" where
  "TrimSuffix s p = (if HasSuffix s p then take (length s - length p) s else s)"

text \<open>\<open>strings.Index\<close>: the position of the first occurrence, \<open>None\<close> for Go's \<open>-1\<close>.\<close>

fun Index :: "string \<Rightarrow> string \<Rightarrow> nat option" where
  "Index [] sep = (if sep = [] then Some 0 else None)"
| "Index (c # cs) sep =
     (if HasPrefix (c # cs) sep then Some 0 else map_option Suc (Index cs sep))"

definition Contains :: "string \<Rightarrow> string \<Rightarrow> bool" where
  "Contains s sub = (Index s sub \<noteq> None)"

text \<open>
  \<open>strings.Split\<close> cuts at the non-overlapping occurrences of the separator, found from
  the left.  The program only splits at non-empty separators; for the empty separator Go
  cuts after every UTF-8 sequence, which is given here on bytes.
\<close>

function Split :: "string \<Rightarrow> string \<Rightarrow> string list" where
  "Split s sep =
     (if sep = [] then map (\<lambda>c. [c]) s
      else case Index s sep of
             None \<Rightarrow> [s]
           | Some i \<Rightarrow> take i s # Split (drop (i + length sep) s) sep)"
  by pat_completeness auto
termination
proof (relation "measure (\<lambda>(s, sep). length s)")
  show "wf (measure (\<lambda>(s, sep). length s))" by simp
next
  fix s sep :: string and i :: nat
  assume sep: "sep \<noteq> []" and idx: "Index s sep = Some i"
  have bound: "\<And>j. Index t sep = Some j \<Longrightarrow> j + length sep \<le> length t" for t
  proof (induction t)
    case Nil
    then show ?case by (simp split: if_splits)
  next
    case (Cons c cs)
    show ?case
    proof (cases "HasPrefix (c # cs) sep")
      case True
      then have "length (take (length sep) (c # cs)) = length sep"
        unfolding HasPrefix_def by simp
      then have "length sep \<le> length (c # cs)"
        by simp
      with True Cons.prems show ?thesis by simp
    next
      case False
      with Cons.prems obtain k where "Index cs sep = Some k" and "j = Suc k"
        by auto
      with Cons.IH [of k] show ?thesis by simp
    qed
  qed
  from sep have "0 < length sep" by simp
  moreover from bound [OF idx] have "i + length sep \<le> length s" .
  ultimately have "length s - (i + length sep) < length s" by linarith
  then show "((drop (i + length sep) s, sep), (s, sep)) \<in> measure (\<lambda>(s, sep). length s)"
    by simp
qed

definition Join :: "string list \<Rightarrow> string \<Rightarrow> string" where
  "Join parts sep = (case parts of [] \<Rightarrow> [] | p # ps \<Rightarrow> p @ concat (map (\<lambda>q. sep @ q) ps))"

text \<open>\<open>strings.ReplaceAll\<close> with a non-empty \<open>old\<close> replaces the same occurrences that
  \<open>Split\<close> cuts at.\<close>

definition ReplaceAll :: "string \<Rightarrow> string \<Rightarrow> string \<Rightarrow> string" where
  "ReplaceAll s old new = Join (Split s old) new"

text \<open>
  \<open>strings.TrimSpace\<close> removes leading and trailing white space as \<open>unicode.IsSpace\<close>
  defines it.  On bytes these are the six ASCII characters and the UTF-8 encodings of
  U+0085, U+00A0, U+1680, U+2000 to U+200A, U+2028, U+2029, U+202F, U+205F and U+3000.
\<close>

definition space_runes :: "string list" where
  "space_runes =
     [[CHR 0x09], [CHR 0x0A], [CHR 0x0B], [CHR 0x0C], [CHR 0x0D], [CHR 0x20],
      [CHR 0xC2, CHR 0x85], [CHR 0xC2, CHR 0xA0], [CHR 0xE1, CHR 0x9A, CHR 0x80],
      [CHR 0xE2, CHR 0x80, CHR 0x80], [CHR 0xE2, CHR 0x80, CHR 0x81],
      [CHR 0xE2, CHR 0x80, CHR 0x82], [CHR 0xE2, CHR 0x80, CHR 0x83],
      [CHR 0xE2, CHR 0x80, CHR 0x84], [CHR 0xE2, CHR 0x80, CHR 0x85],
      [CHR 0xE2, CHR 0x80, CHR 0x86], [CHR 0xE2, CHR 0x80, CHR 0x87],
      [CHR 0xE2, CHR 0x80, CHR 0x88], [CHR 0xE2, CHR 0x80, CHR 0x89],
      [CHR 0xE2, CHR 0x80, CHR 0x8A], [CHR 0xE2, CHR 0x80, CHR 0xA8],
      [CHR 0xE2, CHR 0x80, CHR 0xA9], [CHR 0xE2, CHR 0x80, CHR 0xAF],
      [CHR 0xE2, CHR 0x81, CHR 0x9F], [CHR 0xE3, CHR 0x80, CHR 0x80]]"

function trim_runes :: "string list \<Rightarrow> string \<Rightarrow> string" where
  "trim_runes rs s =
     (case find (\<lambda>r. r \<noteq> [] \<and> HasPrefix s r) rs of
        None \<Rightarrow> s
      | Some r \<Rightarrow> trim_runes rs (drop (length r) s))"
  by pat_completeness auto
termination
proof (relation "measure (\<lambda>(rs, s). length s)")
  show "wf (measure (\<lambda>(rs, s). length s))" by simp
next
  fix rs :: "string list" and s r :: string
  assume "find (\<lambda>r. r \<noteq> [] \<and> HasPrefix s r) rs = Some r"
  then have "r \<noteq> []" and "HasPrefix s r"
    by (auto simp: find_Some_iff)
  then have "s \<noteq> []" and "0 < length r"
    by (auto simp: HasPrefix_def)
  then show "((rs, drop (length r) s), (rs, s)) \<in> measure (\<lambda>(rs, s). length s)"
    by simp
qed

definition TrimSpace :: "string \<Rightarrow> string" where
  "TrimSpace s = rev (trim_runes (map rev space_runes) (rev (trim_runes space_runes s)))"

section \<open>Data model\<close>

text \<open>Constants of \<open>api/index.go\<close>.  Durations are not needed by any property below
  except the retry back-off, which is kept in milliseconds.\<close>

definition baseURL :: string where "baseURL = ''https://huggingface.co/papers''"
definition liveURL :: string where "liveURL = ''https://tldr.takara.ai''"
definition maxPapers :: nat where "maxPapers = 50"
definition cacheKey :: string where "cacheKey = ''hf_papers_cache''"
definition summaryCacheKey :: string where "summaryCacheKey = ''hf_papers_summary_cache''"
definition conversationCacheKey :: string where
  "conversationCacheKey = ''hf_papers_conversation_cache''"
definition podcastCacheKey :: string where "podcastCacheKey = ''hf_papers_podcast_cache''"

definition RFC1123Z :: string where "RFC1123Z = ''Mon, 02 Jan 2006 15:04:05 -0700''"
definition RFC3339 :: string where "RFC3339 = ''2006-01-02T15:04:05Z07:00''"

definition xml_Header :: string where
  \<open>xml_Header = ''<?xml version="1.0" encoding="UTF-8"?>'' @ [CHR 0x0A]\<close>

text \<open>A \<open>time.Time\<close> is a number of seconds; only the library formats and parses it.\<close>

type_synonym time = int

record Paper =
  Paper_Title :: string
  Paper_URL :: string
  Paper_Abstract :: string
  Paper_PubDate :: time

record GUID =
  IsPermaLink :: bool
  GUID_Text :: string

record Item =
  Item_Title :: string
  Item_Link :: string
  Item_Description :: string
  Item_PubDate :: string
  Item_GUID :: GUID

record AtomLink =
  Href :: string
  Rel :: string
  AtomLink_Type :: string

record Channel =
  Channel_Title :: string
  Channel_Link :: string
  Channel_Description :: string
  LastBuildDate :: string
  Channel_AtomLink :: AtomLink
  Items :: "Item list"

record RSS =
  Version :: string
  RSS_Channel :: Channel
  XMLNS :: string

record DialogueEntry =
  Speaker :: string
  Text :: string

record ConversationData =
  Conversation :: "DialogueEntry list"

subsection \<open>Effects\<close>

text \<open>
  Every call that leaves the process is recorded in a trace: the scrape of the Content
  Source, a request to the Text-Generation Service (URL and prompt), a request to the
  Speech-Synthesis Service (input text and voice), a \<open>Get\<close> or \<open>Set\<close> on the Cache Store,
  and the armed back-off timer of the retry loop (milliseconds).  Two log lines of the
  retry loop are recorded as well: \<open>EvAttempt\<close> is "Attempting to generate conversation"
  with its attempt number and budget, \<open>EvAttemptFailed\<close> is "Conversation generation
  attempt failed" with the attempt number and the error of the attempt.
\<close>

datatype event =
    EvScrape
  | EvLLM string string
  | EvTTS string string
  | EvGet string
  | EvSet string bytes
  | EvAttempt int int
  | EvAttemptFailed int err
  | EvBackoff int

record world =
  store :: "string \<rightharpoonup> bytes"
  trace :: "event list"

text \<open>What the Text-Generation Service answers: the transport fails (the flag says whether
  by deadline), or a response arrives with a status code, its raw body, and the result of
  decoding the body into the list of \<open>choices[i].message.content\<close>.\<close>

datatype llm_result =
    LLMSendError bool err
  | LLMResponse nat string "err + string list"

text \<open>What the Speech-Synthesis Service answers: the transport fails, or a response arrives
  with a status code, its body, and the error of copying the body, if any.\<close>

datatype tts_result =
    TTSSendError err
  | TTSResponse nat bytes "err option"

text \<open>
  The environment of one process: its configuration, the once-computed store-usable
  flag, the library functions the program calls (XML, JSON and time formatting, which
  are not part of the repository), and the answers of the outside world, each of which may
  depend on everything that happened before (the trace).  \<open>crawl\<close> is the part of
  \<open>scrapePapers\<close> that fetches and traverses HTML: it yields the papers found, in
  document order, or the error \<open>scrapePapers\<close> returns.
\<close>

record env =
  redisConnected :: bool
  HF_API_KEY :: string
  DEEPINFRA_API_KEY :: string
  UPDATE_KEY :: string
  now :: "event list \<Rightarrow> time"
  time_Format :: "string \<Rightarrow> time \<Rightarrow> string"
  time_Parse :: "string \<Rightarrow> string \<Rightarrow> err + time"
  xml_MarshalIndent :: "RSS \<Rightarrow> err + bytes"
  xml_Unmarshal :: "bytes \<Rightarrow> err + RSS"
  json_MarshalIndent :: "ConversationData \<Rightarrow> err + bytes"
  json_Unmarshal :: "bytes \<Rightarrow> err + ConversationData"
  crawl :: "event list \<Rightarrow> err + Paper list"
  llm :: "event list \<Rightarrow> string \<Rightarrow> string \<Rightarrow> llm_result"
  tts :: "event list \<Rightarrow> string \<Rightarrow> string \<Rightarrow> tts_result"
  redis_get_err :: "event list \<Rightarrow> string \<Rightarrow> err option"
  redis_set_err :: "event list \<Rightarrow> string \<Rightarrow> err option"
  ctx_done :: "event list \<Rightarrow> err option"
  rand_Int63 :: "event list \<Rightarrow> nat"

definition emit :: "event \<Rightarrow> world \<Rightarrow> world" where
  "emit e w = w\<lparr>trace := trace w @ [e]\<rparr>"

subsection \<open>Cache Store\<close>

text \<open>\<open>rdb.Get(ctx, key).Bytes()\<close>: the bytes, \<open>redis.Nil\<close> for an absent key, or another
  error when the store cannot be reached.\<close>

datatype get_result = Hit bytes | Nil | GetError err

definition rdb_Get :: "env \<Rightarrow> string \<Rightarrow> world \<Rightarrow> get_result \<times> world" where
  "rdb_Get env key w =
     (case redis_get_err env (trace w) key of
        Some e \<Rightarrow> (GetError e, emit (EvGet key) w)
      | None \<Rightarrow>
          (case store w key of
             Some v \<Rightarrow> (Hit v, emit (EvGet key) w)
           | None \<Rightarrow> (Nil, emit (EvGet key) w)))"

text \<open>\<open>rdb.Set(ctx, key, value, cacheDuration).Err()\<close>.\<close>

definition rdb_Set :: "env \<Rightarrow> string \<Rightarrow> bytes \<Rightarrow> world \<Rightarrow> err option \<times> world" where
  "rdb_Set env key v w =
     (case redis_set_err env (trace w) key of
        Some e \<Rightarrow> (Some e, emit (EvSet key v) w)
      | None \<Rightarrow> (None, emit (EvSet key v) (w\<lparr>store := (store w)(key \<mapsto> v)\<rparr>)))"

section \<open>Feed stage\<close>

definition feedTitle :: string where
  "feedTitle =
     [CHR 0xE5, CHR 0xAE, CHR 0x9D, CHR 0xE3, CHR 0x81, CHR 0xAE, CHR 0xE7, CHR 0x9F,
      CHR 0xA5, CHR 0xE8, CHR 0xAD, CHR 0x98] @
     '': Hugging Face '' @
     [CHR 0xE8, CHR 0xAB, CHR 0x96, CHR 0xE6, CHR 0x96, CHR 0x87, CHR 0xE3, CHR 0x83,
      CHR 0x95, CHR 0xE3, CHR 0x82, CHR 0xA3, CHR 0xE3, CHR 0x83, CHR 0xBC, CHR 0xE3,
      CHR 0x83, CHR 0x89]"

definition feedDescription :: string where
  "feedDescription =
     [CHR 0xE6, CHR 0x9C, CHR 0x80, CHR 0xE5, CHR 0x85, CHR 0x88, CHR 0xE7, CHR 0xAB,
      CHR 0xAF, CHR 0xE3, CHR 0x81, CHR 0xAE] @
     ''AI'' @
     [CHR 0xE8, CHR 0xAB, CHR 0x96, CHR 0xE6, CHR 0x96, CHR 0x87, CHR 0xE3, CHR 0x82,
      CHR 0x92, CHR 0xE3, CHR 0x81, CHR 0x8A, CHR 0xE5, CHR 0xB1, CHR 0x8A, CHR 0xE3,
      CHR 0x81, CHR 0x91, CHR 0xE3, CHR 0x81, CHR 0x99, CHR 0xE3, CHR 0x82, CHR 0x8B,
      CHR 0xE3, CHR 0x80, CHR 0x81] @
     ''Takara.ai'' @
     [CHR 0xE3, CHR 0x81, CHR 0xAE, CHR 0xE5, CHR 0x8E, CHR 0xB3, CHR 0xE9, CHR 0x81,
      CHR 0xB8, CHR 0xE3, CHR 0x83, CHR 0x95, CHR 0xE3, CHR 0x82, CHR 0xA3, CHR 0xE3,
      CHR 0x83, CHR 0xBC, CHR 0xE3, CHR 0x83, CHR 0x89]"

text \<open>\<open>scrapePapers\<close>: after the crawl, the list is cut to its first \<open>maxPapers\<close> papers.\<close>

definition scrapePapers :: "env \<Rightarrow> world \<Rightarrow> (err + Paper list) \<times> world" where
  "scrapePapers env w =
     (case crawl env (trace w) of
        Inl e \<Rightarrow> (Inl e, emit EvScrape w)
      | Inr papers \<Rightarrow>
          (Inr (if length papers > maxPapers then take maxPapers papers else papers),
           emit EvScrape w))"

definition feedItem :: "env \<Rightarrow> Paper \<Rightarrow> Item" where
  "feedItem env paper =
     \<lparr>Item_Title = Paper_Title paper,
      Item_Link = Paper_URL paper,
      Item_Description = Paper_Abstract paper,
      Item_PubDate = time_Format env RFC1123Z (Paper_PubDate paper),
      Item_GUID = \<lparr>IsPermaLink = True, GUID_Text = Paper_URL paper\<rparr>\<rparr>"

text \<open>The value \<open>rss\<close> that \<open>generateRSS\<close> builds before marshalling it.\<close>

definition feedRSS :: "env \<Rightarrow> Paper list \<Rightarrow> string \<Rightarrow> world \<Rightarrow> RSS" where
  "feedRSS env papers requestURL w =
     \<lparr>Version = ''2.0'',
      RSS_Channel =
        \<lparr>Channel_Title = feedTitle,
         Channel_Link = baseURL,
         Channel_Description = feedDescription,
         LastBuildDate = time_Format env RFC1123Z (now env (trace w)),
         Channel_AtomLink =
           \<lparr>Href = requestURL, Rel = ''self'', AtomLink_Type = ''application/rss+xml''\<rparr>,
         Items = map (feedItem env) papers\<rparr>,
      XMLNS = ''http://www.w3.org/2005/Atom''\<rparr>"

definition generateRSS :: "env \<Rightarrow> Paper list \<Rightarrow> string \<Rightarrow> world \<Rightarrow> err + bytes" where
  "generateRSS env papers requestURL w =
     (case xml_MarshalIndent env (feedRSS env papers requestURL w) of
        Inl e \<Rightarrow> Inl e
      | Inr output \<Rightarrow> Inr (xml_Header @ output))"

definition generateFeedDirect :: "env \<Rightarrow> string \<Rightarrow> world \<Rightarrow> (err + bytes) \<times> world" where
  "generateFeedDirect env requestURL w =
     (case scrapePapers env w of
        (Inl e, w1) \<Rightarrow> (Inl (Wrap ''failed scraping papers'' e), w1)
      | (Inr papers, w1) \<Rightarrow> (generateRSS env papers requestURL w1, w1))"

definition getCachedFeed :: "env \<Rightarrow> string \<Rightarrow> world \<Rightarrow> (err + bytes) \<times> world" where
  "getCachedFeed env requestURL w =
     (if \<not> redisConnected env then generateFeedDirect env requestURL w
      else case rdb_Get env cacheKey w of
             (Hit cachedData, w1) \<Rightarrow> (Inr cachedData, w1)
           | (_, w1) \<Rightarrow>
               (case generateFeedDirect env requestURL w1 of
                  (Inl e, w2) \<Rightarrow> (Inl (Wrap ''failed to generate direct feed'' e), w2)
                | (Inr feed, w2) \<Rightarrow>
                    (if redisConnected env
                     then (Inr feed, snd (rdb_Set env cacheKey feed w2))
                     else (Inr feed, w2))))"

section \<open>Summary stage\<close>

definition nl :: string where "nl = [CHR 0x0A]"

definition itemMarkdown :: "Item \<Rightarrow> string" where
  "itemMarkdown item =
     ''## ['' @ TrimSpace (ReplaceAll (Item_Title item) nl '' '') @ '']('' @ Item_Link item @ '')''
       @ nl @ nl @ Item_Description item @ nl @ nl @ ''---'' @ nl @ nl"

definition parseRSSToMarkdown :: "env \<Rightarrow> string \<Rightarrow> err + string" where
  "parseRSSToMarkdown env xmlContent =
     (case xml_Unmarshal env xmlContent of
        Inl e \<Rightarrow> Inl (Wrap ''failed to unmarshal RSS XML'' e)
      | Inr rss \<Rightarrow>
          (let ch = RSS_Channel rss;
               formattedDate =
                 (case time_Parse env RFC1123Z (LastBuildDate ch) of
                    Inl e \<Rightarrow> LastBuildDate ch
                  | Inr parsedDate \<Rightarrow> time_Format env ''2006-01-02'' parsedDate)
           in Inr (''# '' @ Channel_Title ch @ nl @ nl
                   @ ''*'' @ Channel_Description ch @ ''*'' @ nl @ nl
                   @ ''*Last updated: '' @ formattedDate @ ''*'' @ nl @ nl
                   @ ''---'' @ nl @ nl
                   @ concat (map itemMarkdown (Items ch)))))"

definition summaryAPI :: string where
  "summaryAPI =
     ''https://router.huggingface.co/hf-inference/models/Qwen/Qwen2.5-72B-Instruct/v1/chat/completions''"

definition summaryPrompt :: string where
  "summaryPrompt =
     ''Create a brief morning briefing on these AI research papers, written i'' @
     ''n a conversational style for busy professionals. Focus on what'' @
     [CHR 0x27] @
     ''s new and what it means for businesses and society.'' @
     [CHR 0x0A] @
     ''Format the output in HTML:'' @
     [CHR 0x0A] @
     ''<h2>Morning Headline</h2>'' @
     [CHR 0x0A] @
     ''<p>(1 sentence)</p>'' @
     [CHR 0x0A, CHR 0x0A] @
     ''<h2>What'' @
     [CHR 0x27] @
     ''s New</h2>'' @
     [CHR 0x0A] @
     ''<p>(2-3 sentences, written like you'' @
     [CHR 0x27] @
     ''re explaining it to a friend over coffee, with citations to papers as '' @
     ''<a href='' @
     [CHR 0x22] @
     ''link'' @
     [CHR 0x22] @
     ''>Paper Name</a>)</p>'' @
     [CHR 0x0A] @
     ''<ul>'' @
     [CHR 0x0A] @
     ''  <li>Cover all papers in a natural, flowing narrative</li>'' @
     [CHR 0x0A] @
     ''  <li>Group related papers together</li>'' @
     [CHR 0x0A] @
     ''  <li>Include key metrics and outcomes</li>'' @
     [CHR 0x0A] @
     ''  <li>Keep the tone light and engaging</li>'' @
     [CHR 0x0A] @
     ''</ul>'' @
     [CHR 0x0A, CHR 0x0A] @
     ''Keep it under 200 words. Start with the most impressive or important p'' @
     ''aper. Focus on outcomes and implications, not technical details. Write'' @
     '' like you'' @
     [CHR 0x27] @
     ''re explaining it to a friend over coffee. Do not write a word count.'' @
     [CHR 0x0A, CHR 0x0A] @
     ''Do not enclose the HTML in a markdown code block, just return the HTML'' @
     ''.'' @
     [CHR 0x0A, CHR 0x0A] @
     ''Below are the paper abstracts and information in markdown format:'' @
     [CHR 0x0A]"

text \<open>The post-processing at the end of \<open>summarizeWithLLM\<close>: "Extract only the content
  after <think> tags if present".\<close>

definition afterThink :: "string \<Rightarrow> string" where
  "afterThink response =
     (if Contains response ''<think>''
      then (let parts = Split response ''</think>''
            in if length parts > 1 then TrimSpace (parts ! (length parts - 1)) else response)
      else response)"

text \<open>
  \<open>summarizeWithLLM\<close>.  Marshalling the request and building the HTTP request cannot fail
  for the fixed model, method and URL, so those two error returns have no branch here.
\<close>

definition summarizeWithLLM :: "env \<Rightarrow> string \<Rightarrow> world \<Rightarrow> (err + string) \<times> world" where
  "summarizeWithLLM env markdownContent w =
     (if HF_API_KEY env = [] then (Inl (Err ''HF_API_KEY environment variable is not set''), w)
      else
        (let prompt = summaryPrompt @ markdownContent;
             w1 = emit (EvLLM summaryAPI prompt) w
         in case llm env (trace w) summaryAPI prompt of
              LLMSendError deadline e \<Rightarrow>
                (if deadline
                 then (Inl (Wrap ''timeout calling Hugging Face Router API'' e), w1)
                 else (Inl (Wrap ''failed to send request to Hugging Face Router API'' e), w1))
            | LLMResponse code body decoded \<Rightarrow>
                (if code \<noteq> 200
                 then (Inl (Err (''HTTP error '' @ showd code
                                 @ '' from Hugging Face Router API: '' @ body)), w1)
                 else case decoded of
                        Inl e \<Rightarrow> (Inl (Wrap ''failed to decode LLM response'' e), w1)
                      | Inr choices \<Rightarrow>
                          (if choices = [] \<or> hd choices = []
                           then (Inl (Err ''no valid response content returned from Hugging Face Router API''), w1)
                           else (Inr (afterThink (hd choices)), w1)))))"

text \<open>The value \<open>rss\<close> that \<open>generateSummaryRSS\<close> builds: exactly one item.\<close>

definition summaryRSS :: "env \<Rightarrow> string \<Rightarrow> string \<Rightarrow> world \<Rightarrow> RSS" where
  "summaryRSS env summary requestURL w =
     (let t = now env (trace w) in
      \<lparr>Version = ''2.0'',
       RSS_Channel =
         \<lparr>Channel_Title = ''Takara TLDR'',
          Channel_Link = liveURL,
          Channel_Description = ''Daily summaries of AI research papers from takara.ai'',
          LastBuildDate = time_Format env RFC1123Z t,
          Channel_AtomLink =
            \<lparr>Href = requestURL, Rel = ''self'', AtomLink_Type = ''application/rss+xml''\<rparr>,
          Items =
            [\<lparr>Item_Title = ''AI Research Papers Summary for ''
                              @ time_Format env ''January 2, 2006'' t,
              Item_Link = liveURL,
              Item_Description = ''<div>'' @ summary @ ''</div>'',
              Item_PubDate = time_Format env RFC1123Z t,
              Item_GUID = \<lparr>IsPermaLink = False,
                           GUID_Text = ''summary-'' @ time_Format env ''2006-01-02'' t\<rparr>\<rparr>]\<rparr>,
       XMLNS = ''http://www.w3.org/2005/Atom''\<rparr>)"

definition generateSummaryRSS :: "env \<Rightarrow> string \<Rightarrow> string \<Rightarrow> world \<Rightarrow> err + bytes" where
  "generateSummaryRSS env summary requestURL w =
     (case xml_MarshalIndent env (summaryRSS env summary requestURL w) of
        Inl e \<Rightarrow> Inl (Wrap ''failed to marshal summary RSS'' e)
      | Inr output \<Rightarrow> Inr (xml_Header @ output))"

definition generateSummaryDirect :: "env \<Rightarrow> string \<Rightarrow> world \<Rightarrow> (err + bytes) \<times> world" where
  "generateSummaryDirect env requestURL w =
     (case getCachedFeed env requestURL w of
        (Inl e, w1) \<Rightarrow> (Inl (Wrap ''failed to get feed for summary generation'' e), w1)
      | (Inr feedBytes, w1) \<Rightarrow>
          (case parseRSSToMarkdown env feedBytes of
             Inl e \<Rightarrow>
               (Inl (Wrap ''failed to parse RSS to markdown for summary generation'' e), w1)
           | Inr markdown \<Rightarrow>
               (case summarizeWithLLM env markdown w1 of
                  (Inl e, w2) \<Rightarrow> (Inl (Wrap ''failed to summarize markdown with LLM'' e), w2)
                | (Inr summaryContent, w2) \<Rightarrow>
                    (generateSummaryRSS env summaryContent requestURL w2, w2))))"

definition getCachedSummary :: "env \<Rightarrow> string \<Rightarrow> world \<Rightarrow> (err + bytes) \<times> world" where
  "getCachedSummary env requestURL w =
     (if \<not> redisConnected env then generateSummaryDirect env requestURL w
      else case rdb_Get env summaryCacheKey w of
             (Hit cachedData, w1) \<Rightarrow> (Inr cachedData, w1)
           | (_, w1) \<Rightarrow>
               (case generateSummaryDirect env requestURL w1 of
                  (Inl e, w2) \<Rightarrow>
                    (Inl (Wrap ''failed to generate summary directly after cache miss'' e), w2)
                | (Inr summary, w2) \<Rightarrow>
                    (if redisConnected env
                     then (Inr summary, snd (rdb_Set env summaryCacheKey summary w2))
                     else (Inr summary, w2))))"

section \<open>Conversation stage and its retry loop\<close>

text \<open>
  The regular expression of \<open>tryGenerateConversation\<close> is
  \<^verbatim>\<open>\{(?:[^{}]|(?:\{[^{}]*\}))*\}\<close>: an opening brace, then any number of pieces, each
  either one character that is no brace or a brace pair around characters that are no
  braces, then a closing brace.  From a given opening brace the text read so far decides
  each step (a non-brace continues the current level, an opening brace is only possible
  at the outer level, a closing brace closes the inner level or ends the match), so there
  is at most one match from each start and the preference order of the alternatives plays
  no part.  \<open>re_scan inner cs\<close> reads the text after the opening brace and returns the
  number of characters up to and including the closing brace of the match; \<open>inner\<close> says
  that an inner brace pair is open.
\<close>

fun re_scan :: "bool \<Rightarrow> string \<Rightarrow> nat option" where
  "re_scan inner [] = None"
| "re_scan inner (c # cs) =
     (if c = CHR ''}'' then (if inner then map_option Suc (re_scan False cs) else Some 1)
      else if c = CHR ''{'' then (if inner then None else map_option Suc (re_scan True cs))
      else map_option Suc (re_scan inner cs))"

text \<open>\<open>re.FindString\<close>: the match at the leftmost position that has one; \<open>None\<close> stands
  for the empty string Go returns when there is none (a match is never empty).\<close>

fun FindString :: "string \<Rightarrow> string option" where
  "FindString [] = None"
| "FindString (c # cs) =
     (if c = CHR ''{''
      then (case re_scan False cs of
              Some n \<Rightarrow> Some (c # take n cs)
            | None \<Rightarrow> FindString cs)
      else FindString cs)"

definition conversationAPI :: string where
  "conversationAPI = ''https://router.huggingface.co/sambanova/v1/chat/completions''"

definition conversationPromptPrefix :: string where
  "conversationPromptPrefix =
     ''Welcome to Daily Papers! Today, we'' @
     [CHR 0x27] @
     ''re diving into the latest AI research in an engaging and '' @
     [CHR 0x0A] @
     ''        informative discussion. The goal is to make it a **bite-sized '' @
     ''podcast** that'' @
     [CHR 0x27] @
     ''s **engaging, natural, and insightful** while covering '' @
     [CHR 0x0A] @
     ''        the key points of each paper.'' @
     [CHR 0x0A, CHR 0x0A] @
     ''        Here are today'' @
     [CHR 0x27] @
     ''s research papers:'' @
     [CHR 0x0A] @
     ''        ''"

definition conversationPromptSuffix :: string where
  "conversationPromptSuffix =
     [CHR 0x0A, CHR 0x0A] @
     ''        Convert this into a **conversational podcast-style discussion*'' @
     ''* between two experts, Brian and Jenny. '' @
     [CHR 0x0A] @
     ''        Ensure the conversation:'' @
     [CHR 0x0A] @
     ''        1. Flows naturally with realistic back-and-forth dialogue'' @
     [CHR 0x0A] @
     ''        2. Uses casual phrasing and occasional filler words (like '' @
     [CHR 0x22] @
     ''um'' @
     [CHR 0x22] @
     '', '' @
     [CHR 0x22] @
     ''you know'' @
     [CHR 0x22] @
     '')'' @
     [CHR 0x0A] @
     ''        3. Maintains professional insights while being engaging'' @
     [CHR 0x0A] @
     ''        4. Covers each paper meaningfully but concisely'' @
     [CHR 0x0A] @
     ''        5. Focuses on practical implications and key findings'' @
     [CHR 0x0A] @
     ''        6. Keeps a dynamic pace with natural transitions'' @
     [CHR 0x0A, CHR 0x09, CHR 0x09] @
     ''7. Avoid'' @
     [CHR 0x27] @
     ''s Host calling each other by name, just '' @
     [CHR 0x22] @
     ''you'' @
     [CHR 0x22] @
     '' and '' @
     [CHR 0x22] @
     ''I'' @
     [CHR 0x22] @
     ''.'' @
     [CHR 0x0A, CHR 0x0A] @
     ''        Return the conversation in this exact JSON format:'' @
     [CHR 0x0A] @
     ''        {'' @
     [CHR 0x0A] @
     ''            '' @
     [CHR 0x22] @
     ''conversation'' @
     [CHR 0x22] @
     '': ['' @
     [CHR 0x0A] @
     ''                {'' @
     [CHR 0x22] @
     ''speaker'' @
     [CHR 0x22] @
     '': '' @
     [CHR 0x22] @
     ''Brian'' @
     [CHR 0x22] @
     '', '' @
     [CHR 0x22] @
     ''text'' @
     [CHR 0x22] @
     '': '' @
     [CHR 0x22, CHR 0x22] @
     ''},'' @
     [CHR 0x0A] @
     ''                {'' @
     [CHR 0x22] @
     ''speaker'' @
     [CHR 0x22] @
     '': '' @
     [CHR 0x22] @
     ''Jenny'' @
     [CHR 0x22] @
     '', '' @
     [CHR 0x22] @
     ''text'' @
     [CHR 0x22] @
     '': '' @
     [CHR 0x22, CHR 0x22] @
     ''}'' @
     [CHR 0x0A] @
     ''            ]'' @
     [CHR 0x0A] @
     ''        }''"

definition tryGenerateConversation ::
    "env \<Rightarrow> string \<Rightarrow> world \<Rightarrow> (err + ConversationData) \<times> world" where
  "tryGenerateConversation env text w =
     (if HF_API_KEY env = [] then (Inl (Err ''HF_API_KEY environment variable is not set''), w)
      else
        (let prompt = conversationPromptPrefix @ text @ conversationPromptSuffix;
             w1 = emit (EvLLM conversationAPI prompt) w
         in case llm env (trace w) conversationAPI prompt of
              LLMSendError deadline e \<Rightarrow> (Inl (Wrap ''failed to send request'' e), w1)
            | LLMResponse code body decoded \<Rightarrow>
                (if code \<noteq> 200
                 then (Inl (Err (''HTTP error '' @ showd code @ '': '' @ body)), w1)
                 else case decoded of
                        Inl e \<Rightarrow> (Inl (Wrap ''failed to decode response'' e), w1)
                      | Inr choices \<Rightarrow>
                          (if choices = [] \<or> hd choices = []
                           then (Inl (Err ''no valid content in response''), w1)
                           else case FindString (hd choices) of
                                  None \<Rightarrow> (Inl (Err ''no valid JSON found in response''), w1)
                                | Some match \<Rightarrow>
                                    (case json_Unmarshal env match of
                                       Inl e \<Rightarrow>
                                         (Inl (Wrap ''failed to parse conversation JSON'' e), w1)
                                     | Inr conversation \<Rightarrow>
                                         (if Conversation conversation = []
                                          then (Inl (Err ''parsed JSON contains no conversation entries''), w1)
                                          else (Inr conversation, w1)))))))"

text \<open>
  The loop of \<open>extractConversation\<close>, from the value \<open>attempt\<close> of its counter on.  The
  jitter is \<open>rand.Int63n(1000)\<close> milliseconds.  In the \<open>select\<close>, \<open>ctx_done\<close> tells
  whether the context is done before the timer fires, and with which \<open>ctx.Err()\<close>.
\<close>

function extractConversation_loop ::
    "env \<Rightarrow> string \<Rightarrow> int \<Rightarrow> int \<Rightarrow> err option \<Rightarrow> world \<Rightarrow> (err + ConversationData) \<times> world" where
  "extractConversation_loop env text maxRetries attempt lastErr w =
     (if attempt \<le> maxRetries then
        (case tryGenerateConversation env text (emit (EvAttempt attempt maxRetries) w) of
           (Inr conversation, w1) \<Rightarrow> (Inr conversation, w1)
         | (Inl e, w1) \<Rightarrow>
             (if attempt < maxRetries then
                (let backoff = attempt * 2 * 1000;
                     jitter = int (rand_Int63 env (trace w1) mod 1000);
                     w2 = emit (EvBackoff (backoff + jitter)) (emit (EvAttemptFailed attempt e) w1)
                 in case ctx_done env (trace w2) of
                      Some ce \<Rightarrow> (Inl (Wrap ''context cancelled during retry wait'' ce), w2)
                    | None \<Rightarrow>
                        extractConversation_loop env text maxRetries (attempt + 1) (Some e) w2)
              else extractConversation_loop env text maxRetries (attempt + 1) (Some e)
                     (emit (EvAttemptFailed attempt e) w1)))
      else
        (case lastErr of
           Some e \<Rightarrow>
             (Inl (Wrap (''failed to generate conversation after '' @ show_int maxRetries
                         @ '' attempts'') e), w)
         | None \<Rightarrow>
             (Inl (Err (''failed to generate conversation after '' @ show_int maxRetries
                        @ '' attempts: %!w(<nil>)'')), w)))"
  by pat_completeness auto
termination
  by (relation "measure (\<lambda>(env, text, maxRetries, attempt, lastErr, w). nat (maxRetries + 1 - attempt))")
     auto

definition extractConversation ::
    "env \<Rightarrow> string \<Rightarrow> int \<Rightarrow> world \<Rightarrow> (err + ConversationData) \<times> world" where
  "extractConversation env text maxRetries w =
     extractConversation_loop env text maxRetries 1 None w"

definition generatePodcastConversation ::
    "env \<Rightarrow> string \<Rightarrow> world \<Rightarrow> (err + string) \<times> world" where
  "generatePodcastConversation env text w =
     (case extractConversation env text 3 w of
        (Inl e, w1) \<Rightarrow> (Inl (Wrap ''failed to extract conversation'' e), w1)
      | (Inr conversation, w1) \<Rightarrow>
          (case json_MarshalIndent env conversation of
             Inl e \<Rightarrow> (Inl (Wrap ''failed to marshal conversation'' e), w1)
           | Inr result \<Rightarrow>
               (if redisConnected env
                then (Inr result, snd (rdb_Set env conversationCacheKey result w1))
                else (Inr result, w1))))"

definition getcachedconversation ::
    "env \<Rightarrow> string \<Rightarrow> world \<Rightarrow> (err + string) \<times> world" where
  "getcachedconversation env text w =
     (case (if redisConnected env
            then (case rdb_Get env conversationCacheKey w of
                    (Hit cachedData, w1) \<Rightarrow> (Some cachedData, w1)
                  | (_, w1) \<Rightarrow> (None, w1))
            else (None, w)) of
        (Some cachedData, w1) \<Rightarrow> (Inr cachedData, w1)
      | (None, w1) \<Rightarrow>
          (case generatePodcastConversation env text w1 of
             (Inl e, w2) \<Rightarrow> (Inl (Wrap ''failed to generate podcast conversation'' e), w2)
           | (Inr conversation, w2) \<Rightarrow> (Inr conversation, w2)))"

section \<open>Podcast stage\<close>

text \<open>The choice of the voice at the head of the loop of \<open>generateaudiopodcast\<close>.\<close>

definition voiceFor :: "string \<Rightarrow> string" where
  "voiceFor speaker =
     (if speaker = ''Jenny'' then ''af_bella''
      else if speaker = ''Brian'' then ''am_michael''
      else ''af_bella'')"

text \<open>The loop over the dialogue entries; \<open>audioBuffer\<close> holds the audio written so far.
  Marshalling the request body and building the request cannot fail.\<close>

fun generateaudiopodcast_loop ::
    "env \<Rightarrow> DialogueEntry list \<Rightarrow> bytes \<Rightarrow> world \<Rightarrow> (err + bytes) \<times> world" where
  "generateaudiopodcast_loop env [] audioBuffer w = (Inr audioBuffer, w)"
| "generateaudiopodcast_loop env (entry # rest) audioBuffer w =
     (let voice = voiceFor (Speaker entry);
          w1 = emit (EvTTS (Text entry) voice) w
      in case tts env (trace w) (Text entry) voice of
           TTSSendError e \<Rightarrow> (Inl (Wrap ''failed to make request'' e), w1)
         | TTSResponse code body copyErr \<Rightarrow>
             (if code \<noteq> 200
              then (Inl (Err (''API request failed with status '' @ showd code @ '': '' @ body)),
                    w1)
              else case copyErr of
                     Some e \<Rightarrow> (Inl (Wrap ''failed to write audio data'' e), w1)
                   | None \<Rightarrow> generateaudiopodcast_loop env rest (audioBuffer @ body) w1))"

definition generateaudiopodcast :: "env \<Rightarrow> string \<Rightarrow> world \<Rightarrow> (err + bytes) \<times> world" where
  "generateaudiopodcast env text w =
     (case json_Unmarshal env text of
        Inl e \<Rightarrow> (Inl (Wrap ''failed to parse conversation'' e), w)
      | Inr conversation \<Rightarrow>
          (if DEEPINFRA_API_KEY env = []
           then (Inl (Err ''DEEPINFRA_API_KEY environment variable is not set''), w)
           else generateaudiopodcast_loop env (Conversation conversation) [] w))"

definition getcachedpodcast :: "env \<Rightarrow> string \<Rightarrow> world \<Rightarrow> (err + bytes) \<times> world" where
  "getcachedpodcast env text w =
     (case (if redisConnected env
            then (case rdb_Get env podcastCacheKey w of
                    (Hit audioData, w1) \<Rightarrow> (Some audioData, w1)
                  | (_, w1) \<Rightarrow> (None, w1))
            else (None, w)) of
        (Some audioData, w1) \<Rightarrow> (Inr audioData, w1)
      | (None, w1) \<Rightarrow>
          (case getcachedconversation env text w1 of
             (Inl e, w2) \<Rightarrow> (Inl (Wrap ''failed to get conversation'' e), w2)
           | (Inr conversation, w2) \<Rightarrow>
               (case generateaudiopodcast env conversation w2 of
                  (Inl e, w3) \<Rightarrow> (Inl (Wrap ''failed to generate audio podcast'' e), w3)
                | (Inr audioData, w3) \<Rightarrow>
                    (if redisConnected env
                     then (Inr audioData, snd (rdb_Set env podcastCacheKey audioData w3))
                     else (Inr audioData, w3)))))"

section \<open>Full refresh\<close>

text \<open>
  \<open>updateAllCaches\<close> returns \<open>None\<close> for Go's \<open>nil\<close> error.  The body of the function is
  one long sequence of steps, each returning early on its error; it is written here as its
  consecutive parts, from the last to the first: the podcast update, the second and the
  first conversation update, the summary update, and the head with the feed update.
\<close>

definition updateAllCaches_podcast :: "env \<Rightarrow> string \<Rightarrow> world \<Rightarrow> err option \<times> world" where
  "updateAllCaches_podcast env conversation w =
     (case generateaudiopodcast env conversation w of
        (Inl e, w1) \<Rightarrow> (Some (Wrap ''failed to generate podcast audio'' e), w1)
      | (Inr audioData, w1) \<Rightarrow>
          (case rdb_Set env podcastCacheKey audioData w1 of
             (Some e, w2) \<Rightarrow> (Some (Wrap ''failed to update podcast cache'' e), w2)
           | (None, w2) \<Rightarrow> (None, w2)))"

definition updateAllCaches_conversation2 ::
    "env \<Rightarrow> bytes \<Rightarrow> world \<Rightarrow> err option \<times> world" where
  "updateAllCaches_conversation2 env summaryRSSBytes w =
     (case generatePodcastConversation env summaryRSSBytes w of
        (Inl e, w1) \<Rightarrow> (Some (Wrap ''failed to generate podcast conversation'' e), w1)
      | (Inr conversation, w1) \<Rightarrow>
          (case rdb_Set env conversationCacheKey conversation w1 of
             (Some e, w2) \<Rightarrow> (Some (Wrap ''failed to update conversation cache'' e), w2)
           | (None, w2) \<Rightarrow> updateAllCaches_podcast env conversation w2))"

definition updateAllCaches_conversation ::
    "env \<Rightarrow> bytes \<Rightarrow> world \<Rightarrow> err option \<times> world" where
  "updateAllCaches_conversation env summaryRSSBytes w =
     (case generatePodcastConversation env summaryRSSBytes w of
        (Inl e, w1) \<Rightarrow> (Some (Wrap ''failed to generate podcast conversation'' e), w1)
      | (Inr conversation, w1) \<Rightarrow>
          (case rdb_Set env conversationCacheKey conversation w1 of
             (Some e, w2) \<Rightarrow> (Some (Wrap ''failed to update conversation cache'' e), w2)
           | (None, w2) \<Rightarrow> updateAllCaches_conversation2 env summaryRSSBytes w2))"

definition updateAllCaches_summary :: "env \<Rightarrow> bytes \<Rightarrow> world \<Rightarrow> err option \<times> world" where
  "updateAllCaches_summary env freshFeedBytes w =
     (case parseRSSToMarkdown env freshFeedBytes of
        Inl e \<Rightarrow> (Some (Wrap ''failed to parse fresh feed to markdown'' e), w)
      | Inr markdown \<Rightarrow>
          (case summarizeWithLLM env markdown w of
             (Inl e, w1) \<Rightarrow> (Some (Wrap ''failed to summarize markdown with LLM'' e), w1)
           | (Inr summaryContent, w1) \<Rightarrow>
               (case generateSummaryRSS env summaryContent baseURL w1 of
                  Inl e \<Rightarrow> (Some (Wrap ''failed to generate summary RSS'' e), w1)
                | Inr summaryRSSBytes \<Rightarrow>
                    (case rdb_Set env summaryCacheKey summaryRSSBytes w1 of
                       (Some e, w2) \<Rightarrow> (Some (Wrap ''failed to update summary cache'' e), w2)
                     | (None, w2) \<Rightarrow> updateAllCaches_conversation env summaryRSSBytes w2))))"

definition updateAllCaches :: "env \<Rightarrow> world \<Rightarrow> err option \<times> world" where
  "updateAllCaches env w =
     (if \<not> redisConnected env
      then (Some (Err ''redis not connected, cannot update caches''), w)
      else case generateFeedDirect env baseURL w of
             (Inl e, w1) \<Rightarrow>
               (Some (Wrap ''failed to generate direct feed for cache update'' e), w1)
           | (Inr freshFeedBytes, w1) \<Rightarrow>
               updateAllCaches_summary env freshFeedBytes
                 (snd (rdb_Set env cacheKey freshFeedBytes w1)))"

section \<open>Request handler\<close>

text \<open>
  A request as far as \<open>Handler\<close> reads it, and the response it writes.  The two JSON
  bodies (health check, refresh status) and the text of \<open>http.Error\<close> are kept as values
  rather than bytes.  The first request of a process probes the store once
  (\<open>initOnce\<close>, \<open>initRedis\<close>); the outcome is the flag \<open>redisConnected\<close> of the
  environment.
\<close>

record request =
  Method :: string
  URL_Path :: string
  Host :: string
  X_Update_Key :: string

datatype body =
    Raw bytes
  | HealthStatus bool string
  | UpdateStatus string
  | ErrorText string

record response =
  status :: nat
  headers :: "(string \<times> string) list"
  body :: body

definition corsHeaders :: "(string \<times> string) list" where
  "corsHeaders =
     [(''Access-Control-Allow-Origin'', ''*''),
      (''Access-Control-Allow-Methods'', ''GET, OPTIONS''),
      (''Access-Control-Allow-Headers'', ''Content-Type'')]"

definition http_Error :: "string \<Rightarrow> nat \<Rightarrow> response" where
  "http_Error msg code =
     \<lparr>status = code,
      headers = corsHeaders @ [(''Content-Type'', ''text/plain; charset=utf-8''),
                               (''X-Content-Type-Options'', ''nosniff'')],
      body = ErrorText msg\<rparr>"

definition respond :: "(string \<times> string) list \<Rightarrow> body \<Rightarrow> response" where
  "respond hs b = \<lparr>status = 200, headers = corsHeaders @ hs, body = b\<rparr>"

definition Handler :: "env \<Rightarrow> request \<Rightarrow> world \<Rightarrow> response \<times> world" where
  "Handler env r w =
     (let path0 = TrimSuffix (URL_Path r) ''/'';
          path = (if path0 = [] then ''/api'' else path0);
          requestURL = ''https://'' @ Host r @ URL_Path r
      in
      if Method r = ''OPTIONS'' then (respond [] (Raw []), w)
      else if path = ''/api'' then
        (respond [(''Content-Type'', ''application/json'')]
           (HealthStatus (redisConnected env) (time_Format env RFC3339 (now env (trace w)))), w)
      else if path = ''/api/feed'' then
        (case getCachedFeed env requestURL w of
           (Inl e, w1) \<Rightarrow> (http_Error ''Error generating feed'' 500, w1)
         | (Inr feed, w1) \<Rightarrow>
             (respond [(''Content-Type'', ''application/rss+xml'')] (Raw feed), w1))
      else if path = ''/api/summary'' then
        (case getCachedSummary env requestURL w of
           (Inl e, w1) \<Rightarrow>
             (http_Error (''Error generating summary: '' @ Error_string e) 500, w1)
         | (Inr summary, w1) \<Rightarrow>
             (respond [(''Content-Type'', ''application/rss+xml'')] (Raw summary), w1))
      else if path = ''/api/conversation'' then
        (case getCachedSummary env requestURL w of
           (Inl e, w1) \<Rightarrow>
             (http_Error (''Error generating summary: '' @ Error_string e) 500, w1)
         | (Inr summary, w1) \<Rightarrow>
             (case getcachedconversation env summary w1 of
                (Inl e, w2) \<Rightarrow>
                  (http_Error (''Error generating podcast conversation: '' @ Error_string e) 500,
                   w2)
              | (Inr conversation, w2) \<Rightarrow>
                  (respond [(''Content-Type'', ''application/json'')] (Raw conversation), w2)))
      else if path = ''/api/podcast'' then
        (case getCachedSummary env requestURL w of
           (Inl e, w1) \<Rightarrow>
             (http_Error (''Error generating summary: '' @ Error_string e) 500, w1)
         | (Inr summary, w1) \<Rightarrow>
             (case getcachedpodcast env summary w1 of
                (Inl e, w2) \<Rightarrow>
                  (http_Error (''Error with podcast: '' @ Error_string e) 500, w2)
              | (Inr audioData, w2) \<Rightarrow>
                  (respond
                     [(''Content-Type'', ''audio/mpeg''),
                      (''Content-Disposition'',
                         ''inline; filename='' @ [CHR 0x22] @ ''daily-papers-podcast.mp3''
                           @ [CHR 0x22]),
                      (''Content-Length'', showd (length audioData)),
                      (''Accept-Ranges'', ''bytes'')]
                     (Raw audioData), w2)))
      else if path = ''/api/update-cache'' then
        (if UPDATE_KEY env = [] \<or> X_Update_Key r \<noteq> UPDATE_KEY env
         then (http_Error ''Unauthorized'' 401, w)
         else case updateAllCaches env w of
                (Some e, w1) \<Rightarrow>
                  (http_Error (''Error updating caches: '' @ Error_string e) 500, w1)
              | (None, w1) \<Rightarrow>
                  (respond [(''Content-Type'', ''application/json'')]
                     (UpdateStatus (time_Format env RFC3339 (now env (trace w1)))), w1))
      else (http_Error ''404 page not found'' 404, w))"

section \<open>An example environment\<close>

text \<open>
  A small world in which every collaborator answers: the Content Source finds 52 papers,
  the library codecs know one document each, the Text-Generation Service wraps its
  answers in reasoning tags and prose, and the Speech-Synthesis Service returns a
  segment that spells out voice and text.  The theorems below are instantiated on it and
  on variations of it.
\<close>

definition demo_paper :: "nat \<Rightarrow> Paper" where
  "demo_paper i =
     \<lparr>Paper_Title = ''Paper '' @ showd i,
      Paper_URL = ''https://huggingface.co/papers/'' @ showd i,
      Paper_Abstract = ''Abstract '' @ showd i,
      Paper_PubDate = 0\<rparr>"

definition demo_date :: string where
  "demo_date = ''Thu, 01 Jan 1970 00:00:00 +0000''"

definition demo_feed :: RSS where
  "demo_feed =
     \<lparr>Version = ''2.0'',
      RSS_Channel =
        \<lparr>Channel_Title = ''Feed'',
         Channel_Link = baseURL,
         Channel_Description = ''Papers'',
         LastBuildDate = demo_date,
         Channel_AtomLink =
           \<lparr>Href = baseURL, Rel = ''self'', AtomLink_Type = ''application/rss+xml''\<rparr>,
         Items =
           [\<lparr>Item_Title = ''Paper 0'', Item_Link = ''https://huggingface.co/papers/0'',
             Item_Description = ''Abstract 0'', Item_PubDate = demo_date,
             Item_GUID = \<lparr>IsPermaLink = True,
                          GUID_Text = ''https://huggingface.co/papers/0''\<rparr>\<rparr>]\<rparr>,
      XMLNS = ''http://www.w3.org/2005/Atom''\<rparr>"

definition demo_conversation :: ConversationData where
  "demo_conversation =
     \<lparr>Conversation = [\<lparr>Speaker = ''Brian'', Text = ''Hello''\<rparr>,
                      \<lparr>Speaker = ''Jenny'', Text = ''Hi''\<rparr>,
                      \<lparr>Speaker = ''Guest'', Text = ''Hey''\<rparr>]\<rparr>"

definition demo_json :: string where
  \<open>demo_json = ''{"conversation": [{"speaker": "Brian", "text": "Hello"}, {"speaker": "Jenny", "text": "Hi"}, {"speaker": "Guest", "text": "Hey"}]}''\<close>

definition demo_summary_reply :: string where
  "demo_summary_reply = ''<think>plan</think> <h2>Morning Headline</h2>''"

definition demo_reply :: string where
  "demo_reply = ''Here is the script: '' @ demo_json @ '' Enjoy!''"

definition demo_env :: env where
  "demo_env =
     \<lparr>redisConnected = True,
      HF_API_KEY = ''hf-key'',
      DEEPINFRA_API_KEY = ''di-key'',
      UPDATE_KEY = ''secret'',
      now = (\<lambda>h. 0),
      time_Format = (\<lambda>layout t. demo_date),
      time_Parse = (\<lambda>layout s. Inr 0),
      xml_MarshalIndent = (\<lambda>r. Inr ''<rss></rss>''),
      xml_Unmarshal =
        (\<lambda>b. if b = xml_Header @ ''<rss></rss>'' then Inr demo_feed else Inl (Err ''EOF'')),
      json_MarshalIndent =
        (\<lambda>c. if c = demo_conversation then Inr demo_json else Inl (Err ''unsupported value'')),
      json_Unmarshal =
        (\<lambda>b. if b = demo_json then Inr demo_conversation else Inl (Err ''invalid character'')),
      crawl = (\<lambda>h. Inr (map demo_paper [0..<52])),
      llm = (\<lambda>h url prompt.
               if url = summaryAPI
               then LLMResponse 200 [] (Inr [demo_summary_reply])
               else LLMResponse 200 [] (Inr [demo_reply])),
      tts = (\<lambda>h text voice. TTSResponse 200 (voice @ '':'' @ text @ '';'') None),
      redis_get_err = (\<lambda>h key. None),
      redis_set_err = (\<lambda>h key. None),
      ctx_done = (\<lambda>h. None),
      rand_Int63 = (\<lambda>h. 12345)\<rparr>"

definition demo_world :: world where
  "demo_world = \<lparr>store = Map.empty, trace = []\<rparr>"

section \<open>Observations on runs\<close>

subsection \<open>Events of a run and the frame of a stage\<close>

text \<open>
  The events a run adds to the trace; the events a stage may cause when it reads the keys
  \<open>rs\<close> and writes the keys \<open>ws\<close> of the Cache Store; and the frame of such a stage: only
  permitted events, and no change of the store at any other key.
\<close>

definition new_events :: "world \<Rightarrow> world \<Rightarrow> event list" where
  "new_events w w' = drop (length (trace w)) (trace w')"

definition permitted :: "env \<Rightarrow> string list \<Rightarrow> string list \<Rightarrow> event \<Rightarrow> bool" where
  "permitted env rs ws ev =
     (case ev of
        EvGet k \<Rightarrow> redisConnected env \<and> k \<in> set rs
      | EvSet k v \<Rightarrow> redisConnected env \<and> k \<in> set ws
      | _ \<Rightarrow> True)"

definition frame :: "env \<Rightarrow> string list \<Rightarrow> string list \<Rightarrow> world \<Rightarrow> world \<Rightarrow> bool" where
  "frame env rs ws w w' =
     ((\<exists>evs. trace w' = trace w @ evs \<and> list_all (permitted env rs ws) evs) \<and>
      (\<forall>k. \<not> (redisConnected env \<and> k \<in> set ws) \<longrightarrow> store w' k = store w k))"

definition writesKey :: "string \<Rightarrow> event \<Rightarrow> bool" where
  "writesKey k ev = (case ev of EvSet k' v \<Rightarrow> k' = k | _ \<Rightarrow> False)"

definition writes :: "string \<Rightarrow> bytes \<Rightarrow> event \<Rightarrow> bool" where
  "writes k v ev = (ev = EvSet k v)"

definition isStoreEvent :: "event \<Rightarrow> bool" where
  "isStoreEvent ev = (case ev of EvGet k \<Rightarrow> True | EvSet k v \<Rightarrow> True | _ \<Rightarrow> False)"

definition isUpstreamCall :: "event \<Rightarrow> bool" where
  "isUpstreamCall ev =
     (case ev of EvScrape \<Rightarrow> True | EvLLM u p \<Rightarrow> True | EvTTS t v \<Rightarrow> True | _ \<Rightarrow> False)"

definition isSynthesisCall :: "event \<Rightarrow> bool" where
  "isSynthesisCall ev = (case ev of EvTTS t v \<Rightarrow> True | _ \<Rightarrow> False)"

definition allKeys :: "string list" where
  "allKeys = [cacheKey, summaryCacheKey, conversationCacheKey, podcastCacheKey]"

subsection \<open>Speech-synthesis calls\<close>

text \<open>
  The call a dialogue entry causes, and the answer the Speech-Synthesis Service gives to
  the \<open>i\<close>-th call of a run when all earlier ones were answered.
\<close>

definition synthesisCall :: "DialogueEntry \<Rightarrow> event" where
  "synthesisCall entry = EvTTS (Text entry) (voiceFor (Speaker entry))"

definition synthesisAnswer :: "env \<Rightarrow> event list \<Rightarrow> DialogueEntry list \<Rightarrow> nat \<Rightarrow> tts_result" where
  "synthesisAnswer env h entries i =
     tts env (h @ map synthesisCall (take i entries)) (Text (entries ! i))
       (voiceFor (Speaker (entries ! i)))"

subsection \<open>Requests and responses\<close>

text \<open>
  The path \<open>Handler\<close> dispatches on, the four endpoints that read through the cache, and
  the headers of a podcast response.
\<close>

definition normalizedPath :: "request \<Rightarrow> string" where
  "normalizedPath r =
     (let path0 = TrimSuffix (URL_Path r) ''/'' in if path0 = [] then ''/api'' else path0)"

definition readEndpoints :: "string list" where
  "readEndpoints = [''/api/feed'', ''/api/summary'', ''/api/conversation'', ''/api/podcast'']"

definition podcastHeaders :: "bytes \<Rightarrow> (string \<times> string) list" where
  "podcastHeaders audioData =
     [(''Content-Type'', ''audio/mpeg''),
      (''Content-Disposition'',
         ''inline; filename='' @ [CHR 0x22] @ ''daily-papers-podcast.mp3'' @ [CHR 0x22]),
      (''Content-Length'', showd (length audioData)),
      (''Accept-Ranges'', ''bytes'')]"

subsection \<open>Collaborators that answer\<close>

text \<open>
  What it means for the collaborators of the service to work: the Content Source returns
  papers, the XML encoder accepts every feed and the decoder reads back what was encoded,
  a decoded conversation can be encoded and read back, the Text-Generation Service answers
  every prompt with a usable content, and the Speech-Synthesis Service answers every call
  with audio.  Also: a Speech-Synthesis Service that never answers with audio, and a Cache
  Store that accepts every write.
\<close>

definition content_source_works :: "env \<Rightarrow> bool" where
  "content_source_works env = (\<forall>h. \<exists>papers. crawl env h = Inr papers)"

definition xml_works :: "env \<Rightarrow> bool" where
  "xml_works env =
     ((\<forall>rss. \<exists>doc. xml_MarshalIndent env rss = Inr doc) \<and>
      (\<forall>rss doc. xml_MarshalIndent env rss = Inr doc \<longrightarrow>
         (\<exists>rss'. xml_Unmarshal env (xml_Header @ doc) = Inr rss')))"

definition json_works :: "env \<Rightarrow> bool" where
  "json_works env =
     (\<forall>m c. json_Unmarshal env m = Inr c \<longrightarrow>
        (\<exists>b. json_MarshalIndent env c = Inr b \<and> json_Unmarshal env b = Inr c))"

definition text_generation_works :: "env \<Rightarrow> bool" where
  "text_generation_works env =
     (HF_API_KEY env \<noteq> [] \<and>
      (\<forall>h p. \<exists>raw c cs. llm env h summaryAPI p = LLMResponse 200 raw (Inr (c # cs)) \<and> c \<noteq> []) \<and>
      (\<forall>h p. \<exists>raw c cs m conv.
         llm env h conversationAPI p = LLMResponse 200 raw (Inr (c # cs)) \<and> c \<noteq> [] \<and>
         FindString c = Some m \<and> json_Unmarshal env m = Inr conv \<and> Conversation conv \<noteq> []))"

definition speech_synthesis_works :: "env \<Rightarrow> bool" where
  "speech_synthesis_works env =
     (DEEPINFRA_API_KEY env \<noteq> [] \<and> (\<forall>h t v. \<exists>audio. tts env h t v = TTSResponse 200 audio None))"

definition upstreams_work :: "env \<Rightarrow> bool" where
  "upstreams_work env =
     (content_source_works env \<and> xml_works env \<and> json_works env \<and>
      text_generation_works env \<and> speech_synthesis_works env)"

definition speech_synthesis_fails :: "env \<Rightarrow> bool" where
  "speech_synthesis_fails env = (\<forall>h t v audio. tts env h t v \<noteq> TTSResponse 200 audio None)"

definition store_writes_succeed :: "env \<Rightarrow> bool" where
  "store_writes_succeed env = (\<forall>h k. redis_set_err env h k = None)"

subsection \<open>Events of the retry controller\<close>

text \<open>
  The events of one attempt of \<open>extractConversation\<close> with a budget of three: the attempt
  starts and, when the API key is set, the Text-Generation Service is called; a failed
  attempt that is not the last one is logged and followed by a wait of twice the attempt
  number in seconds plus a jitter below one second.  \<open>attemptAt\<close> is the outcome of
  attempt \<open>k\<close> when the events \<open>pre\<close> came before it; \<open>cancelled\<close> and \<open>exhausted\<close> are the
  two errors the controller itself reports.
\<close>

definition generationCall :: "env \<Rightarrow> string \<Rightarrow> event list" where
  "generationCall env tx =
     (if HF_API_KEY env = [] then []
      else [EvLLM conversationAPI (conversationPromptPrefix @ tx @ conversationPromptSuffix)])"

definition attemptEvents :: "env \<Rightarrow> string \<Rightarrow> int \<Rightarrow> event list" where
  "attemptEvents env tx k = EvAttempt k 3 # generationCall env tx"

definition failureEvents :: "int \<Rightarrow> err \<Rightarrow> nat \<Rightarrow> event list" where
  "failureEvents k e jitter = [EvAttemptFailed k e, EvBackoff (k * 2 * 1000 + int jitter)]"

definition cancelled :: "err \<Rightarrow> err" where
  "cancelled ce = Wrap ''context cancelled during retry wait'' ce"

definition exhausted :: "err \<Rightarrow> err" where
  "exhausted e = Wrap ''failed to generate conversation after 3 attempts'' e"

definition attemptAt :: "env \<Rightarrow> string \<Rightarrow> world \<Rightarrow> event list \<Rightarrow> int \<Rightarrow> err + ConversationData" where
  "attemptAt env tx w pre k =
     fst (tryGenerateConversation env tx (emit (EvAttempt k 3) (w\<lparr>trace := trace w @ pre\<rparr>)))"

definition isAttemptStart :: "event \<Rightarrow> bool" where
  "isAttemptStart ev = (case ev of EvAttempt a m \<Rightarrow> True | _ \<Rightarrow> False)"

definition isGenerationCall :: "event \<Rightarrow> bool" where
  "isGenerationCall ev = (case ev of EvLLM u p \<Rightarrow> True | _ \<Rightarrow> False)"

definition isBackoff :: "event \<Rightarrow> bool" where
  "isBackoff ev = (case ev of EvBackoff d \<Rightarrow> True | _ \<Rightarrow> False)"

definition isRetryEvent :: "event \<Rightarrow> bool" where
  "isRetryEvent ev =
     (case ev of
        EvAttempt a m \<Rightarrow> True
      | EvAttemptFailed a e \<Rightarrow> True
      | EvBackoff d \<Rightarrow> True
      | EvLLM u p \<Rightarrow> u = conversationAPI
      | _ \<Rightarrow> False)"

subsection \<open>Example deployments\<close>

text \<open>
  Variations of \<open>demo_env\<close> used to run the program on concrete inputs: a speech service
  that is unavailable, no Cache Store, a Text-Generation Service that fails twice before
  it answers, one that always fails, the same under a context that is already done, and
  one that answers with an object nested two
  levels deep (the JSON decoder ignores the unknown field \<open>meta\<close>, and reads the inner
  entry object on its own as a conversation without entries).  Two requests and two
  populated stores complete the examples.
\<close>

definition mute_env :: env where
  "mute_env = demo_env\<lparr>tts := (\<lambda>h t v. TTSResponse 503 ''Service Unavailable'' None)\<rparr>"

definition offline_env :: env where
  "offline_env = demo_env\<lparr>redisConnected := False\<rparr>"

definition flaky_env :: env where
  "flaky_env =
     demo_env\<lparr>llm := (\<lambda>h url prompt.
        let n = length (filter isGenerationCall h)
        in if n < 2 then LLMSendError False (Err (''upstream failure '' @ showd (n + 1)))
           else LLMResponse 200 [] (Inr [demo_reply]))\<rparr>"

definition down_env :: env where
  "down_env =
     demo_env\<lparr>llm := (\<lambda>h url prompt.
        LLMSendError False
          (Err (''upstream failure '' @ showd (length (filter isGenerationCall h) + 1))))\<rparr>"

definition cancelled_env :: env where
  "cancelled_env = down_env\<lparr>ctx_done := (\<lambda>h. Some (Err ''context canceled''))\<rparr>"




definition podcast_request :: request where
  "podcast_request =
     \<lparr>Method = ''GET'', URL_Path = ''/api/podcast'', Host = ''tldr.takara.ai'', X_Update_Key = []\<rparr>"

definition refresh_request :: request where
  "refresh_request =
     \<lparr>Method = ''POST'', URL_Path = ''/api/update-cache'', Host = ''tldr.takara.ai'',
      X_Update_Key = ''secret''\<rparr>"

definition podcast_only_world :: world where
  "podcast_only_world = \<lparr>store = [podcastCacheKey \<mapsto> ''ID3-cached-audio''], trace = []\<rparr>"

definition warm_world :: world where
  "warm_world =
     \<lparr>store = [summaryCacheKey \<mapsto> ''<rss>summary</rss>'', podcastCacheKey \<mapsto> ''ID3-cached-audio''],
      trace = []\<rparr>"

subsection \<open>The language of the regular expression\<close>




subsection \<open>The specification's reading of two post-processing steps\<close>



definition keepAfterReasoning :: "string \<Rightarrow> string" where
  "keepAfterReasoning s =
     (case Index s ''<think>'' of
        None \<Rightarrow> s
      | Some i \<Rightarrow>
          (case Index (drop (i + length ''<think>'') s) ''</think>'' of
             None \<Rightarrow> s
           | Some j \<Rightarrow> drop (i + length ''<think>'' + j + length ''</think>'') s))"

section \<open>Frames of the stages\<close>

lemma trace_emit [simp]: "trace (emit e w) = trace w @ [e]"
  by (simp add: emit_def)

lemma store_emit [simp]: "store (emit e w) = store w"
  by (simp add: emit_def)

lemma loop_success:
  "generateaudiopodcast_loop env es buf w = (Inr audio, w') \<Longrightarrow>
     trace w' = trace w @ map synthesisCall es \<and> store w' = store w \<and>
     (\<exists>bodies. length bodies = length es \<and> audio = buf @ concat bodies \<and>
        (\<forall>i<length es. synthesisAnswer env (trace w) es i = TTSResponse 200 (bodies ! i) None))"
proof (induction es arbitrary: buf w)
  case Nil
  then show ?case by simp
next
  case (Cons entry rest)
  let ?w1 = "emit (synthesisCall entry) w"
  from Cons.prems obtain body where
    first: "tts env (trace w) (Text entry) (voiceFor (Speaker entry)) = TTSResponse 200 body None"
    and rest: "generateaudiopodcast_loop env rest (buf @ body) ?w1 = (Inr audio, w')"
    by (auto simp: Let_def synthesisCall_def split: tts_result.splits if_splits option.splits)
  from Cons.IH [OF rest] obtain bodies where
    tr: "trace w' = trace ?w1 @ map synthesisCall rest" and st: "store w' = store ?w1" and
    len: "length bodies = length rest" and au: "audio = (buf @ body) @ concat bodies" and
    answers: "\<forall>i<length rest. synthesisAnswer env (trace ?w1) rest i = TTSResponse 200 (bodies ! i) None"
    by blast
  have "synthesisAnswer env (trace w) (entry # rest) i = TTSResponse 200 ((body # bodies) ! i) None"
    if "i < length (entry # rest)" for i
  proof (cases i)
    case 0
    with first show ?thesis by (simp add: synthesisAnswer_def)
  next
    case (Suc j)
    with that answers have "synthesisAnswer env (trace ?w1) rest j = TTSResponse 200 (bodies ! j) None"
      by simp
    with Suc show ?thesis by (simp add: synthesisAnswer_def)
  qed
  with tr st len au show ?case
    by (intro conjI exI [of _ "body # bodies"]) simp_all
qed

lemma loop_failure:
  "generateaudiopodcast_loop env es buf w = (Inl e, w') \<Longrightarrow>
     store w' = store w \<and>
     (\<exists>i<length es. trace w' = trace w @ map synthesisCall (take (Suc i) es) \<and>
        (\<forall>audio. synthesisAnswer env (trace w) es i \<noteq> TTSResponse 200 audio None))"
proof (induction es arbitrary: buf w)
  case Nil
  then show ?case by simp
next
  case (Cons entry rest)
  let ?w1 = "emit (synthesisCall entry) w"
  show ?case
  proof (cases "\<exists>body. tts env (trace w) (Text entry) (voiceFor (Speaker entry)) = TTSResponse 200 body None")
    case True
    then obtain body where
      first: "tts env (trace w) (Text entry) (voiceFor (Speaker entry)) = TTSResponse 200 body None"
      by blast
    with Cons.prems have "generateaudiopodcast_loop env rest (buf @ body) ?w1 = (Inl e, w')"
      by (simp add: Let_def synthesisCall_def)
    from Cons.IH [OF this] obtain i where
      "store w' = store ?w1" "i < length rest"
      "trace w' = trace ?w1 @ map synthesisCall (take (Suc i) rest)"
      "\<forall>audio. synthesisAnswer env (trace ?w1) rest i \<noteq> TTSResponse 200 audio None"
      by blast
    then show ?thesis
      by (intro conjI exI [of _ "Suc i"]) (simp_all add: synthesisAnswer_def)
  next
    case False
    with Cons.prems have "w' = ?w1"
      by (auto simp: Let_def synthesisCall_def split: tts_result.splits if_splits option.splits)
    with False show ?thesis
      by (intro conjI exI [of _ 0]) (simp_all add: synthesisAnswer_def)
  qed
qed

lemma frame_refl [simp]: "frame env rs ws w w"
  by (simp add: frame_def)

lemma frame_trans:
  "frame env rs ws w w1 \<Longrightarrow> frame env rs ws w1 w2 \<Longrightarrow> frame env rs ws w w2"
  unfolding frame_def by (elim conjE exE) (simp add: list_all_append)

lemma permitted_mono:
  "set rs \<subseteq> set rs' \<Longrightarrow> set ws \<subseteq> set ws' \<Longrightarrow> permitted env rs ws ev \<Longrightarrow> permitted env rs' ws' ev"
  by (auto simp: permitted_def split: event.splits)

lemma frame_mono:
  "frame env rs ws w w' \<Longrightarrow> set rs \<subseteq> set rs' \<Longrightarrow> set ws \<subseteq> set ws' \<Longrightarrow> frame env rs' ws' w w'"
  unfolding frame_def list_all_iff by (blast intro: permitted_mono)

lemma frame_emit: "permitted env rs ws ev \<Longrightarrow> frame env rs ws w (emit ev w)"
  by (simp add: frame_def)

lemma frame_Get:
  "rdb_Get env k w = (g, w') \<Longrightarrow> redisConnected env \<Longrightarrow> k \<in> set rs \<Longrightarrow> frame env rs ws w w'"
  by (auto simp: rdb_Get_def frame_def permitted_def split: option.splits)

lemma frame_Set:
  "rdb_Set env k v w = (r, w') \<Longrightarrow> redisConnected env \<Longrightarrow> k \<in> set ws \<Longrightarrow> frame env rs ws w w'"
  by (auto simp: rdb_Set_def frame_def permitted_def split: option.splits)

lemma frame_scrapePapers: "scrapePapers env w = (r, w') \<Longrightarrow> frame env rs ws w w'"
  by (auto simp: scrapePapers_def frame_def permitted_def split: sum.splits)

lemma frame_generateFeedDirect: "generateFeedDirect env u w = (r, w') \<Longrightarrow> frame env rs ws w w'"
  by (auto simp: generateFeedDirect_def split: prod.splits sum.splits dest: frame_scrapePapers)

lemma frame_getCachedFeed:
  assumes "getCachedFeed env u w = (r, w')"
  shows "frame env [cacheKey] [cacheKey] w w'"
proof (cases "redisConnected env")
  case False
  with assms show ?thesis
    by (simp add: getCachedFeed_def frame_generateFeedDirect)
next
  case True
  obtain g w1 where get: "rdb_Get env cacheKey w = (g, w1)" by force
  obtain f w2 where gen: "generateFeedDirect env u w1 = (f, w2)" by force
  obtain s w3 where set: "rdb_Set env cacheKey (projr f) w2 = (s, w3)" by force
  note steps = frame_Get [OF get True, of "[cacheKey]" "[cacheKey]"]
    frame_generateFeedDirect [OF gen, of "[cacheKey]" "[cacheKey]"]
    frame_Set [OF set True, of "[cacheKey]" "[cacheKey]"]
  from assms True get gen set have "w' = w1 \<or> w' = w2 \<or> w' = w3"
    by (auto simp: getCachedFeed_def split: get_result.splits sum.splits)
  with steps show ?thesis
    by (auto intro: frame_trans)
qed

declare extractConversation_loop.simps [simp del]
declare showd.simps [simp del]

lemma frame_summarizeWithLLM: "summarizeWithLLM env md w = (r, w') \<Longrightarrow> frame env rs ws w w'"
  by (auto simp: summarizeWithLLM_def Let_def permitted_def
           split: if_splits llm_result.splits sum.splits intro!: frame_emit)

lemma frame_generateSummaryDirect:
  assumes "generateSummaryDirect env u w = (r, w')"
  shows "frame env [cacheKey] [cacheKey] w w'"
proof -
  obtain f w1 where feed: "getCachedFeed env u w = (f, w1)" by force
  obtain s w2 where sum: "summarizeWithLLM env (projr (parseRSSToMarkdown env (projr f))) w1 = (s, w2)"
    by force
  note steps = frame_getCachedFeed [OF feed] frame_summarizeWithLLM [OF sum, of "[cacheKey]" "[cacheKey]"]
  from assms feed sum have "w' = w1 \<or> w' = w2"
    by (auto simp: generateSummaryDirect_def split: sum.splits prod.splits)
  with steps show ?thesis
    by (auto intro: frame_trans)
qed

lemma frame_getCachedSummary:
  assumes "getCachedSummary env u w = (r, w')"
  shows "frame env [cacheKey, summaryCacheKey] [cacheKey, summaryCacheKey] w w'"
proof (cases "redisConnected env")
  case False
  with assms show ?thesis
    by (auto simp: getCachedSummary_def intro: frame_mono [OF frame_generateSummaryDirect])
next
  case True
  let ?ks = "[cacheKey, summaryCacheKey]"
  obtain g w1 where get: "rdb_Get env summaryCacheKey w = (g, w1)" by force
  obtain f w2 where gen: "generateSummaryDirect env u w1 = (f, w2)" by force
  obtain s w3 where set: "rdb_Set env summaryCacheKey (projr f) w2 = (s, w3)" by force
  have steps: "frame env ?ks ?ks w w1" "frame env ?ks ?ks w1 w2" "frame env ?ks ?ks w2 w3"
    using frame_Get [OF get True] frame_mono [OF frame_generateSummaryDirect [OF gen]]
      frame_Set [OF set True]
    by simp_all
  from assms True get gen set have "w' = w1 \<or> w' = w2 \<or> w' = w3"
    by (auto simp: getCachedSummary_def split: get_result.splits sum.splits)
  with steps show ?thesis
    by (auto intro: frame_trans)
qed

lemma frame_tryGenerateConversation:
  "tryGenerateConversation env text w = (r, w') \<Longrightarrow> frame env rs ws w w'"
  by (auto simp: tryGenerateConversation_def Let_def permitted_def
           split: if_splits llm_result.splits sum.splits option.splits intro!: frame_emit)

lemma frame_extractConversation_loop:
  "extractConversation_loop env tx m a le w = (r, w') \<Longrightarrow> frame env rs ws w w'"
proof (induction env tx m a le w rule: extractConversation_loop.induct)
  case (1 env tx m a le w)
  show ?case
  proof (cases "a \<le> m")
    case False
    with "1.prems" show ?thesis
      by (subst (asm) extractConversation_loop.simps) (auto split: option.splits)
  next
    case True
    let ?w0 = "emit (EvAttempt a m) w"
    obtain t w1 where att: "tryGenerateConversation env tx ?w0 = (t, w1)" by force
    have f1: "frame env rs ws w w1"
      using frame_emit [of env rs ws "EvAttempt a m" w] frame_tryGenerateConversation [OF att]
      by (auto simp: permitted_def intro: frame_trans)
    show ?thesis
    proof (cases t)
      case (Inr c)
      with "1.prems" True att have "w' = w1"
        by (subst (asm) extractConversation_loop.simps) simp
      with f1 show ?thesis by simp
    next
      case (Inl e)
      show ?thesis
      proof (cases "a < m")
        case False
        with "1.prems" True att Inl
        have run: "extractConversation_loop env tx m (a + 1) (Some e)
                     (emit (EvAttemptFailed a e) w1) = (r, w')"
          by (subst (asm) extractConversation_loop.simps) simp
        have "frame env rs ws w (emit (EvAttemptFailed a e) w1)"
          using f1 frame_emit [of env rs ws "EvAttemptFailed a e" w1]
          by (auto simp: permitted_def intro: frame_trans)
        with "1.IH"(2) [OF True att [symmetric] Inl False run] show ?thesis
          by (rule frame_trans [rotated])
      next
        case less: True
        let ?d = "a * 2 * 1000 + int (rand_Int63 env (trace w1) mod 1000)"
        let ?w2 = "emit (EvBackoff ?d) (emit (EvAttemptFailed a e) w1)"
        have "frame env rs ws w1 ?w2"
          by (simp add: frame_def permitted_def)
        with f1 have f2: "frame env rs ws w ?w2"
          by (rule frame_trans)
        show ?thesis
        proof (cases "ctx_done env (trace ?w2)")
          case (Some ce)
          with "1.prems" True att Inl less have "w' = ?w2"
            by (subst (asm) extractConversation_loop.simps) (simp add: Let_def)
          with f2 show ?thesis by simp
        next
          case None
          with "1.prems" True att Inl less
          have run: "extractConversation_loop env tx m (a + 1) (Some e) ?w2 = (r, w')"
            by (subst (asm) extractConversation_loop.simps) (simp add: Let_def)
          have "frame env rs ws ?w2 w'"
            by (rule "1.IH"(1) [OF True att [symmetric] Inl less refl refl refl None run])
          with f2 show ?thesis by (rule frame_trans)
        qed
      qed
    qed
  qed
qed

lemma frame_extractConversation:
  "extractConversation env tx m w = (r, w') \<Longrightarrow> frame env rs ws w w'"
  by (simp add: extractConversation_def frame_extractConversation_loop)

lemma frame_generatePodcastConversation:
  assumes "generatePodcastConversation env tx w = (r, w')"
  shows "frame env [] [conversationCacheKey] w w'"
proof -
  let ?ws = "[conversationCacheKey]"
  obtain c w1 where ext: "extractConversation env tx 3 w = (c, w1)" by force
  obtain s w2 where
    set: "rdb_Set env conversationCacheKey (projr (json_MarshalIndent env (projr c))) w1 = (s, w2)"
    by force
  have f1: "frame env [] ?ws w w1"
    by (rule frame_extractConversation [OF ext])
  have f2: "redisConnected env \<Longrightarrow> frame env [] ?ws w1 w2"
    using frame_Set [OF set] by simp
  from assms ext set have "w' = w1 \<or> redisConnected env \<and> w' = w2"
    by (auto simp: generatePodcastConversation_def split: sum.splits if_splits)
  with f1 f2 show ?thesis
    by (auto intro: frame_trans)
qed

lemma frame_getcachedconversation:
  assumes "getcachedconversation env tx w = (r, w')"
  shows "frame env [conversationCacheKey] [conversationCacheKey] w w'"
proof -
  let ?ks = "[conversationCacheKey]"
  obtain g w1 where get: "rdb_Get env conversationCacheKey w = (g, w1)" by force
  obtain c w2 where gen: "generatePodcastConversation env tx w1 = (c, w2)" by force
  obtain c' w3 where gen': "generatePodcastConversation env tx w = (c', w3)" by force
  have f1: "redisConnected env \<Longrightarrow> frame env ?ks ?ks w w1"
    using frame_Get [OF get] by simp
  have f2: "frame env ?ks ?ks w1 w2" "frame env ?ks ?ks w w3"
    using frame_mono [OF frame_generatePodcastConversation [OF gen]]
      frame_mono [OF frame_generatePodcastConversation [OF gen']]
    by simp_all
  from assms get gen gen'
  have "redisConnected env \<and> (w' = w1 \<or> w' = w2) \<or> w' = w3"
    by (auto simp: getcachedconversation_def split: get_result.splits sum.splits if_splits)
  with f1 f2 show ?thesis
    by (auto intro: frame_trans)
qed

lemma frame_generateaudiopodcast_loop:
  "generateaudiopodcast_loop env es buf w = (r, w') \<Longrightarrow> frame env rs ws w w'"
proof (cases r)
  case (Inl e)
  assume "generateaudiopodcast_loop env es buf w = (r, w')"
  with Inl loop_failure [of env es buf w e w'] show ?thesis
    by (auto simp: frame_def list_all_iff synthesisCall_def permitted_def dest: in_set_takeD)
next
  case (Inr audio)
  assume "generateaudiopodcast_loop env es buf w = (r, w')"
  with Inr loop_success [of env es buf w audio w'] show ?thesis
    by (auto simp: frame_def list_all_iff synthesisCall_def permitted_def)
qed

lemma frame_generateaudiopodcast:
  "generateaudiopodcast env tx w = (r, w') \<Longrightarrow> frame env rs ws w w'"
  by (auto simp: generateaudiopodcast_def split: sum.splits if_splits
           dest: frame_generateaudiopodcast_loop)

lemma frame_getcachedpodcast:
  assumes "getcachedpodcast env tx w = (r, w')"
  shows "frame env [conversationCacheKey, podcastCacheKey]
           [conversationCacheKey, podcastCacheKey] w w'"
proof -
  let ?ks = "[conversationCacheKey, podcastCacheKey]"
  define wg where "wg = (if redisConnected env then snd (rdb_Get env podcastCacheKey w) else w)"
  obtain c w2 where conv: "getcachedconversation env tx wg = (c, w2)" by force
  obtain a w3 where gen: "generateaudiopodcast env (projr c) w2 = (a, w3)" by force
  obtain s w4 where set: "rdb_Set env podcastCacheKey (projr a) w3 = (s, w4)" by force
  have f0: "frame env ?ks ?ks w wg"
    using frame_Get [of env podcastCacheKey w _ _ ?ks ?ks]
    by (cases "rdb_Get env podcastCacheKey w") (auto simp: wg_def)
  have f1: "frame env ?ks ?ks wg w2" "frame env ?ks ?ks w2 w3"
    using frame_mono [OF frame_getcachedconversation [OF conv]] frame_generateaudiopodcast [OF gen]
    by simp_all
  have f2: "redisConnected env \<Longrightarrow> frame env ?ks ?ks w3 w4"
    using frame_Set [OF set] by simp
  from assms conv gen set
  have "w' = wg \<or> w' = w2 \<or> w' = w3 \<or> redisConnected env \<and> w' = w4"
    by (auto simp: getcachedpodcast_def wg_def split: get_result.splits sum.splits if_splits prod.splits)
  with f0 f1 f2 show ?thesis
    by (auto intro: frame_trans)
qed

section \<open>Feed stage: bound and order of the items\<close>

lemma scrapePapers_result:
  "scrapePapers env w = (Inr papers, w') \<Longrightarrow>
     \<exists>found. crawl env (trace w) = Inr found \<and> papers = take maxPapers found"
  by (auto simp: scrapePapers_def split: sum.splits if_splits)

text \<open>
  C7.  Whenever the feed is generated, the Content Source returned some list of papers,
  and the Feed Artifact is the serialisation of a document whose items are the first
  \<open>maxPapers = 50\<close> of these papers (all of them when there are fewer), one item per
  paper and in the order of the Content Source: title, link, description and identifier
  of the \<open>i\<close>-th item are those of the \<open>i\<close>-th paper.
\<close>

theorem feed_items_bounded_in_source_order:
  assumes "generateFeedDirect env requestURL w = (Inr feed, w')"
  shows "\<exists>found rss doc.
           crawl env (trace w) = Inr found \<and>
           xml_MarshalIndent env rss = Inr doc \<and> feed = xml_Header @ doc \<and>
           maxPapers = 50 \<and>
           length (Items (RSS_Channel rss)) = min maxPapers (length found) \<and>
           length (Items (RSS_Channel rss)) \<le> maxPapers \<and>
           Items (RSS_Channel rss) = map (feedItem env) (take maxPapers found) \<and>
           map Item_Title (Items (RSS_Channel rss)) = map Paper_Title (take maxPapers found) \<and>
           map Item_Link (Items (RSS_Channel rss)) = map Paper_URL (take maxPapers found) \<and>
           map Item_Description (Items (RSS_Channel rss))
             = map Paper_Abstract (take maxPapers found) \<and>
           map (GUID_Text \<circ> Item_GUID) (Items (RSS_Channel rss))
             = map Paper_URL (take maxPapers found)"
proof -
  from assms obtain papers w1 where
    scrape: "scrapePapers env w = (Inr papers, w1)" and
    gen: "generateRSS env papers requestURL w1 = Inr feed"
    by (auto simp: generateFeedDirect_def split: prod.splits sum.splits)
  from scrapePapers_result [OF scrape] obtain found where
    found: "crawl env (trace w) = Inr found" and papers: "papers = take maxPapers found"
    by blast
  define rss where "rss = feedRSS env papers requestURL w1"
  from gen obtain doc where
    marshalled: "xml_MarshalIndent env rss = Inr doc" and feed: "feed = xml_Header @ doc"
    by (auto simp: generateRSS_def rss_def split: sum.splits)
  have items: "Items (RSS_Channel rss) = map (feedItem env) (take maxPapers found)"
    by (simp add: rss_def feedRSS_def papers)
  have fields:
    "Item_Title \<circ> feedItem env = Paper_Title"
    "Item_Link \<circ> feedItem env = Paper_URL"
    "Item_Description \<circ> feedItem env = Paper_Abstract"
    "(GUID_Text \<circ> Item_GUID) \<circ> feedItem env = Paper_URL"
    by (simp_all add: fun_eq_iff feedItem_def)
  have "maxPapers = 50" by (simp add: maxPapers_def)
  with found marshalled feed items fields show ?thesis
    by (intro exI [of _ found] exI [of _ rss] exI [of _ doc]) (simp add: min_def)
qed

theorem feed_items_bounded_in_source_order_witness:
  "generateFeedDirect demo_env baseURL demo_world
     = (Inr (xml_Header @ ''<rss></rss>''), emit EvScrape demo_world) \<and>
   (\<exists>found rss doc.
      crawl demo_env (trace demo_world) = Inr found \<and>
      xml_MarshalIndent demo_env rss = Inr doc \<and>
      xml_Header @ ''<rss></rss>'' = xml_Header @ doc \<and>
      length found = 52 \<and>
      length (Items (RSS_Channel rss)) = 50 \<and>
      map Item_Link (Items (RSS_Channel rss)) = map Paper_URL (take 50 found))"
proof -
  have run: "generateFeedDirect demo_env baseURL demo_world
               = (Inr (xml_Header @ ''<rss></rss>''), emit EvScrape demo_world)"
    by (simp add: generateFeedDirect_def scrapePapers_def generateRSS_def demo_env_def)
  from feed_items_bounded_in_source_order [OF run] obtain found rss doc where
    *: "crawl demo_env (trace demo_world) = Inr found"
       "xml_MarshalIndent demo_env rss = Inr doc"
       "xml_Header @ ''<rss></rss>'' = xml_Header @ doc"
       "maxPapers = 50"
       "length (Items (RSS_Channel rss)) = min maxPapers (length found)"
       "map Item_Link (Items (RSS_Channel rss)) = map Paper_URL (take maxPapers found)"
    by blast
  from *(1) have len: "length found = 52"
    by (auto simp: demo_env_def)
  with * have "length (Items (RSS_Channel rss)) = 50"
    by simp
  with * len run show ?thesis
    by (intro conjI exI [of _ found] exI [of _ rss] exI [of _ doc]) simp_all
qed

section \<open>Podcast stage: calls, voices and concatenation\<close>

lemma new_events_append [simp]: "trace w' = trace w @ evs \<Longrightarrow> new_events w w' = evs"
  by (simp add: new_events_def)

lemma frame_no_write:
  assumes "frame env rs ws w w'" and "k \<notin> set ws"
  shows "store w' k = store w k" and "\<not> list_ex (writesKey k) (new_events w w')"
proof -
  from assms show "store w' k = store w k"
    by (simp add: frame_def)
  from assms(1) obtain evs where
    evs: "trace w' = trace w @ evs" and ok: "list_all (permitted env rs ws) evs"
    by (auto simp: frame_def)
  have "\<not> writesKey k ev" if "ev \<in> set evs" for ev
    using that ok assms(2)
    by (auto simp: list_all_iff permitted_def writesKey_def split: event.splits)
  with evs show "\<not> list_ex (writesKey k) (new_events w w')"
    by (auto simp: list_ex_iff)
qed

lemma keys_distinct [simp]:
  "cacheKey \<noteq> summaryCacheKey" "cacheKey \<noteq> conversationCacheKey" "cacheKey \<noteq> podcastCacheKey"
  "summaryCacheKey \<noteq> conversationCacheKey" "summaryCacheKey \<noteq> podcastCacheKey"
  "conversationCacheKey \<noteq> podcastCacheKey"
  "summaryCacheKey \<noteq> cacheKey" "conversationCacheKey \<noteq> cacheKey" "podcastCacheKey \<noteq> cacheKey"
  "conversationCacheKey \<noteq> summaryCacheKey" "podcastCacheKey \<noteq> summaryCacheKey"
  "podcastCacheKey \<noteq> conversationCacheKey"
  by (simp_all add: cacheKey_def summaryCacheKey_def conversationCacheKey_def podcastCacheKey_def)

lemma generateaudiopodcast_success:
  assumes "generateaudiopodcast env tx w = (Inr audio, w')"
  shows "\<exists>conversation bodies.
           json_Unmarshal env tx = Inr conversation \<and>
           trace w' = trace w @ map synthesisCall (Conversation conversation) \<and>
           store w' = store w \<and>
           length bodies = length (Conversation conversation) \<and>
           (\<forall>i<length (Conversation conversation).
              synthesisAnswer env (trace w) (Conversation conversation) i
                = TTSResponse 200 (bodies ! i) None) \<and>
           audio = concat bodies"
proof -
  from assms obtain conversation where
    dec: "json_Unmarshal env tx = Inr conversation" and
    run: "generateaudiopodcast_loop env (Conversation conversation) [] w = (Inr audio, w')"
    by (auto simp: generateaudiopodcast_def split: sum.splits if_splits)
  from loop_success [OF run] dec show ?thesis
    by auto
qed

lemma generateaudiopodcast_all_answered:
  assumes "json_Unmarshal env tx = Inr conversation" and "DEEPINFRA_API_KEY env \<noteq> []"
    and "\<forall>i<length (Conversation conversation).
           \<exists>audio. synthesisAnswer env (trace w) (Conversation conversation) i
                      = TTSResponse 200 audio None"
  shows "\<exists>audio w'. generateaudiopodcast env tx w = (Inr audio, w')"
proof -
  obtain r w' where run: "generateaudiopodcast_loop env (Conversation conversation) [] w = (r, w')"
    by force
  have "\<exists>audio. r = Inr audio"
  proof (cases r)
    case (Inl e)
    with loop_failure [of env "Conversation conversation" "[]" w e w'] run assms(3)
    show ?thesis by blast
  qed simp
  with run assms(1,2) show ?thesis
    by (auto simp: generateaudiopodcast_def)
qed

lemma getcachedpodcast_failure_frame:
  assumes "getcachedpodcast env tx w = (Inl e, w')"
  shows "frame env [conversationCacheKey, podcastCacheKey] [conversationCacheKey] w w'"
proof -
  let ?rs = "[conversationCacheKey, podcastCacheKey]" and ?ws = "[conversationCacheKey]"
  define wg where "wg = (if redisConnected env then snd (rdb_Get env podcastCacheKey w) else w)"
  obtain c w2 where conv: "getcachedconversation env tx wg = (c, w2)" by force
  obtain a w3 where gen: "generateaudiopodcast env (projr c) w2 = (a, w3)" by force
  have f0: "frame env ?rs ?ws w wg"
    using frame_Get [of env podcastCacheKey w _ _ ?rs ?ws]
    by (cases "rdb_Get env podcastCacheKey w") (auto simp: wg_def)
  have f1: "frame env ?rs ?ws wg w2" "frame env ?rs ?ws w2 w3"
    using frame_mono [OF frame_getcachedconversation [OF conv]] frame_generateaudiopodcast [OF gen]
    by simp_all
  from assms conv gen have "w' = w2 \<or> w' = w3"
    by (auto simp: getcachedpodcast_def wg_def
             split: get_result.splits sum.splits if_splits prod.splits)
  with f0 f1 show ?thesis
    by (auto intro: frame_trans)
qed

text \<open>
  C10.  A dialogue entry whose speaker is neither "Brian" nor "Jenny" is synthesised with
  the voice "af_bella", which is also Jenny's voice; and wherever such an entry stands in
  the conversation, the stage behaves exactly as it would had Jenny spoken the entry: an
  unknown speaker name changes neither the calls nor the outcome, so it is never a cause
  of failure.
\<close>

theorem unknown_speaker_gets_default_voice:
  assumes "Speaker entry \<noteq> ''Brian''" and "Speaker entry \<noteq> ''Jenny''"
  shows "voiceFor (Speaker entry) = ''af_bella'' \<and> voiceFor ''Jenny'' = ''af_bella'' \<and>
         synthesisCall entry = EvTTS (Text entry) ''af_bella'' \<and>
         generateaudiopodcast_loop env (before @ entry # rest) buf w
           = generateaudiopodcast_loop env (before @ entry\<lparr>Speaker := ''Jenny''\<rparr> # rest) buf w"
proof -
  have voice: "voiceFor (Speaker entry) = ''af_bella''" "voiceFor ''Jenny'' = ''af_bella''"
    using assms by (simp_all add: voiceFor_def)
  have "generateaudiopodcast_loop env (before @ entry # rest) buf w
          = generateaudiopodcast_loop env (before @ entry\<lparr>Speaker := ''Jenny''\<rparr> # rest) buf w"
  proof (induction before arbitrary: buf w)
    case Nil
    from voice show ?case by (simp add: Let_def)
  next
    case (Cons b bs)
    then show ?case
      by (simp add: Let_def split: tts_result.splits option.splits)
  qed
  with voice show ?thesis
    by (simp add: synthesisCall_def)
qed

theorem unknown_speaker_gets_default_voice_witness:
  "Speaker (Conversation demo_conversation ! 2) = ''Guest'' \<and>
   voiceFor ''Guest'' = ''af_bella'' \<and>
   generateaudiopodcast_loop demo_env (Conversation demo_conversation) [] demo_world
     = generateaudiopodcast_loop demo_env
         [\<lparr>Speaker = ''Brian'', Text = ''Hello''\<rparr>, \<lparr>Speaker = ''Jenny'', Text = ''Hi''\<rparr>,
          \<lparr>Speaker = ''Jenny'', Text = ''Hey''\<rparr>] [] demo_world \<and>
   fst (generateaudiopodcast_loop demo_env (Conversation demo_conversation) [] demo_world)
     = Inr ''am_michael:Hello;af_bella:Hi;af_bella:Hey;''"
proof -
  have run: "fst (generateaudiopodcast_loop demo_env (Conversation demo_conversation) [] demo_world)
               = Inr ''am_michael:Hello;af_bella:Hi;af_bella:Hey;''"
    by (simp add: demo_conversation_def demo_env_def voiceFor_def Let_def)
  from unknown_speaker_gets_default_voice
    [of "\<lparr>Speaker = ''Guest'', Text = ''Hey''\<rparr>" demo_env
        "[\<lparr>Speaker = ''Brian'', Text = ''Hello''\<rparr>, \<lparr>Speaker = ''Jenny'', Text = ''Hi''\<rparr>]"
        "[]" "[]" demo_world]
  show ?thesis
    using run by (simp add: demo_conversation_def)
qed

text \<open>
  C4.  The Podcast stage on a conversation of \<open>N\<close> entries:
  \<^item> when it succeeds, the calls it made to the Speech-Synthesis Service are exactly \<open>N\<close>,
    the \<open>i\<close>-th with the text of the \<open>i\<close>-th entry and the voice mapped from its
    speaker, every call was answered with audio, and the result is the concatenation of
    the answers in entry order;
  \<^item> it does succeed when the text decodes, the API key is set and all \<open>N\<close> calls are
    answered;
  \<^item> when one of the calls is not answered with audio, the stage fails;
  \<^item> when the stage fails, the refresh returns the wrapped error without touching the
    store, and a failing \<open>getcachedpodcast\<close> leaves the podcast key as it was and issues
    no write to it: no partial podcast is cached.
\<close>

theorem podcast_stage_one_call_per_entry:
  "(generateaudiopodcast env tx w = (Inr audio, w') \<longrightarrow>
      (\<exists>conversation bodies.
         json_Unmarshal env tx = Inr conversation \<and>
         new_events w w' = map synthesisCall (Conversation conversation) \<and>
         length (new_events w w') = length (Conversation conversation) \<and>
         length bodies = length (Conversation conversation) \<and>
         (\<forall>i<length (Conversation conversation).
            synthesisAnswer env (trace w) (Conversation conversation) i
              = TTSResponse 200 (bodies ! i) None) \<and>
         audio = concat bodies)) \<and>
   (json_Unmarshal env tx = Inr conversation \<and> DEEPINFRA_API_KEY env \<noteq> [] \<and>
    (\<forall>i<length (Conversation conversation).
       \<exists>body. synthesisAnswer env (trace w) (Conversation conversation) i
                = TTSResponse 200 body None) \<longrightarrow>
      (\<exists>audio w'. generateaudiopodcast env tx w = (Inr audio, w'))) \<and>
   (json_Unmarshal env tx = Inr conversation \<and> i < length (Conversation conversation) \<and>
    (\<forall>body. synthesisAnswer env (trace w) (Conversation conversation) i
               \<noteq> TTSResponse 200 body None) \<longrightarrow>
      (\<exists>e. fst (generateaudiopodcast env tx w) = Inl e)) \<and>
   (generateaudiopodcast env tx w = (Inl e, w') \<longrightarrow>
      updateAllCaches_podcast env tx w = (Some (Wrap ''failed to generate podcast audio'' e), w') \<and>
      store w' = store w \<and> \<not> list_ex (writesKey podcastCacheKey) (new_events w w')) \<and>
   (getcachedpodcast env tx w = (Inl e, w') \<longrightarrow>
      store w' podcastCacheKey = store w podcastCacheKey \<and>
      \<not> list_ex (writesKey podcastCacheKey) (new_events w w'))"
proof (intro conjI impI)
  assume "generateaudiopodcast env tx w = (Inr audio, w')"
  from generateaudiopodcast_success [OF this]
  show "\<exists>conversation bodies.
          json_Unmarshal env tx = Inr conversation \<and>
          new_events w w' = map synthesisCall (Conversation conversation) \<and>
          length (new_events w w') = length (Conversation conversation) \<and>
          length bodies = length (Conversation conversation) \<and>
          (\<forall>i<length (Conversation conversation).
             synthesisAnswer env (trace w) (Conversation conversation) i
               = TTSResponse 200 (bodies ! i) None) \<and>
          audio = concat bodies"
    by (elim exE conjE) (intro exI conjI, assumption, simp_all)
next
  assume "json_Unmarshal env tx = Inr conversation \<and> DEEPINFRA_API_KEY env \<noteq> [] \<and>
    (\<forall>i<length (Conversation conversation).
       \<exists>body. synthesisAnswer env (trace w) (Conversation conversation) i
                = TTSResponse 200 body None)"
  then show "\<exists>audio w'. generateaudiopodcast env tx w = (Inr audio, w')"
    using generateaudiopodcast_all_answered [of env tx conversation w] by blast
next
  assume bad: "json_Unmarshal env tx = Inr conversation \<and> i < length (Conversation conversation) \<and>
    (\<forall>body. synthesisAnswer env (trace w) (Conversation conversation) i
               \<noteq> TTSResponse 200 body None)"
  obtain r w1 where run: "generateaudiopodcast env tx w = (r, w1)" by force
  show "\<exists>e. fst (generateaudiopodcast env tx w) = Inl e"
  proof (cases r)
    case (Inl e)
    with run show ?thesis by simp
  next
    case (Inr audio)
    with run generateaudiopodcast_success [of env tx w audio w1] bad show ?thesis
      by (auto simp del: split_paired_All)
  qed
next
  assume fail: "generateaudiopodcast env tx w = (Inl e, w')"
  then show "updateAllCaches_podcast env tx w
               = (Some (Wrap ''failed to generate podcast audio'' e), w')"
    by (simp add: updateAllCaches_podcast_def)
  note fr = frame_generateaudiopodcast [OF fail, of "[]" "[]"]
  from fr show "store w' = store w"
    by (auto simp: frame_def fun_eq_iff)
  from frame_no_write(2) [OF fr, of podcastCacheKey]
  show "\<not> list_ex (writesKey podcastCacheKey) (new_events w w')"
    by simp
next
  assume "getcachedpodcast env tx w = (Inl e, w')"
  from frame_no_write [OF getcachedpodcast_failure_frame [OF this], of podcastCacheKey]
  show "store w' podcastCacheKey = store w podcastCacheKey"
    "\<not> list_ex (writesKey podcastCacheKey) (new_events w w')"
    by simp_all
qed

theorem podcast_stage_one_call_per_entry_witness:
  "generateaudiopodcast demo_env demo_json demo_world
     = (Inr ''am_michael:Hello;af_bella:Hi;af_bella:Hey;'',
        demo_world\<lparr>trace := [EvTTS ''Hello'' ''am_michael'', EvTTS ''Hi'' ''af_bella'',
                             EvTTS ''Hey'' ''af_bella'']\<rparr>) \<and>
   json_Unmarshal demo_env demo_json = Inr demo_conversation \<and>
   length (Conversation demo_conversation) = 3 \<and>
   DEEPINFRA_API_KEY demo_env \<noteq> [] \<and>
   synthesisAnswer demo_env [] (Conversation demo_conversation) 0
     = TTSResponse 200 ''am_michael:Hello;'' None \<and>
   synthesisAnswer demo_env [] (Conversation demo_conversation) 1
     = TTSResponse 200 ''af_bella:Hi;'' None \<and>
   synthesisAnswer demo_env [] (Conversation demo_conversation) 2
     = TTSResponse 200 ''af_bella:Hey;'' None \<and>
   synthesisAnswer mute_env [] (Conversation demo_conversation) 0
     = TTSResponse 503 ''Service Unavailable'' None \<and>
   generateaudiopodcast mute_env demo_json demo_world
     = (Inl (Err ''API request failed with status 503: Service Unavailable''),
        demo_world\<lparr>trace := [EvTTS ''Hello'' ''am_michael'']\<rparr>) \<and>
   updateAllCaches_podcast mute_env demo_json demo_world
     = (Some (Wrap ''failed to generate podcast audio''
                (Err ''API request failed with status 503: Service Unavailable'')),
        demo_world\<lparr>trace := [EvTTS ''Hello'' ''am_michael'']\<rparr>) \<and>
   new_events demo_world
     (snd (generateaudiopodcast demo_env demo_json demo_world))
     = map synthesisCall (Conversation demo_conversation)"
proof -
  have ok: "generateaudiopodcast demo_env demo_json demo_world
     = (Inr ''am_michael:Hello;af_bella:Hi;af_bella:Hey;'',
        demo_world\<lparr>trace := [EvTTS ''Hello'' ''am_michael'', EvTTS ''Hi'' ''af_bella'',
                             EvTTS ''Hey'' ''af_bella'']\<rparr>)"
    by (simp add: generateaudiopodcast_def demo_env_def demo_conversation_def voiceFor_def
          Let_def emit_def demo_world_def)
  have bad: "generateaudiopodcast mute_env demo_json demo_world
     = (Inl (Err ''API request failed with status 503: Service Unavailable''),
        demo_world\<lparr>trace := [EvTTS ''Hello'' ''am_michael'']\<rparr>)"
    by (simp add: generateaudiopodcast_def mute_env_def demo_env_def demo_conversation_def
          voiceFor_def Let_def emit_def demo_world_def showd.simps digit_def)
  have answers:
    "synthesisAnswer demo_env [] (Conversation demo_conversation) 0
       = TTSResponse 200 ''am_michael:Hello;'' None"
    "synthesisAnswer demo_env [] (Conversation demo_conversation) 1
       = TTSResponse 200 ''af_bella:Hi;'' None"
    "synthesisAnswer demo_env [] (Conversation demo_conversation) 2
       = TTSResponse 200 ''af_bella:Hey;'' None"
    "synthesisAnswer mute_env [] (Conversation demo_conversation) 0
       = TTSResponse 503 ''Service Unavailable'' None"
    by (simp_all add: synthesisAnswer_def mute_env_def demo_env_def demo_conversation_def
          voiceFor_def)
  have dec: "json_Unmarshal demo_env demo_json = Inr demo_conversation"
    "length (Conversation demo_conversation) = 3" "DEEPINFRA_API_KEY demo_env \<noteq> []"
    by (simp_all add: demo_env_def demo_conversation_def)
  note failing = podcast_stage_one_call_per_entry
    [of mute_env demo_json demo_world _ _ _ _
        "Err ''API request failed with status 503: Service Unavailable''"]
  note working = podcast_stage_one_call_per_entry
    [of demo_env demo_json demo_world "''am_michael:Hello;af_bella:Hi;af_bella:Hey;''"]
  from failing bad have upd: "updateAllCaches_podcast mute_env demo_json demo_world
     = (Some (Wrap ''failed to generate podcast audio''
                (Err ''API request failed with status 503: Service Unavailable'')),
        demo_world\<lparr>trace := [EvTTS ''Hello'' ''am_michael'']\<rparr>)"
    by blast
  from working ok dec(1) have "new_events demo_world
     (snd (generateaudiopodcast demo_env demo_json demo_world))
     = map synthesisCall (Conversation demo_conversation)"
    by auto
  with ok bad answers dec upd show ?thesis
    by simp
qed

section \<open>Frames of the refresh and of the request handler\<close>

lemma frame_updateAllCaches_podcast:
  assumes "updateAllCaches_podcast env c w = (r, w')" and "redisConnected env"
  shows "frame env allKeys allKeys w w'"
proof -
  obtain a w1 where gen: "generateaudiopodcast env c w = (a, w1)" by force
  obtain s w2 where set: "rdb_Set env podcastCacheKey (projr a) w1 = (s, w2)" by force
  have steps: "frame env allKeys allKeys w w1" "frame env allKeys allKeys w1 w2"
    using frame_generateaudiopodcast [OF gen] frame_Set [OF set assms(2)]
    by (simp_all add: allKeys_def)
  from assms gen set have "w' = w1 \<or> w' = w2"
    by (auto simp: updateAllCaches_podcast_def split: sum.splits option.splits)
  with steps show ?thesis by (auto intro: frame_trans)
qed

lemma frame_updateAllCaches_conversation2:
  assumes "updateAllCaches_conversation2 env sb w = (r, w')" and "redisConnected env"
  shows "frame env allKeys allKeys w w'"
proof -
  obtain c w1 where gen: "generatePodcastConversation env sb w = (c, w1)" by force
  obtain s w2 where set: "rdb_Set env conversationCacheKey (projr c) w1 = (s, w2)" by force
  obtain p w3 where pod: "updateAllCaches_podcast env (projr c) w2 = (p, w3)" by force
  have steps: "frame env allKeys allKeys w w1" "frame env allKeys allKeys w1 w2"
    "frame env allKeys allKeys w2 w3"
    using frame_mono [OF frame_generatePodcastConversation [OF gen], of allKeys allKeys]
      frame_Set [OF set assms(2)] frame_updateAllCaches_podcast [OF pod assms(2)]
    by (simp_all add: allKeys_def)
  from assms gen set pod have "w' = w1 \<or> w' = w2 \<or> w' = w3"
    by (auto simp: updateAllCaches_conversation2_def split: sum.splits option.splits)
  with steps show ?thesis by (auto intro: frame_trans)
qed

lemma frame_updateAllCaches_conversation:
  assumes "updateAllCaches_conversation env sb w = (r, w')" and "redisConnected env"
  shows "frame env allKeys allKeys w w'"
proof -
  obtain c w1 where gen: "generatePodcastConversation env sb w = (c, w1)" by force
  obtain s w2 where set: "rdb_Set env conversationCacheKey (projr c) w1 = (s, w2)" by force
  obtain p w3 where nxt: "updateAllCaches_conversation2 env sb w2 = (p, w3)" by force
  have steps: "frame env allKeys allKeys w w1" "frame env allKeys allKeys w1 w2"
    "frame env allKeys allKeys w2 w3"
    using frame_mono [OF frame_generatePodcastConversation [OF gen], of allKeys allKeys]
      frame_Set [OF set assms(2)] frame_updateAllCaches_conversation2 [OF nxt assms(2)]
    by (simp_all add: allKeys_def)
  from assms gen set nxt have "w' = w1 \<or> w' = w2 \<or> w' = w3"
    by (auto simp: updateAllCaches_conversation_def split: sum.splits option.splits)
  with steps show ?thesis by (auto intro: frame_trans)
qed

lemma frame_updateAllCaches_summary:
  assumes "updateAllCaches_summary env fb w = (r, w')" and "redisConnected env"
  shows "frame env allKeys allKeys w w'"
proof -
  obtain c w1 where
    gen: "summarizeWithLLM env (projr (parseRSSToMarkdown env fb)) w = (c, w1)" by force
  obtain s w2 where
    set: "rdb_Set env summaryCacheKey (projr (generateSummaryRSS env (projr c) baseURL w1)) w1 = (s, w2)"
    by force
  obtain p w3 where
    nxt: "updateAllCaches_conversation env (projr (generateSummaryRSS env (projr c) baseURL w1)) w2
            = (p, w3)"
    by force
  have steps: "frame env allKeys allKeys w w1" "frame env allKeys allKeys w1 w2"
    "frame env allKeys allKeys w2 w3"
    using frame_summarizeWithLLM [OF gen]
      frame_Set [OF set assms(2)] frame_updateAllCaches_conversation [OF nxt assms(2)]
    by (simp_all add: allKeys_def)
  from assms gen set nxt have "w' = w \<or> w' = w1 \<or> w' = w2 \<or> w' = w3"
    by (auto simp: updateAllCaches_summary_def split: sum.splits option.splits)
  with steps show ?thesis by (auto intro: frame_trans)
qed

lemma frame_updateAllCaches:
  assumes "updateAllCaches env w = (r, w')"
  shows "frame env allKeys allKeys w w'"
proof (cases "redisConnected env")
  case False
  with assms show ?thesis by (simp add: updateAllCaches_def)
next
  case True
  obtain f w1 where gen: "generateFeedDirect env baseURL w = (f, w1)" by force
  obtain s w2 where set: "rdb_Set env cacheKey (projr f) w1 = (s, w2)" by force
  obtain p w3 where nxt: "updateAllCaches_summary env (projr f) w2 = (p, w3)" by force
  have steps: "frame env allKeys allKeys w w1" "frame env allKeys allKeys w1 w2"
    "frame env allKeys allKeys w2 w3"
    using frame_generateFeedDirect [OF gen]
      frame_Set [OF set True] frame_updateAllCaches_summary [OF nxt True]
    by (simp_all add: allKeys_def)
  from assms True gen set nxt have "w' = w1 \<or> w' = w3"
    by (auto simp: updateAllCaches_def split: sum.splits)
  with steps show ?thesis by (auto intro: frame_trans)
qed

lemma frame_Handler:
  assumes "Handler env r w = (resp, w')"
  shows "frame env allKeys allKeys w w'"
proof -
  let ?u = "''https://'' @ Host r @ URL_Path r"
  obtain f w1 where feed: "getCachedFeed env ?u w = (f, w1)" by force
  obtain s w2 where sum: "getCachedSummary env ?u w = (s, w2)" by force
  obtain c w3 where conv: "getcachedconversation env (projr s) w2 = (c, w3)" by force
  obtain p w4 where pod: "getcachedpodcast env (projr s) w2 = (p, w4)" by force
  obtain u w5 where upd: "updateAllCaches env w = (u, w5)" by force
  have steps: "frame env allKeys allKeys w w1" "frame env allKeys allKeys w w2"
    "frame env allKeys allKeys w2 w3" "frame env allKeys allKeys w2 w4"
    "frame env allKeys allKeys w w5"
    using frame_mono [OF frame_getCachedFeed [OF feed], of allKeys allKeys]
      frame_mono [OF frame_getCachedSummary [OF sum], of allKeys allKeys]
      frame_mono [OF frame_getcachedconversation [OF conv], of allKeys allKeys]
      frame_mono [OF frame_getcachedpodcast [OF pod], of allKeys allKeys]
      frame_updateAllCaches [OF upd]
    by (simp_all add: allKeys_def)
  from assms feed sum conv pod upd
  have "w' = w \<or> w' = w1 \<or> w' = w2 \<or> w' = w3 \<or> w' = w4 \<or> w' = w5"
    by (auto simp: Handler_def Let_def split: if_splits sum.splits option.splits)
  with steps show ?thesis by (auto intro: frame_trans)
qed

lemma frame_store_unusable:
  assumes "frame env rs ws w w'" and "\<not> redisConnected env"
  shows "store w' = store w" and "\<not> list_ex isStoreEvent (new_events w w')"
proof -
  from assms show "store w' = store w"
    by (auto simp: frame_def fun_eq_iff)
  from assms(1) obtain evs where
    evs: "trace w' = trace w @ evs" and ok: "list_all (permitted env rs ws) evs"
    by (auto simp: frame_def)
  have "\<not> isStoreEvent ev" if "ev \<in> set evs" for ev
    using that ok assms(2)
    by (auto simp: list_all_iff permitted_def isStoreEvent_def split: event.splits)
  with evs show "\<not> list_ex isStoreEvent (new_events w w')"
    by (auto simp: list_ex_iff)
qed

section \<open>Working collaborators\<close>

lemma generateFeedDirect_works:
  assumes "content_source_works env" and "xml_works env"
  shows "\<exists>rss doc. generateFeedDirect env u w = (Inr (xml_Header @ doc), emit EvScrape w) \<and>
           xml_MarshalIndent env rss = Inr doc"
proof -
  from assms(1) obtain papers where "crawl env (trace w) = Inr papers"
    by (auto simp: content_source_works_def)
  then obtain ps where scrape: "scrapePapers env w = (Inr ps, emit EvScrape w)"
    by (simp add: scrapePapers_def)
  from assms(2) obtain doc where
    "xml_MarshalIndent env (feedRSS env ps u (emit EvScrape w)) = Inr doc"
    unfolding xml_works_def by metis
  with scrape show ?thesis
    by (auto simp: generateFeedDirect_def generateRSS_def)
qed

lemma parseRSSToMarkdown_works:
  assumes "xml_works env" and "xml_MarshalIndent env rss = Inr doc"
  shows "\<exists>md. parseRSSToMarkdown env (xml_Header @ doc) = Inr md"
proof -
  from assms obtain rss' where "xml_Unmarshal env (xml_Header @ doc) = Inr rss'"
    unfolding xml_works_def by metis
  then show ?thesis
    by (simp add: parseRSSToMarkdown_def Let_def)
qed

lemma summarizeWithLLM_works:
  assumes "text_generation_works env"
  shows "\<exists>s. summarizeWithLLM env md w = (Inr s, emit (EvLLM summaryAPI (summaryPrompt @ md)) w)"
proof -
  from assms obtain raw c cs where
    "llm env (trace w) summaryAPI (summaryPrompt @ md) = LLMResponse 200 raw (Inr (c # cs))"
    "c \<noteq> []" "HF_API_KEY env \<noteq> []"
    unfolding text_generation_works_def by metis
  then show ?thesis
    by (simp add: summarizeWithLLM_def Let_def)
qed

lemma generateSummaryRSS_works:
  assumes "xml_works env"
  shows "\<exists>doc. generateSummaryRSS env s u w = Inr (xml_Header @ doc)"
proof -
  from assms obtain doc where "xml_MarshalIndent env (summaryRSS env s u w) = Inr doc"
    unfolding xml_works_def by metis
  then show ?thesis
    by (simp add: generateSummaryRSS_def)
qed

lemma tryGenerateConversation_works:
  assumes "text_generation_works env"
  shows "\<exists>conv m. tryGenerateConversation env tx w
            = (Inr conv, emit (EvLLM conversationAPI
                 (conversationPromptPrefix @ tx @ conversationPromptSuffix)) w) \<and>
           json_Unmarshal env m = Inr conv \<and> Conversation conv \<noteq> []"
proof -
  let ?p = "conversationPromptPrefix @ tx @ conversationPromptSuffix"
  from assms obtain raw c cs m conv where
    "llm env (trace w) conversationAPI ?p = LLMResponse 200 raw (Inr (c # cs))" "c \<noteq> []"
    "FindString c = Some m" "json_Unmarshal env m = Inr conv" "Conversation conv \<noteq> []"
    "HF_API_KEY env \<noteq> []"
    unfolding text_generation_works_def by metis
  then show ?thesis
    by (auto simp: tryGenerateConversation_def Let_def)
qed

lemma extractConversation_works:
  assumes "text_generation_works env" and "1 \<le> m"
  shows "\<exists>conv b. extractConversation env tx m w
            = (Inr conv, emit (EvLLM conversationAPI
                 (conversationPromptPrefix @ tx @ conversationPromptSuffix))
                 (emit (EvAttempt 1 m) w)) \<and>
           json_Unmarshal env b = Inr conv \<and> Conversation conv \<noteq> []"
proof -
  from tryGenerateConversation_works [OF assms(1), of tx "emit (EvAttempt 1 m) w"]
  obtain conv b where
    "tryGenerateConversation env tx (emit (EvAttempt 1 m) w)
       = (Inr conv, emit (EvLLM conversationAPI
            (conversationPromptPrefix @ tx @ conversationPromptSuffix)) (emit (EvAttempt 1 m) w))"
    "json_Unmarshal env b = Inr conv" "Conversation conv \<noteq> []"
    by blast
  with assms(2) show ?thesis
    unfolding extractConversation_def
    by (subst extractConversation_loop.simps) auto
qed

lemma generatePodcastConversation_works:
  assumes "text_generation_works env" and "json_works env"
  shows "\<exists>b conv w'. generatePodcastConversation env tx w = (Inr b, w') \<and>
           json_Unmarshal env b = Inr conv \<and> Conversation conv \<noteq> []"
proof -
  from extractConversation_works [OF assms(1), of 3 tx w] obtain conv m w1 where
    ext: "extractConversation env tx 3 w = (Inr conv, w1)" and
    dec: "json_Unmarshal env m = Inr conv" and ne: "Conversation conv \<noteq> []"
    by auto
  from assms(2) dec obtain b where
    "json_MarshalIndent env conv = Inr b" "json_Unmarshal env b = Inr conv"
    unfolding json_works_def by metis
  with ext ne show ?thesis
    by (auto simp: generatePodcastConversation_def)
qed

lemma generateaudiopodcast_works:
  assumes "speech_synthesis_works env" and "json_Unmarshal env b = Inr conv"
  shows "\<exists>audio w'. generateaudiopodcast env b w = (Inr audio, w')"
proof (rule generateaudiopodcast_all_answered [OF assms(2)])
  from assms(1) show "DEEPINFRA_API_KEY env \<noteq> []"
    by (simp add: speech_synthesis_works_def)
  from assms(1) show "\<forall>i<length (Conversation conv).
      \<exists>audio. synthesisAnswer env (trace w) (Conversation conv) i = TTSResponse 200 audio None"
    by (simp add: speech_synthesis_works_def synthesisAnswer_def)
qed

lemma generateSummaryDirect_works:
  assumes "\<not> redisConnected env" and "upstreams_work env"
  shows "\<exists>s w'. generateSummaryDirect env u w = (Inr s, w')"
proof -
  from assms(2) have cs: "content_source_works env" and xml: "xml_works env"
    and tg: "text_generation_works env"
    by (simp_all add: upstreams_work_def)
  from generateFeedDirect_works [OF cs xml, of u w] obtain rss doc where
    feed: "generateFeedDirect env u w = (Inr (xml_Header @ doc), emit EvScrape w)" and
    doc: "xml_MarshalIndent env rss = Inr doc"
    by blast
  from parseRSSToMarkdown_works [OF xml doc] obtain md where
    md: "parseRSSToMarkdown env (xml_Header @ doc) = Inr md"
    by blast
  from summarizeWithLLM_works [OF tg, of md "emit EvScrape w"] obtain s w2 where
    s: "summarizeWithLLM env md (emit EvScrape w) = (Inr s, w2)"
    by blast
  from generateSummaryRSS_works [OF xml, of s u w2] obtain sdoc where
    "generateSummaryRSS env s u w2 = Inr (xml_Header @ sdoc)"
    by blast
  with assms(1) feed md s show ?thesis
    by (simp add: generateSummaryDirect_def getCachedFeed_def)
qed

section \<open>Requests while the store is unusable\<close>

lemma FindString_demo: "FindString demo_reply = Some demo_json"
  by (simp add: demo_reply_def demo_json_def)

lemma demo_replies_nonempty: "demo_reply \<noteq> []" "demo_summary_reply \<noteq> []"
  by (simp_all add: demo_reply_def demo_summary_reply_def)

lemma upstreams_work_demo: "upstreams_work demo_env"
  unfolding upstreams_work_def
proof (intro conjI)
  show "content_source_works demo_env"
    by (simp add: content_source_works_def demo_env_def)
  show "xml_works demo_env"
    by (simp add: xml_works_def demo_env_def)
  show "json_works demo_env"
    by (simp add: json_works_def demo_env_def)
  show "speech_synthesis_works demo_env"
    by (simp add: speech_synthesis_works_def demo_env_def)
  have "conversationAPI \<noteq> summaryAPI"
    by (simp add: conversationAPI_def summaryAPI_def)
  then show "text_generation_works demo_env"
    by (simp add: text_generation_works_def demo_env_def FindString_demo demo_conversation_def
          demo_replies_nonempty)
qed

lemma works_ignores_flag:
  "upstreams_work (env\<lparr>redisConnected := b\<rparr>) = upstreams_work env"
  by (simp add: upstreams_work_def content_source_works_def xml_works_def json_works_def
        text_generation_works_def speech_synthesis_works_def)

lemma Handler_read_endpoints_work:
  assumes off: "\<not> redisConnected env" and up: "upstreams_work env"
    and path: "normalizedPath r \<in> set readEndpoints"
  shows "status (fst (Handler env r w)) = 200 \<and> (\<exists>b. body (fst (Handler env r w)) = Raw b)"
proof (cases "Method r = ''OPTIONS''")
  case True
  then show ?thesis
    by (simp add: Handler_def Let_def respond_def)
next
  case False
  let ?u = "''https://'' @ Host r @ URL_Path r"
  from up have cs: "content_source_works env" and xml: "xml_works env"
    and tg: "text_generation_works env" and js: "json_works env"
    and sp: "speech_synthesis_works env"
    by (simp_all add: upstreams_work_def)
  from generateFeedDirect_works [OF cs xml, of ?u w] off obtain f w1 where
    feed: "getCachedFeed env ?u w = (Inr f, w1)"
    by (auto simp: getCachedFeed_def)
  from generateSummaryDirect_works [OF off up, of ?u w] off obtain s w2 where
    sum: "getCachedSummary env ?u w = (Inr s, w2)"
    by (auto simp: getCachedSummary_def)
  from generatePodcastConversation_works [OF tg js, of s w2] obtain c conv w3 where
    gen: "generatePodcastConversation env s w2 = (Inr c, w3)" and
    dec: "json_Unmarshal env c = Inr conv"
    by blast
  with off have conv: "getcachedconversation env s w2 = (Inr c, w3)"
    by (simp add: getcachedconversation_def)
  from generateaudiopodcast_works [OF sp dec, of w3] obtain a w4 where
    "generateaudiopodcast env c w3 = (Inr a, w4)"
    by blast
  with off conv have pod: "getcachedpodcast env s w2 = (Inr a, w4)"
    by (simp add: getcachedpodcast_def)
  from path have "normalizedPath r = ''/api/feed'' \<or> normalizedPath r = ''/api/summary'' \<or>
      normalizedPath r = ''/api/conversation'' \<or> normalizedPath r = ''/api/podcast''"
    by (simp add: readEndpoints_def)
  with False feed sum conv pod show ?thesis
    by (auto simp: Handler_def normalizedPath_def Let_def respond_def)
qed

lemma Handler_refresh_store_unusable:
  assumes off: "\<not> redisConnected env" and "Method r \<noteq> ''OPTIONS''"
    and "normalizedPath r = ''/api/update-cache''"
    and "UPDATE_KEY env \<noteq> []" and "X_Update_Key r = UPDATE_KEY env"
  shows "Handler env r w
           = (http_Error ''Error updating caches: redis not connected, cannot update caches'' 500,
              w)"
  using assms by (simp add: Handler_def normalizedPath_def Let_def updateAllCaches_def)

text \<open>
  C6 (as amended).  While the store-usable flag is false, no request, whatever its path,
  causes a read or a write on the Cache Store, and the store is left as it was; the cache
  read of every stage counts as a miss, so that \<open>getCachedFeed\<close>, \<open>getCachedSummary\<close> and
  \<open>getcachedconversation\<close> are their direct generation; and a request to one of the four
  read endpoints (feed, summary, conversation, podcast) is answered with status 200 and
  the artifact, provided the collaborators work.  An authorised request to the refresh
  trigger (\<open>update-cache\<close>) is instead answered at once with status 500 and the message
  that the store is not connected, the world being left as it was.
\<close>

theorem store_unusable_read_requests_generate_directly:
  assumes "\<not> redisConnected env"
  shows "getCachedFeed env u w = generateFeedDirect env u w \<and>
         getCachedSummary env u w = generateSummaryDirect env u w \<and>
         fst (getcachedconversation env tx w)
           = map_sum (Wrap ''failed to generate podcast conversation'') id
               (fst (generatePodcastConversation env tx w)) \<and>
         store (snd (Handler env r w)) = store w \<and>
         \<not> list_ex isStoreEvent (new_events w (snd (Handler env r w))) \<and>
         (upstreams_work env \<and> normalizedPath r \<in> set readEndpoints \<longrightarrow>
            status (fst (Handler env r w)) = 200 \<and>
            (\<exists>b. body (fst (Handler env r w)) = Raw b)) \<and>
         (Method r \<noteq> ''OPTIONS'' \<and> normalizedPath r = ''/api/update-cache'' \<and>
          UPDATE_KEY env \<noteq> [] \<and> X_Update_Key r = UPDATE_KEY env \<longrightarrow>
            Handler env r w
              = (http_Error
                   ''Error updating caches: redis not connected, cannot update caches'' 500,
                 w))"
proof -
  have fr: "frame env allKeys allKeys w (snd (Handler env r w))"
    by (rule frame_Handler [of env r w "fst (Handler env r w)"]) simp
  have "fst (getcachedconversation env tx w)
           = map_sum (Wrap ''failed to generate podcast conversation'') id
               (fst (generatePodcastConversation env tx w))"
    using assms by (simp add: getcachedconversation_def split: prod.splits sum.splits)
  with assms frame_store_unusable [OF fr assms] Handler_read_endpoints_work [OF assms, of r w]
    Handler_refresh_store_unusable [OF assms, of r w]
  show ?thesis
    by (simp add: getCachedFeed_def getCachedSummary_def)
qed

text \<open>
  The claim as stated, for every request, fails at the refresh trigger: with the flag false
  and all collaborators working, an authorised \<open>POST /api/update-cache\<close> is answered with
  status 500 and the message that the store is not connected.
\<close>

theorem refresh_reports_store_unusable:
  "\<not> redisConnected offline_env \<and> upstreams_work offline_env \<and>
   Handler offline_env refresh_request demo_world
     = (http_Error ''Error updating caches: redis not connected, cannot update caches'' 500,
        demo_world)"
proof -
  have "UPDATE_KEY offline_env = ''secret''" "\<not> redisConnected offline_env"
    by (simp_all add: offline_env_def demo_env_def)
  moreover have "upstreams_work offline_env"
    by (simp add: offline_env_def works_ignores_flag upstreams_work_demo)
  ultimately show ?thesis
    by (simp add: Handler_def refresh_request_def Let_def TrimSuffix_def HasSuffix_def
          updateAllCaches_def)
qed

lemma offline_fields [simp]:
  "redisConnected offline_env = False"
  "HF_API_KEY offline_env = ''hf-key''"
  "DEEPINFRA_API_KEY offline_env = ''di-key''"
  "UPDATE_KEY offline_env = ''secret''"
  "now offline_env h = 0"
  "time_Format offline_env layout t = demo_date"
  "time_Parse offline_env layout s = Inr 0"
  "xml_MarshalIndent offline_env rss = Inr ''<rss></rss>''"
  "xml_Unmarshal offline_env (xml_Header @ ''<rss></rss>'') = Inr demo_feed"
  "json_MarshalIndent offline_env demo_conversation = Inr demo_json"
  "json_Unmarshal offline_env demo_json = Inr demo_conversation"
  "crawl offline_env h = Inr (map demo_paper [0..<52])"
  "llm offline_env h summaryAPI p = LLMResponse 200 [] (Inr [demo_summary_reply])"
  "llm offline_env h conversationAPI p = LLMResponse 200 [] (Inr [demo_reply])"
  "tts offline_env h t' v = TTSResponse 200 (v @ '':'' @ t' @ '';'') None"
  "ctx_done offline_env h = None"
  by (simp_all add: offline_env_def demo_env_def conversationAPI_def summaryAPI_def)

lemma demo_entries:
  "Conversation demo_conversation
     = [\<lparr>Speaker = ''Brian'', Text = ''Hello''\<rparr>, \<lparr>Speaker = ''Jenny'', Text = ''Hi''\<rparr>,
        \<lparr>Speaker = ''Guest'', Text = ''Hey''\<rparr>]"
  by (simp add: demo_conversation_def)

lemma demo_podcast_offline:
  "fst (Handler offline_env podcast_request demo_world)
     = respond [(''Content-Type'', ''audio/mpeg''),
                (''Content-Disposition'',
                   ''inline; filename='' @ [CHR 0x22] @ ''daily-papers-podcast.mp3'' @ [CHR 0x22]),
                (''Content-Length'', ''42''),
                (''Accept-Ranges'', ''bytes'')]
         (Raw ''am_michael:Hello;af_bella:Hi;af_bella:Hey;'')"
  by (simp add: Handler_def podcast_request_def Let_def TrimSuffix_def HasSuffix_def
        getCachedSummary_def generateSummaryDirect_def getCachedFeed_def generateFeedDirect_def
        scrapePapers_def generateRSS_def parseRSSToMarkdown_def summarizeWithLLM_def
        generateSummaryRSS_def getcachedpodcast_def getcachedconversation_def
        generatePodcastConversation_def extractConversation_def
        extractConversation_loop.simps [of _ _ 3 1] tryGenerateConversation_def
        FindString_demo demo_replies_nonempty generateaudiopodcast_def demo_entries
        voiceFor_def showd.simps digit_def
        del: FindString.simps)

theorem store_unusable_read_requests_generate_directly_witness:
  "\<not> redisConnected offline_env \<and> upstreams_work offline_env \<and>
   normalizedPath podcast_request = ''/api/podcast'' \<and>
   status (fst (Handler offline_env podcast_request demo_world)) = 200 \<and>
   body (fst (Handler offline_env podcast_request demo_world))
     = Raw ''am_michael:Hello;af_bella:Hi;af_bella:Hey;'' \<and>
   store (snd (Handler offline_env podcast_request demo_world)) = store demo_world \<and>
   \<not> list_ex isStoreEvent
       (new_events demo_world (snd (Handler offline_env podcast_request demo_world))) \<and>
   Method refresh_request \<noteq> ''OPTIONS'' \<and>
   normalizedPath refresh_request = ''/api/update-cache'' \<and>
   UPDATE_KEY offline_env \<noteq> [] \<and> X_Update_Key refresh_request = UPDATE_KEY offline_env \<and>
   status (fst (Handler offline_env refresh_request demo_world)) = 500 \<and>
   body (fst (Handler offline_env refresh_request demo_world))
     = ErrorText ''Error updating caches: redis not connected, cannot update caches'' \<and>
   snd (Handler offline_env refresh_request demo_world) = demo_world"
proof -
  have refresh: "Method refresh_request \<noteq> ''OPTIONS''"
    "normalizedPath refresh_request = ''/api/update-cache''"
    "UPDATE_KEY offline_env \<noteq> []" "X_Update_Key refresh_request = UPDATE_KEY offline_env"
    by (simp_all add: normalizedPath_def refresh_request_def TrimSuffix_def HasSuffix_def)
  have off: "\<not> redisConnected offline_env"
    by simp
  have up: "upstreams_work offline_env"
    by (simp add: offline_env_def works_ignores_flag upstreams_work_demo)
  have path: "normalizedPath podcast_request = ''/api/podcast''"
    by (simp add: normalizedPath_def podcast_request_def TrimSuffix_def HasSuffix_def)
  then have "normalizedPath podcast_request \<in> set readEndpoints"
    by (simp add: readEndpoints_def)
  with store_unusable_read_requests_generate_directly
    [OF off, of _ demo_world _ podcast_request] up path demo_podcast_offline
  have reads: "status (fst (Handler offline_env podcast_request demo_world)) = 200"
    "body (fst (Handler offline_env podcast_request demo_world))
       = Raw ''am_michael:Hello;af_bella:Hi;af_bella:Hey;''"
    "store (snd (Handler offline_env podcast_request demo_world)) = store demo_world"
    "\<not> list_ex isStoreEvent
       (new_events demo_world (snd (Handler offline_env podcast_request demo_world)))"
    by (simp_all add: respond_def)
  from store_unusable_read_requests_generate_directly
    [OF off, of _ demo_world _ refresh_request] refresh
  have "Handler offline_env refresh_request demo_world
          = (http_Error ''Error updating caches: redis not connected, cannot update caches'' 500,
             demo_world)"
    by blast
  then have trigger: "status (fst (Handler offline_env refresh_request demo_world)) = 500"
    "body (fst (Handler offline_env refresh_request demo_world))
       = ErrorText ''Error updating caches: redis not connected, cannot update caches''"
    "snd (Handler offline_env refresh_request demo_world) = demo_world"
    by (simp_all add: http_Error_def)
  show ?thesis
    by (intro conjI off up path reads refresh trigger)
qed

section \<open>The podcast endpoint on a cache hit\<close>

lemma demo_fields [simp]:
  "redisConnected demo_env = True"
  "HF_API_KEY demo_env = ''hf-key''"
  "DEEPINFRA_API_KEY demo_env = ''di-key''"
  "UPDATE_KEY demo_env = ''secret''"
  "now demo_env h = 0"
  "time_Format demo_env layout t = demo_date"
  "time_Parse demo_env layout s = Inr 0"
  "xml_MarshalIndent demo_env rss = Inr ''<rss></rss>''"
  "xml_Unmarshal demo_env (xml_Header @ ''<rss></rss>'') = Inr demo_feed"
  "json_MarshalIndent demo_env demo_conversation = Inr demo_json"
  "json_Unmarshal demo_env demo_json = Inr demo_conversation"
  "crawl demo_env h = Inr (map demo_paper [0..<52])"
  "llm demo_env h summaryAPI p = LLMResponse 200 [] (Inr [demo_summary_reply])"
  "llm demo_env h conversationAPI p = LLMResponse 200 [] (Inr [demo_reply])"
  "tts demo_env h t' v = TTSResponse 200 (v @ '':'' @ t' @ '';'') None"
  "redis_get_err demo_env h k = None"
  "redis_set_err demo_env h k = None"
  "ctx_done demo_env h = None"
  "rand_Int63 demo_env h = 12345"
  by (simp_all add: demo_env_def conversationAPI_def summaryAPI_def)

lemma getcachedpodcast_hit:
  assumes "redisConnected env" and "fst (rdb_Get env podcastCacheKey w) = Hit audioData"
  shows "getcachedpodcast env tx w = (Inr audioData, emit (EvGet podcastCacheKey) w)"
  using assms
  by (auto simp: getcachedpodcast_def rdb_Get_def split: option.splits)

lemma getCachedSummary_hit:
  assumes "redisConnected env" and "fst (rdb_Get env summaryCacheKey w) = Hit summary"
  shows "getCachedSummary env u w = (Inr summary, emit (EvGet summaryCacheKey) w)"
  using assms
  by (auto simp: getCachedSummary_def rdb_Get_def split: option.splits)

text \<open>
  C3 (as amended).  \<open>Handler\<close> obtains the summary before it looks for the podcast.  For
  a request to the podcast endpoint that is no CORS preflight: if the store is usable
  and reports a hit for the summary key and then for the podcast key, the response has
  status 200 and carries the cached podcast bytes unchanged, the only events of the
  request are the two reads, no call goes to the Content Source, the Text-Generation
  Service or the Speech-Synthesis Service, and the store is unchanged.  The stage
  \<open>getcachedpodcast\<close> itself returns the cached bytes after the one read, whatever text
  it is given.
\<close>

theorem podcast_hit_after_summary_hit_calls_no_upstream:
  assumes usable: "redisConnected env"
    and route: "Method r \<noteq> ''OPTIONS''" "normalizedPath r = ''/api/podcast''"
    and summary_hit: "fst (rdb_Get env summaryCacheKey w) = Hit summary"
    and podcast_hit:
      "fst (rdb_Get env podcastCacheKey (emit (EvGet summaryCacheKey) w)) = Hit audioData"
  shows "Handler env r w
           = (respond (podcastHeaders audioData) (Raw audioData),
              emit (EvGet podcastCacheKey) (emit (EvGet summaryCacheKey) w)) \<and>
         new_events w (snd (Handler env r w)) = [EvGet summaryCacheKey, EvGet podcastCacheKey] \<and>
         \<not> list_ex isUpstreamCall (new_events w (snd (Handler env r w))) \<and>
         store (snd (Handler env r w)) = store w \<and>
         getcachedpodcast env tx (emit (EvGet summaryCacheKey) w)
           = (Inr audioData, emit (EvGet podcastCacheKey) (emit (EvGet summaryCacheKey) w))"
proof -
  let ?u = "''https://'' @ Host r @ URL_Path r"
  let ?w1 = "emit (EvGet summaryCacheKey) w"
  have s: "getCachedSummary env ?u w = (Inr summary, ?w1)"
    by (rule getCachedSummary_hit [OF usable summary_hit])
  have p: "getcachedpodcast env t ?w1 = (Inr audioData, emit (EvGet podcastCacheKey) ?w1)" for t
    by (rule getcachedpodcast_hit [OF usable podcast_hit])
  from route s p [of summary]
  have run: "Handler env r w
      = (respond (podcastHeaders audioData) (Raw audioData), emit (EvGet podcastCacheKey) ?w1)"
    by (simp add: Handler_def normalizedPath_def Let_def podcastHeaders_def)
  then have "new_events w (snd (Handler env r w)) = [EvGet summaryCacheKey, EvGet podcastCacheKey]"
    by (simp add: new_events_def)
  with run p [of tx] show ?thesis
    by (simp add: isUpstreamCall_def)
qed

theorem podcast_hit_after_summary_hit_calls_no_upstream_witness:
  "redisConnected demo_env \<and> Method podcast_request \<noteq> ''OPTIONS'' \<and>
   normalizedPath podcast_request = ''/api/podcast'' \<and>
   fst (rdb_Get demo_env summaryCacheKey warm_world) = Hit ''<rss>summary</rss>'' \<and>
   fst (rdb_Get demo_env podcastCacheKey (emit (EvGet summaryCacheKey) warm_world))
     = Hit ''ID3-cached-audio'' \<and>
   fst (Handler demo_env podcast_request warm_world)
     = respond (podcastHeaders ''ID3-cached-audio'') (Raw ''ID3-cached-audio'') \<and>
   trace (snd (Handler demo_env podcast_request warm_world))
     = [EvGet summaryCacheKey, EvGet podcastCacheKey]"
proof -
  have hyps: "redisConnected demo_env" "Method podcast_request \<noteq> ''OPTIONS''"
    "normalizedPath podcast_request = ''/api/podcast''"
    "fst (rdb_Get demo_env summaryCacheKey warm_world) = Hit ''<rss>summary</rss>''"
    "fst (rdb_Get demo_env podcastCacheKey (emit (EvGet summaryCacheKey) warm_world))
       = Hit ''ID3-cached-audio''"
    by (simp_all add: podcast_request_def normalizedPath_def TrimSuffix_def HasSuffix_def
          rdb_Get_def warm_world_def emit_def)
  from podcast_hit_after_summary_hit_calls_no_upstream [OF hyps] hyps show ?thesis
    by (simp add: warm_world_def emit_def)
qed

text \<open>
  The claim as stated fails when the podcast key is present and the summary key is not
  (the summary entry is written earlier and so expires earlier): the request first misses
  the summary and the feed, scrapes the Content Source and calls the Text-Generation
  Service, and only then returns the cached podcast.
\<close>

theorem podcast_hit_with_summary_miss_calls_upstreams:
  "redisConnected demo_env \<and>
   fst (rdb_Get demo_env podcastCacheKey podcast_only_world) = Hit ''ID3-cached-audio'' \<and>
   body (fst (Handler demo_env podcast_request podcast_only_world)) = Raw ''ID3-cached-audio'' \<and>
   take 3 (trace (snd (Handler demo_env podcast_request podcast_only_world)))
     = [EvGet summaryCacheKey, EvGet cacheKey, EvScrape] \<and>
   length (filter isUpstreamCall (trace (snd (Handler demo_env podcast_request podcast_only_world))))
     = 2"
  by (simp add: Handler_def podcast_request_def Let_def TrimSuffix_def HasSuffix_def
        getCachedSummary_def generateSummaryDirect_def getCachedFeed_def generateFeedDirect_def
        scrapePapers_def generateRSS_def parseRSSToMarkdown_def summarizeWithLLM_def
        generateSummaryRSS_def getcachedpodcast_def rdb_Get_def rdb_Set_def emit_def
        podcast_only_world_def demo_replies_nonempty isUpstreamCall_def respond_def)

section \<open>Full refresh: failing fast and partial failure\<close>

lemma frame_extends: "frame env rs ws w w' \<Longrightarrow> \<exists>evs. trace w' = trace w @ evs"
  by (auto simp: frame_def)

lemma rdb_Set_succeeds:
  assumes "store_writes_succeed env"
  shows "rdb_Set env k v w = (None, emit (EvSet k v) (w\<lparr>store := (store w)(k \<mapsto> v)\<rparr>))"
  using assms by (simp add: rdb_Set_def store_writes_succeed_def)

lemma written_then_kept:
  assumes pre: "frame env rs ws w wa"
    and wr: "wb = emit (EvSet k v) (wa\<lparr>store := (store wa)(k \<mapsto> v)\<rparr>)"
    and post: "frame env rs' ws' wb w'" and other: "k \<notin> set ws'"
  shows "store w' k = Some v \<and> list_ex (writes k v) (new_events w w')"
proof -
  from frame_extends [OF pre] obtain evs1 where 1: "trace wa = trace w @ evs1" by blast
  from frame_extends [OF post] obtain evs2 where 2: "trace w' = trace wb @ evs2" by blast
  from 1 2 wr have "trace w' = trace w @ (evs1 @ EvSet k v # evs2)"
    by simp
  then have "new_events w w' = evs1 @ EvSet k v # evs2"
    by (rule new_events_append)
  moreover from post other wr have "store w' k = Some v"
    by (simp add: frame_def)
  ultimately show ?thesis
    by (simp add: writes_def)
qed

lemma generateaudiopodcast_unanswered:
  assumes "json_Unmarshal env tx = Inr conversation" and "i < length (Conversation conversation)"
    and "\<forall>body. synthesisAnswer env (trace w) (Conversation conversation) i
                  \<noteq> TTSResponse 200 body None"
  shows "\<exists>e w'. generateaudiopodcast env tx w = (Inl e, w')"
proof -
  obtain r w1 where run: "generateaudiopodcast env tx w = (r, w1)" by force
  show ?thesis
  proof (cases r)
    case (Inl e)
    with run show ?thesis by simp
  next
    case (Inr audio)
    with run generateaudiopodcast_success [of env tx w audio w1] assms show ?thesis
      by (auto simp del: split_paired_All)
  qed
qed

lemma refresh_with_failing_synthesis:
  assumes usable: "redisConnected env" and cs: "content_source_works env"
    and xml: "xml_works env" and js: "json_works env" and tg: "text_generation_works env"
    and sw: "store_writes_succeed env" and mute: "speech_synthesis_fails env"
  shows "\<exists>e w' feed md sc summary c1 conversation conv w1 w2 w3 w4 w5 w6 w7 w8.
           updateAllCaches env w = (Some (Wrap ''failed to generate podcast audio'' e), w') \<and>
           generateFeedDirect env baseURL w = (Inr feed, w1) \<and>
           rdb_Set env cacheKey feed w1 = (None, w2) \<and>
           parseRSSToMarkdown env feed = Inr md \<and>
           summarizeWithLLM env md w2 = (Inr sc, w3) \<and>
           generateSummaryRSS env sc baseURL w3 = Inr summary \<and>
           map Item_Description (Items (RSS_Channel (summaryRSS env sc baseURL w3)))
             = [''<div>'' @ sc @ ''</div>''] \<and>
           rdb_Set env summaryCacheKey summary w3 = (None, w4) \<and>
           generatePodcastConversation env summary w4 = (Inr c1, w5) \<and>
           rdb_Set env conversationCacheKey c1 w5 = (None, w6) \<and>
           generatePodcastConversation env summary w6 = (Inr conversation, w7) \<and>
           json_Unmarshal env conversation = Inr conv \<and> Conversation conv \<noteq> [] \<and>
           rdb_Set env conversationCacheKey conversation w7 = (None, w8) \<and>
           generateaudiopodcast env conversation w8 = (Inl e, w') \<and>
           fst (generateFeedDirect env baseURL w) = Inr feed \<and>
           store w' cacheKey = Some feed \<and>
           list_ex (writes cacheKey feed) (new_events w w') \<and>
           store w' summaryCacheKey = Some summary \<and>
           list_ex (writes summaryCacheKey summary) (new_events w w') \<and>
           store w' conversationCacheKey = Some conversation \<and>
           list_ex (writes conversationCacheKey conversation) (new_events w w') \<and>
           store w' podcastCacheKey = store w podcastCacheKey \<and>
           \<not> list_ex (writesKey podcastCacheKey) (new_events w w')"
proof -
  let ?K = "[conversationCacheKey]"
  \<comment> \<open>feed\<close>
  from generateFeedDirect_works [OF cs xml, of baseURL w] obtain rss doc where
    feed: "generateFeedDirect env baseURL w = (Inr (xml_Header @ doc), emit EvScrape w)" and
    doc: "xml_MarshalIndent env rss = Inr doc"
    by blast
  let ?feed = "xml_Header @ doc"
  define w1 where "w1 = emit EvScrape w"
  define w2 where "w2 = emit (EvSet cacheKey ?feed) (w1\<lparr>store := (store w1)(cacheKey \<mapsto> ?feed)\<rparr>)"
  have set1: "rdb_Set env cacheKey ?feed w1 = (None, w2)"
    by (simp add: rdb_Set_succeeds [OF sw] w2_def)
  \<comment> \<open>summary\<close>
  from parseRSSToMarkdown_works [OF xml doc] obtain md where
    md: "parseRSSToMarkdown env ?feed = Inr md"
    by blast
  from summarizeWithLLM_works [OF tg, of md w2] obtain sc w3 where
    sc: "summarizeWithLLM env md w2 = (Inr sc, w3)"
    by blast
  from generateSummaryRSS_works [OF xml, of sc baseURL w3] obtain sdoc where
    srss: "generateSummaryRSS env sc baseURL w3 = Inr (xml_Header @ sdoc)"
    by blast
  let ?summary = "xml_Header @ sdoc"
  define w4 where
    "w4 = emit (EvSet summaryCacheKey ?summary) (w3\<lparr>store := (store w3)(summaryCacheKey \<mapsto> ?summary)\<rparr>)"
  have set2: "rdb_Set env summaryCacheKey ?summary w3 = (None, w4)"
    by (simp add: rdb_Set_succeeds [OF sw] w4_def)
  \<comment> \<open>conversation, twice\<close>
  from generatePodcastConversation_works [OF tg js, of ?summary w4] obtain c1 w5 where
    c1: "generatePodcastConversation env ?summary w4 = (Inr c1, w5)"
    by blast
  define w6 where
    "w6 = emit (EvSet conversationCacheKey c1) (w5\<lparr>store := (store w5)(conversationCacheKey \<mapsto> c1)\<rparr>)"
  have set3: "rdb_Set env conversationCacheKey c1 w5 = (None, w6)"
    by (simp add: rdb_Set_succeeds [OF sw] w6_def)
  from generatePodcastConversation_works [OF tg js, of ?summary w6] obtain c2 conv w7 where
    c2: "generatePodcastConversation env ?summary w6 = (Inr c2, w7)" and
    dec: "json_Unmarshal env c2 = Inr conv" and ne: "Conversation conv \<noteq> []"
    by blast
  define w8 where
    "w8 = emit (EvSet conversationCacheKey c2) (w7\<lparr>store := (store w7)(conversationCacheKey \<mapsto> c2)\<rparr>)"
  have set4: "rdb_Set env conversationCacheKey c2 w7 = (None, w8)"
    by (simp add: rdb_Set_succeeds [OF sw] w8_def)
  \<comment> \<open>podcast\<close>
  from mute have "\<forall>body. synthesisAnswer env (trace w8) (Conversation conv) 0
                           \<noteq> TTSResponse 200 body None"
    by (simp add: speech_synthesis_fails_def synthesisAnswer_def)
  with generateaudiopodcast_unanswered [OF dec, of 0 w8] ne obtain e w9 where
    pod: "generateaudiopodcast env c2 w8 = (Inl e, w9)"
    by auto
  \<comment> \<open>the run\<close>
  have run: "updateAllCaches env w = (Some (Wrap ''failed to generate podcast audio'' e), w9)"
    using usable feed set1 md sc srss set2 c1 set3 c2 set4 pod
    by (simp add: updateAllCaches_def updateAllCaches_summary_def
          updateAllCaches_conversation_def updateAllCaches_conversation2_def
          updateAllCaches_podcast_def w1_def)
  \<comment> \<open>what is left in the store\<close>
  have s01: "frame env rs ws w w1" for rs ws
    using frame_generateFeedDirect [OF feed] by (simp add: w1_def)
  have s12: "cacheKey \<in> set ws \<Longrightarrow> frame env rs ws w1 w2" for rs ws
    by (rule frame_Set [OF set1 usable])
  have s23: "frame env rs ws w2 w3" for rs ws
    by (rule frame_summarizeWithLLM [OF sc])
  have s34: "summaryCacheKey \<in> set ws \<Longrightarrow> frame env rs ws w3 w4" for rs ws
    by (rule frame_Set [OF set2 usable])
  have s45: "conversationCacheKey \<in> set ws \<Longrightarrow> frame env rs ws w4 w5" for rs ws
    by (rule frame_mono [OF frame_generatePodcastConversation [OF c1]]) simp_all
  have s56: "conversationCacheKey \<in> set ws \<Longrightarrow> frame env rs ws w5 w6" for rs ws
    by (rule frame_Set [OF set3 usable])
  have s67: "conversationCacheKey \<in> set ws \<Longrightarrow> frame env rs ws w6 w7" for rs ws
    by (rule frame_mono [OF frame_generatePodcastConversation [OF c2]]) simp_all
  have s78: "conversationCacheKey \<in> set ws \<Longrightarrow> frame env rs ws w7 w8" for rs ws
    by (rule frame_Set [OF set4 usable])
  have s89: "frame env rs ws w8 w9" for rs ws
    by (rule frame_generateaudiopodcast [OF pod])
  let ?A = "[cacheKey, summaryCacheKey, conversationCacheKey]"
  have f49: "frame env [] ?K w4 w9"
    using s45 [of ?K "[]", simplified] s56 [of ?K "[]", simplified]
      s67 [of ?K "[]", simplified] s78 [of ?K "[]", simplified] s89 [of "[]" ?K]
    by (meson frame_trans)
  have f29: "frame env [] [summaryCacheKey, conversationCacheKey] w2 w9"
    using s23 s34 [of "[summaryCacheKey, conversationCacheKey]" "[]", simplified]
      frame_mono [OF f49, of "[]" "[summaryCacheKey, conversationCacheKey]", simplified]
    by (meson frame_trans)
  have f03: "frame env [] [cacheKey] w w3"
    using s01 s12 [of "[cacheKey]" "[]", simplified] s23
    by (meson frame_trans)
  have f07: "frame env [] ?A w w7"
    using frame_mono [OF f03, of "[]" ?A, simplified] s34 [of ?A "[]", simplified]
      s45 [of ?A "[]", simplified] s56 [of ?A "[]", simplified] s67 [of ?A "[]", simplified]
    by (meson frame_trans)
  have feed_kept: "store w9 cacheKey = Some ?feed \<and> list_ex (writes cacheKey ?feed) (new_events w w9)"
    by (rule written_then_kept [OF s01 [of "[]" "[]"] w2_def f29]) simp
  have summary_kept: "store w9 summaryCacheKey = Some ?summary \<and>
      list_ex (writes summaryCacheKey ?summary) (new_events w w9)"
    by (rule written_then_kept [OF f03 w4_def f49]) simp
  have conversation_kept: "store w9 conversationCacheKey = Some c2 \<and>
      list_ex (writes conversationCacheKey c2) (new_events w w9)"
    by (rule written_then_kept [OF f07 w8_def s89 [of "[]" "[]"]]) simp
  have f09: "frame env [] ?A w w9"
    using f07 s78 [of ?A "[]", simplified] s89 [of "[]" ?A]
    by (meson frame_trans)
  have podcast_kept: "store w9 podcastCacheKey = store w podcastCacheKey"
    "\<not> list_ex (writesKey podcastCacheKey) (new_events w w9)"
    using frame_no_write [OF f09, of podcastCacheKey] by simp_all
  have feed1: "generateFeedDirect env baseURL w = (Inr ?feed, w1)"
    using feed by (simp add: w1_def)
  then have feed2: "fst (generateFeedDirect env baseURL w) = Inr ?feed"
    by simp
  have item: "map Item_Description (Items (RSS_Channel (summaryRSS env sc baseURL w3)))
                = [''<div>'' @ sc @ ''</div>'']"
    by (simp add: summaryRSS_def Let_def)
  show ?thesis
    by (intro exI conjI)
       (rule run, rule feed1, rule set1, rule md, rule sc, rule srss, rule item, rule set2,
        rule c1, rule set3, rule c2, rule dec, rule ne, rule set4, rule pod, rule feed2,
        rule conjunct1 [OF feed_kept], rule conjunct2 [OF feed_kept],
        rule conjunct1 [OF summary_kept], rule conjunct2 [OF summary_kept],
        rule conjunct1 [OF conversation_kept], rule conjunct2 [OF conversation_kept],
        rule podcast_kept(1), rule podcast_kept(2))
qed

lemma mute_fields [simp]:
  "redisConnected mute_env = True"
  "HF_API_KEY mute_env = ''hf-key''"
  "DEEPINFRA_API_KEY mute_env = ''di-key''"
  "now mute_env h = 0"
  "time_Format mute_env layout t = demo_date"
  "time_Parse mute_env layout s = Inr 0"
  "xml_MarshalIndent mute_env rss = Inr ''<rss></rss>''"
  "xml_Unmarshal mute_env (xml_Header @ ''<rss></rss>'') = Inr demo_feed"
  "json_MarshalIndent mute_env demo_conversation = Inr demo_json"
  "json_Unmarshal mute_env demo_json = Inr demo_conversation"
  "crawl mute_env h = Inr (map demo_paper [0..<52])"
  "llm mute_env h summaryAPI p = LLMResponse 200 [] (Inr [demo_summary_reply])"
  "llm mute_env h conversationAPI p = LLMResponse 200 [] (Inr [demo_reply])"
  "tts mute_env h t' v = TTSResponse 503 ''Service Unavailable'' None"
  "redis_get_err mute_env h k = None"
  "redis_set_err mute_env h k = None"
  "ctx_done mute_env h = None"
  by (simp_all add: mute_env_def demo_env_def conversationAPI_def summaryAPI_def)

lemma mute_env_hypotheses:
  "redisConnected mute_env" "store_writes_succeed mute_env" "content_source_works mute_env"
  "xml_works mute_env" "json_works mute_env" "text_generation_works mute_env"
  "speech_synthesis_fails mute_env"
proof -
  have "upstreams_work demo_env" by (rule upstreams_work_demo)
  then show "content_source_works mute_env" "xml_works mute_env" "json_works mute_env"
    "text_generation_works mute_env"
    by (simp_all add: upstreams_work_def mute_env_def content_source_works_def xml_works_def
          json_works_def text_generation_works_def)
  show "redisConnected mute_env" "store_writes_succeed mute_env" "speech_synthesis_fails mute_env"
    by (simp_all add: store_writes_succeed_def speech_synthesis_fails_def)
qed

lemma refresh_mute_demo:
  "fst (updateAllCaches mute_env demo_world)
     = Some (Wrap ''failed to generate podcast audio''
               (Err ''API request failed with status 503: Service Unavailable''))"
  "store (snd (updateAllCaches mute_env demo_world))
     = [cacheKey \<mapsto> xml_Header @ ''<rss></rss>'', summaryCacheKey \<mapsto> xml_Header @ ''<rss></rss>'',
        conversationCacheKey \<mapsto> demo_json]"
  by (simp_all add: updateAllCaches_def updateAllCaches_summary_def
        updateAllCaches_conversation_def updateAllCaches_conversation2_def
        updateAllCaches_podcast_def generateFeedDirect_def scrapePapers_def generateRSS_def
        parseRSSToMarkdown_def summarizeWithLLM_def generateSummaryRSS_def
        generatePodcastConversation_def extractConversation_def
        extractConversation_loop.simps [of _ _ 3 1] tryGenerateConversation_def
        FindString_demo demo_replies_nonempty generateaudiopodcast_def demo_entries
        voiceFor_def showd.simps digit_def Let_def rdb_Set_def emit_def demo_world_def)

text \<open>
  C2.  When the store-usable flag is false, \<open>updateAllCaches\<close> returns an error at once
  and leaves the world as it was: no key of the store is touched and no collaborator is
  called.  When the store is usable and accepts writes, the Content Source and the
  Text-Generation Service work, and every call to the Speech-Synthesis Service fails,
  the refresh returns an error (from the podcast stage), and the run is this one, each
  step starting in the world the step before it left:
  \<^item> \<open>generateFeedDirect\<close> returns \<open>feed\<close>, which is written under the feed key;
  \<^item> \<open>parseRSSToMarkdown\<close> turns \<open>feed\<close> into \<open>md\<close>, \<open>summarizeWithLLM\<close> returns the summary
    content \<open>sc\<close> for \<open>md\<close>, \<open>generateSummaryRSS\<close> encodes the feed whose only item carries
    \<open>sc\<close> as \<open>summary\<close>, which is written under the summary key;
  \<^item> \<open>generatePodcastConversation\<close> is run on \<open>summary\<close> and its result written under the
    conversation key, and then once more, giving \<open>conversation\<close>, which decodes to a
    conversation that is not empty and is written under the conversation key;
  \<^item> \<open>generateaudiopodcast\<close> fails on \<open>conversation\<close>.
  At the end the feed, summary and conversation keys hold \<open>feed\<close>, \<open>summary\<close> and
  \<open>conversation\<close>, each written by this run; the podcast key holds what it held before,
  and no write to it was issued.
\<close>

theorem refresh_fails_fast_and_keeps_earlier_stages:
  "(\<not> redisConnected env \<longrightarrow>
      updateAllCaches env w = (Some (Err ''redis not connected, cannot update caches''), w)) \<and>
   (redisConnected env \<and> store_writes_succeed env \<and> content_source_works env \<and>
    xml_works env \<and> json_works env \<and> text_generation_works env \<and>
    speech_synthesis_fails env \<longrightarrow>
      (\<exists>e w' feed md sc summary c1 conversation conv w1 w2 w3 w4 w5 w6 w7 w8.
         updateAllCaches env w = (Some (Wrap ''failed to generate podcast audio'' e), w') \<and>
         generateFeedDirect env baseURL w = (Inr feed, w1) \<and>
         rdb_Set env cacheKey feed w1 = (None, w2) \<and>
         parseRSSToMarkdown env feed = Inr md \<and>
         summarizeWithLLM env md w2 = (Inr sc, w3) \<and>
         generateSummaryRSS env sc baseURL w3 = Inr summary \<and>
         map Item_Description (Items (RSS_Channel (summaryRSS env sc baseURL w3)))
           = [''<div>'' @ sc @ ''</div>''] \<and>
         rdb_Set env summaryCacheKey summary w3 = (None, w4) \<and>
         generatePodcastConversation env summary w4 = (Inr c1, w5) \<and>
         rdb_Set env conversationCacheKey c1 w5 = (None, w6) \<and>
         generatePodcastConversation env summary w6 = (Inr conversation, w7) \<and>
         json_Unmarshal env conversation = Inr conv \<and> Conversation conv \<noteq> [] \<and>
         rdb_Set env conversationCacheKey conversation w7 = (None, w8) \<and>
         generateaudiopodcast env conversation w8 = (Inl e, w') \<and>
         fst (generateFeedDirect env baseURL w) = Inr feed \<and>
         store w' cacheKey = Some feed \<and>
         list_ex (writes cacheKey feed) (new_events w w') \<and>
         store w' summaryCacheKey = Some summary \<and>
         list_ex (writes summaryCacheKey summary) (new_events w w') \<and>
         store w' conversationCacheKey = Some conversation \<and>
         list_ex (writes conversationCacheKey conversation) (new_events w w') \<and>
         store w' podcastCacheKey = store w podcastCacheKey \<and>
         \<not> list_ex (writesKey podcastCacheKey) (new_events w w')))"
proof (intro conjI impI)
  assume "\<not> redisConnected env"
  then show "updateAllCaches env w
               = (Some (Err ''redis not connected, cannot update caches''), w)"
    by (simp add: updateAllCaches_def)
next
  assume "redisConnected env \<and> store_writes_succeed env \<and> content_source_works env \<and>
    xml_works env \<and> json_works env \<and> text_generation_works env \<and>
    speech_synthesis_fails env"
  then have hyps: "redisConnected env" "content_source_works env" "xml_works env"
    "json_works env" "text_generation_works env" "store_writes_succeed env"
    "speech_synthesis_fails env"
    by simp_all
  show "\<exists>e w' feed md sc summary c1 conversation conv w1 w2 w3 w4 w5 w6 w7 w8.
        updateAllCaches env w = (Some (Wrap ''failed to generate podcast audio'' e), w') \<and>
        generateFeedDirect env baseURL w = (Inr feed, w1) \<and>
        rdb_Set env cacheKey feed w1 = (None, w2) \<and>
        parseRSSToMarkdown env feed = Inr md \<and>
        summarizeWithLLM env md w2 = (Inr sc, w3) \<and>
        generateSummaryRSS env sc baseURL w3 = Inr summary \<and>
        map Item_Description (Items (RSS_Channel (summaryRSS env sc baseURL w3)))
          = [''<div>'' @ sc @ ''</div>''] \<and>
        rdb_Set env summaryCacheKey summary w3 = (None, w4) \<and>
        generatePodcastConversation env summary w4 = (Inr c1, w5) \<and>
        rdb_Set env conversationCacheKey c1 w5 = (None, w6) \<and>
        generatePodcastConversation env summary w6 = (Inr conversation, w7) \<and>
        json_Unmarshal env conversation = Inr conv \<and> Conversation conv \<noteq> [] \<and>
        rdb_Set env conversationCacheKey conversation w7 = (None, w8) \<and>
        generateaudiopodcast env conversation w8 = (Inl e, w') \<and>
        fst (generateFeedDirect env baseURL w) = Inr feed \<and>
        store w' cacheKey = Some feed \<and>
        list_ex (writes cacheKey feed) (new_events w w') \<and>
        store w' summaryCacheKey = Some summary \<and>
        list_ex (writes summaryCacheKey summary) (new_events w w') \<and>
        store w' conversationCacheKey = Some conversation \<and>
        list_ex (writes conversationCacheKey conversation) (new_events w w') \<and>
        store w' podcastCacheKey = store w podcastCacheKey \<and>
        \<not> list_ex (writesKey podcastCacheKey) (new_events w w')"
    by (rule refresh_with_failing_synthesis [OF hyps])
qed

theorem refresh_fails_fast_and_keeps_earlier_stages_witness:
  "\<not> redisConnected offline_env \<and>
   updateAllCaches offline_env demo_world
     = (Some (Err ''redis not connected, cannot update caches''), demo_world) \<and>
   redisConnected mute_env \<and> store_writes_succeed mute_env \<and> content_source_works mute_env \<and>
   xml_works mute_env \<and> json_works mute_env \<and> text_generation_works mute_env \<and>
   speech_synthesis_fails mute_env \<and>
   fst (updateAllCaches mute_env demo_world)
     = Some (Wrap ''failed to generate podcast audio''
               (Err ''API request failed with status 503: Service Unavailable'')) \<and>
   store (snd (updateAllCaches mute_env demo_world))
     = [cacheKey \<mapsto> xml_Header @ ''<rss></rss>'', summaryCacheKey \<mapsto> xml_Header @ ''<rss></rss>'',
        conversationCacheKey \<mapsto> demo_json] \<and>
   store (snd (updateAllCaches mute_env demo_world)) podcastCacheKey = None \<and>
   \<not> list_ex (writesKey podcastCacheKey)
       (new_events demo_world (snd (updateAllCaches mute_env demo_world)))"
proof -
  have off: "\<not> redisConnected offline_env" by simp
  note inst = refresh_fails_fast_and_keeps_earlier_stages
  from inst [of offline_env demo_world] off
  have 1: "updateAllCaches offline_env demo_world
             = (Some (Err ''redis not connected, cannot update caches''), demo_world)"
    by blast
  have hyps: "redisConnected mute_env \<and> store_writes_succeed mute_env \<and>
      content_source_works mute_env \<and> xml_works mute_env \<and> json_works mute_env \<and>
      text_generation_works mute_env \<and> speech_synthesis_fails mute_env"
    by (intro conjI mute_env_hypotheses)
  from mp [OF conjunct2 [OF inst [of mute_env demo_world]] hyps]
  obtain e w' where "updateAllCaches mute_env demo_world
        = (Some (Wrap ''failed to generate podcast audio'' e), w')"
    and "\<not> list_ex (writesKey podcastCacheKey) (new_events demo_world w')"
    by (elim exE conjE)
  then have 2: "\<not> list_ex (writesKey podcastCacheKey)
             (new_events demo_world (snd (updateAllCaches mute_env demo_world)))"
    by simp
  from off 1 2 mute_env_hypotheses refresh_mute_demo show ?thesis
    by simp
qed

section \<open>Conversation stage: the retry loop\<close>

lemma tryGenerateConversation_events:
  assumes "tryGenerateConversation env tx w = (r, w')"
  shows "store w' = store w \<and> trace w' = trace w @ generationCall env tx"
  using assms
  by (auto simp: tryGenerateConversation_def generationCall_def Let_def
           split: if_splits llm_result.splits sum.splits option.splits)

text \<open>One round of the loop: the attempt, and what follows its failure.\<close>

lemma extractConversation_loop_round:
  assumes "a \<le> m"
  shows "extractConversation_loop env tx m a le w =
     (case tryGenerateConversation env tx (emit (EvAttempt a m) w) of
        (Inr c, w1) \<Rightarrow> (Inr c, w1)
      | (Inl e, w1) \<Rightarrow>
          (if a < m then
             (let w2 = emit (EvBackoff (a * 2 * 1000 + int (rand_Int63 env (trace w1) mod 1000)))
                         (emit (EvAttemptFailed a e) w1)
              in case ctx_done env (trace w2) of
                   Some ce \<Rightarrow> (Inl (cancelled ce), w2)
                 | None \<Rightarrow> extractConversation_loop env tx m (a + 1) (Some e) w2)
           else (Inl (Wrap (''failed to generate conversation after '' @ show_int m
                            @ '' attempts'') e),
                 emit (EvAttemptFailed a e) w1)))"
proof -
  have last: "extractConversation_loop env tx m (m + 1) (Some e) w0
      = (Inl (Wrap (''failed to generate conversation after '' @ show_int m @ '' attempts'') e), w0)"
    for e w0
    by (subst extractConversation_loop.simps) simp
  from assms have "a < m \<or> a = m" by auto
  then show ?thesis
    by (subst extractConversation_loop.simps)
       (auto simp: Let_def cancelled_def last split: prod.splits sum.splits option.splits)
qed

lemma show_int_3: "show_int 3 = ''3''"
  by (simp add: show_int_def showd.simps digit_def)

lemma world_after:
  fixes w w2 :: world
  assumes "store w2 = store w" and "trace w2 = trace w @ pre"
  shows "w2 = w\<lparr>trace := trace w @ pre\<rparr>"
  using assms by (cases w, cases w2) simp

lemma round_cases:
  assumes bound: "a \<le> 3" and run: "extractConversation_loop env tx 3 a le w = (r, w')"
  obtains
    (success) c where "attemptAt env tx w [] a = Inr c" "r = Inr c"
      "store w' = store w" "trace w' = trace w @ attemptEvents env tx a"
  | (cancelled) e j ce where "a < 3" "attemptAt env tx w [] a = Inl e" "j < 1000"
      "store w' = store w" "trace w' = trace w @ attemptEvents env tx a @ failureEvents a e j"
      "ctx_done env (trace w') = Some ce" "r = Inl (cancelled ce)"
  | (retry) e j w2 where "a < 3" "attemptAt env tx w [] a = Inl e" "j < 1000"
      "store w2 = store w" "trace w2 = trace w @ attemptEvents env tx a @ failureEvents a e j"
      "extractConversation_loop env tx 3 (a + 1) (Some e) w2 = (r, w')"
  | (exhausted) e where "a = 3" "attemptAt env tx w [] a = Inl e" "r = Inl (exhausted e)"
      "store w' = store w"
      "trace w' = trace w @ attemptEvents env tx a @ [EvAttemptFailed a e]"
proof -
  let ?w0 = "emit (EvAttempt a 3) w"
  obtain t w1 where att: "tryGenerateConversation env tx ?w0 = (t, w1)" by force
  from tryGenerateConversation_events [OF att]
  have w1: "store w1 = store w" "trace w1 = trace w @ attemptEvents env tx a"
    by (simp_all add: attemptEvents_def)
  have at: "attemptAt env tx w [] a = t"
    using att by (simp add: attemptAt_def)
  note unfold = run [unfolded extractConversation_loop_round [OF bound] att]
  show ?thesis
  proof (cases t)
    case (Inr c)
    with unfold have "r = Inr c" "w' = w1" by simp_all
    with w1 at Inr show ?thesis by (intro success [of c]) simp_all
  next
    case (Inl e)
    show ?thesis
    proof (cases "a < 3")
      case False
      with bound have "a = 3" by simp
      with unfold Inl have "r = Inl (exhausted e)" "w' = emit (EvAttemptFailed a e) w1"
        by (simp_all add: exhausted_def show_int_3)
      with w1 at Inl \<open>a = 3\<close> show ?thesis by (intro exhausted [of e]) simp_all
    next
      case True
      define j where "j = rand_Int63 env (trace w1) mod 1000"
      define w2 where "w2 = emit (EvBackoff (a * 2 * 1000 + int j)) (emit (EvAttemptFailed a e) w1)"
      have j: "j < 1000" by (simp add: j_def)
      have w2: "store w2 = store w"
        "trace w2 = trace w @ attemptEvents env tx a @ failureEvents a e j"
        using w1 by (simp_all add: w2_def failureEvents_def)
      show ?thesis
      proof (cases "ctx_done env (trace w2)")
        case None
        with unfold Inl True
        have "extractConversation_loop env tx 3 (a + 1) (Some e) w2 = (r, w')"
          by (simp add: Let_def w2_def j_def)
        with True at Inl j w2 show ?thesis by (intro retry [of e j w2]) simp_all
      next
        case (Some ce)
        with unfold Inl True have "r = Inl (cancelled ce)" "w' = w2"
          by (simp_all add: Let_def w2_def j_def)
        with True at Inl j w2 Some show ?thesis by (intro cancelled [of e j ce]) simp_all
      qed
    qed
  qed
qed

lemma attemptAt_shift:
  assumes "store w2 = store w" and "trace w2 = trace w @ pre"
  shows "attemptAt env tx w2 [] k = attemptAt env tx w pre k"
  using world_after [OF assms] by (simp add: attemptAt_def)

lemma extractConversation_three:
  assumes run: "extractConversation env tx 3 w = (r, w')"
  shows "store w' = store w \<and>
    (\<exists>e1 e2 e3 j1 j2 ce c. (j1::nat) < 1000 \<and> (j2::nat) < 1000 \<and>
      (new_events w w' = attemptEvents env tx 1 \<and>
         attemptAt env tx w [] 1 = Inr c \<and> r = Inr c
       \<or>
       new_events w w' = attemptEvents env tx 1 @ failureEvents 1 e1 j1 \<and>
         attemptAt env tx w [] 1 = Inl e1 \<and>
         ctx_done env (trace w') = Some ce \<and> r = Inl (cancelled ce)
       \<or>
       new_events w w' = attemptEvents env tx 1 @ failureEvents 1 e1 j1 @ attemptEvents env tx 2 \<and>
         attemptAt env tx w [] 1 = Inl e1 \<and>
         attemptAt env tx w (attemptEvents env tx 1 @ failureEvents 1 e1 j1) 2 = Inr c \<and>
         r = Inr c
       \<or>
       new_events w w' = attemptEvents env tx 1 @ failureEvents 1 e1 j1 @ attemptEvents env tx 2
                          @ failureEvents 2 e2 j2 \<and>
         attemptAt env tx w [] 1 = Inl e1 \<and>
         attemptAt env tx w (attemptEvents env tx 1 @ failureEvents 1 e1 j1) 2 = Inl e2 \<and>
         ctx_done env (trace w') = Some ce \<and> r = Inl (cancelled ce)
       \<or>
       new_events w w' = attemptEvents env tx 1 @ failureEvents 1 e1 j1 @ attemptEvents env tx 2
                          @ failureEvents 2 e2 j2 @ attemptEvents env tx 3 \<and>
         attemptAt env tx w [] 1 = Inl e1 \<and>
         attemptAt env tx w (attemptEvents env tx 1 @ failureEvents 1 e1 j1) 2 = Inl e2 \<and>
         attemptAt env tx w (attemptEvents env tx 1 @ failureEvents 1 e1 j1
                             @ attemptEvents env tx 2 @ failureEvents 2 e2 j2) 3 = Inr c \<and>
         r = Inr c
       \<or>
       new_events w w' = attemptEvents env tx 1 @ failureEvents 1 e1 j1 @ attemptEvents env tx 2
                          @ failureEvents 2 e2 j2 @ attemptEvents env tx 3
                          @ [EvAttemptFailed 3 e3] \<and>
         attemptAt env tx w [] 1 = Inl e1 \<and>
         attemptAt env tx w (attemptEvents env tx 1 @ failureEvents 1 e1 j1) 2 = Inl e2 \<and>
         attemptAt env tx w (attemptEvents env tx 1 @ failureEvents 1 e1 j1
                             @ attemptEvents env tx 2 @ failureEvents 2 e2 j2) 3 = Inl e3 \<and>
         r = Inl (exhausted e3)))"
    (is "_ \<and> (\<exists>e1 e2 e3 j1 j2 ce c. ?Q e1 e2 e3 j1 j2 ce c)")
proof -
  let ?none = "Err []" and ?nothing = "\<lparr>Conversation = []\<rparr>"
  let ?A = "attemptEvents env tx"
  from run have run1: "extractConversation_loop env tx 3 1 None w = (r, w')"
    by (simp add: extractConversation_def)
  have one: "(1::int) \<le> 3" and two: "(1::int) + 1 \<le> 3" and three: "(1::int) + 1 + 1 \<le> 3"
    by simp_all
  from one run1 show ?thesis
  proof (cases rule: round_cases)
    case (success c)
    then have "?Q ?none ?none ?none 0 0 ?none c" by simp
    with success show ?thesis by blast
  next
    case (cancelled e1 j1 ce)
    then have "?Q e1 ?none ?none j1 0 ce ?nothing" by simp
    with cancelled show ?thesis by blast
  next
    case (exhausted e)
    then show ?thesis by simp
  next
    case first: (retry e1 j1 w2)
    let ?P1 = "?A 1 @ failureEvents 1 e1 j1"
    note shift2 = attemptAt_shift [OF first(4,5), of env tx]
    from two first(6) show ?thesis
    proof (cases rule: round_cases)
      case (success c)
      with first shift2 have "?Q e1 ?none ?none j1 0 ?none c" by simp
      with success first show ?thesis by (metis (lifting))
    next
      case (cancelled e2 j2 ce)
      with first shift2 have "?Q e1 e2 ?none j1 j2 ce ?nothing" by simp
      with cancelled first show ?thesis by (metis (lifting))
    next
      case (exhausted e)
      then show ?thesis by simp
    next
      case second: (retry e2 j2 w3)
      let ?P2 = "?P1 @ ?A 2 @ failureEvents 2 e2 j2"
      have w3: "store w3 = store w" "trace w3 = trace w @ ?P2"
        using first second by simp_all
      note shift3 = attemptAt_shift [OF w3, of env tx]
      from three second(6) show ?thesis
      proof (cases rule: round_cases)
        case (success c)
        with first second shift2 shift3 w3 have "?Q e1 e2 ?none j1 j2 ?none c" by simp
        with success w3 show ?thesis by (metis (lifting))
      next
        case (cancelled e j ce)
        then show ?thesis by simp
      next
        case (retry e j w4)
        then show ?thesis by simp
      next
        case (exhausted e3)
        with first second shift2 shift3 w3 have "?Q e1 e2 e3 j1 j2 ?none ?nothing" by simp
        with exhausted w3 show ?thesis by (metis (lifting))
      qed
    qed
  qed
qed

text \<open>The same round, with the two values the loop reads from its surroundings: the random
  number behind the jitter, and the state of the context at the end of the wait.\<close>

lemma round_exact:
  assumes bound: "a \<le> 3" and run: "extractConversation_loop env tx 3 a le w = (r, w')"
  obtains
    (success) c where "attemptAt env tx w [] a = Inr c" "r = Inr c"
      "store w' = store w" "trace w' = trace w @ attemptEvents env tx a"
  | (cancelled) e j ce where "a < 3" "attemptAt env tx w [] a = Inl e" "j < 1000"
      "rand_Int63 env (trace w @ attemptEvents env tx a) mod 1000 = j"
      "store w' = store w" "trace w' = trace w @ attemptEvents env tx a @ failureEvents a e j"
      "ctx_done env (trace w') = Some ce" "r = Inl (cancelled ce)"
  | (retry) e j w2 where "a < 3" "attemptAt env tx w [] a = Inl e" "j < 1000"
      "rand_Int63 env (trace w @ attemptEvents env tx a) mod 1000 = j"
      "store w2 = store w" "trace w2 = trace w @ attemptEvents env tx a @ failureEvents a e j"
      "ctx_done env (trace w2) = None"
      "extractConversation_loop env tx 3 (a + 1) (Some e) w2 = (r, w')"
  | (exhausted) e where "a = 3" "attemptAt env tx w [] a = Inl e" "r = Inl (exhausted e)"
      "store w' = store w"
      "trace w' = trace w @ attemptEvents env tx a @ [EvAttemptFailed a e]"
proof -
  let ?w0 = "emit (EvAttempt a 3) w"
  obtain t w1 where att: "tryGenerateConversation env tx ?w0 = (t, w1)" by force
  from tryGenerateConversation_events [OF att]
  have w1: "store w1 = store w" "trace w1 = trace w @ attemptEvents env tx a"
    by (simp_all add: attemptEvents_def)
  have at: "attemptAt env tx w [] a = t"
    using att by (simp add: attemptAt_def)
  note unfold = run [unfolded extractConversation_loop_round [OF bound] att]
  show ?thesis
  proof (cases t)
    case (Inr c)
    with unfold have "r = Inr c" "w' = w1" by simp_all
    with w1 at Inr show ?thesis by (intro success [of c]) simp_all
  next
    case (Inl e)
    show ?thesis
    proof (cases "a < 3")
      case False
      with bound have "a = 3" by simp
      with unfold Inl have "r = Inl (exhausted e)" "w' = emit (EvAttemptFailed a e) w1"
        by (simp_all add: exhausted_def show_int_3)
      with w1 at Inl \<open>a = 3\<close> show ?thesis by (intro exhausted [of e]) simp_all
    next
      case True
      define j where "j = rand_Int63 env (trace w1) mod 1000"
      define w2 where "w2 = emit (EvBackoff (a * 2 * 1000 + int j)) (emit (EvAttemptFailed a e) w1)"
      have j: "j < 1000" by (simp add: j_def)
      have jit: "rand_Int63 env (trace w @ attemptEvents env tx a) mod 1000 = j"
        using w1 by (simp add: j_def)
      have w2: "store w2 = store w"
        "trace w2 = trace w @ attemptEvents env tx a @ failureEvents a e j"
        using w1 by (simp_all add: w2_def failureEvents_def)
      show ?thesis
      proof (cases "ctx_done env (trace w2)")
        case None
        with unfold Inl True
        have next_round: "extractConversation_loop env tx 3 (a + 1) (Some e) w2 = (r, w')"
          by (simp add: Let_def w2_def j_def)
        show ?thesis
          by (rule retry [of e j w2, OF True _ j jit w2 None next_round]) (simp add: at Inl)
      next
        case (Some ce)
        with unfold Inl True have res: "r = Inl (cancelled ce)" and w': "w' = w2"
          by (simp_all add: Let_def w2_def j_def)
        from Some w' have stopped: "ctx_done env (trace w') = Some ce" by simp
        from w2 w' have kept: "store w' = store w"
          "trace w' = trace w @ attemptEvents env tx a @ failureEvents a e j"
          by simp_all
        show ?thesis
          by (rule cancelled [of e j ce, OF True _ j jit kept stopped res]) (simp add: at Inl)
      qed
    qed
  qed
qed

lemma extractConversation_three_exact:
  assumes run: "extractConversation env tx 3 w = (r, w')"
  shows "store w' = store w \<and>
    (\<exists>e1 e2 e3 j1 j2 ce c. (j1::nat) < 1000 \<and> (j2::nat) < 1000 \<and>
      (new_events w w' = attemptEvents env tx 1 \<and>
         attemptAt env tx w [] 1 = Inr c \<and> r = Inr c
       \<or>
       new_events w w' = attemptEvents env tx 1 @ failureEvents 1 e1 j1 \<and>
         attemptAt env tx w [] 1 = Inl e1 \<and>
         j1 = rand_Int63 env (trace w @ attemptEvents env tx 1) mod 1000 \<and>
         ctx_done env (trace w') = Some ce \<and> r = Inl (cancelled ce)
       \<or>
       new_events w w' = attemptEvents env tx 1 @ failureEvents 1 e1 j1 @ attemptEvents env tx 2 \<and>
         attemptAt env tx w [] 1 = Inl e1 \<and>
         j1 = rand_Int63 env (trace w @ attemptEvents env tx 1) mod 1000 \<and>
         ctx_done env (trace w @ attemptEvents env tx 1 @ failureEvents 1 e1 j1) = None \<and>
         attemptAt env tx w (attemptEvents env tx 1 @ failureEvents 1 e1 j1) 2 = Inr c \<and>
         r = Inr c
       \<or>
       new_events w w' = attemptEvents env tx 1 @ failureEvents 1 e1 j1 @ attemptEvents env tx 2
                          @ failureEvents 2 e2 j2 \<and>
         attemptAt env tx w [] 1 = Inl e1 \<and>
         j1 = rand_Int63 env (trace w @ attemptEvents env tx 1) mod 1000 \<and>
         ctx_done env (trace w @ attemptEvents env tx 1 @ failureEvents 1 e1 j1) = None \<and>
         attemptAt env tx w (attemptEvents env tx 1 @ failureEvents 1 e1 j1) 2 = Inl e2 \<and>
         j2 = rand_Int63 env (trace w @ attemptEvents env tx 1 @ failureEvents 1 e1 j1
                                @ attemptEvents env tx 2) mod 1000 \<and>
         ctx_done env (trace w') = Some ce \<and> r = Inl (cancelled ce)
       \<or>
       new_events w w' = attemptEvents env tx 1 @ failureEvents 1 e1 j1 @ attemptEvents env tx 2
                          @ failureEvents 2 e2 j2 @ attemptEvents env tx 3 \<and>
         attemptAt env tx w [] 1 = Inl e1 \<and>
         j1 = rand_Int63 env (trace w @ attemptEvents env tx 1) mod 1000 \<and>
         ctx_done env (trace w @ attemptEvents env tx 1 @ failureEvents 1 e1 j1) = None \<and>
         attemptAt env tx w (attemptEvents env tx 1 @ failureEvents 1 e1 j1) 2 = Inl e2 \<and>
         j2 = rand_Int63 env (trace w @ attemptEvents env tx 1 @ failureEvents 1 e1 j1
                                @ attemptEvents env tx 2) mod 1000 \<and>
         ctx_done env (trace w @ attemptEvents env tx 1 @ failureEvents 1 e1 j1
                       @ attemptEvents env tx 2 @ failureEvents 2 e2 j2) = None \<and>
         attemptAt env tx w (attemptEvents env tx 1 @ failureEvents 1 e1 j1
                             @ attemptEvents env tx 2 @ failureEvents 2 e2 j2) 3 = Inr c \<and>
         r = Inr c
       \<or>
       new_events w w' = attemptEvents env tx 1 @ failureEvents 1 e1 j1 @ attemptEvents env tx 2
                          @ failureEvents 2 e2 j2 @ attemptEvents env tx 3
                          @ [EvAttemptFailed 3 e3] \<and>
         attemptAt env tx w [] 1 = Inl e1 \<and>
         j1 = rand_Int63 env (trace w @ attemptEvents env tx 1) mod 1000 \<and>
         ctx_done env (trace w @ attemptEvents env tx 1 @ failureEvents 1 e1 j1) = None \<and>
         attemptAt env tx w (attemptEvents env tx 1 @ failureEvents 1 e1 j1) 2 = Inl e2 \<and>
         j2 = rand_Int63 env (trace w @ attemptEvents env tx 1 @ failureEvents 1 e1 j1
                                @ attemptEvents env tx 2) mod 1000 \<and>
         ctx_done env (trace w @ attemptEvents env tx 1 @ failureEvents 1 e1 j1
                       @ attemptEvents env tx 2 @ failureEvents 2 e2 j2) = None \<and>
         attemptAt env tx w (attemptEvents env tx 1 @ failureEvents 1 e1 j1
                             @ attemptEvents env tx 2 @ failureEvents 2 e2 j2) 3 = Inl e3 \<and>
         r = Inl (exhausted e3)))"
    (is "_ \<and> (\<exists>e1 e2 e3 j1 j2 ce c. ?Q e1 e2 e3 j1 j2 ce c)")
proof -
  let ?none = "Err []" and ?nothing = "\<lparr>Conversation = []\<rparr>"
  let ?A = "attemptEvents env tx"
  from run have run1: "extractConversation_loop env tx 3 1 None w = (r, w')"
    by (simp add: extractConversation_def)
  have one: "(1::int) \<le> 3" and two: "(1::int) + 1 \<le> 3" and three: "(1::int) + 1 + 1 \<le> 3"
    by simp_all
  from one run1 show ?thesis
  proof (cases rule: round_exact)
    case (success c)
    then have "?Q ?none ?none ?none 0 0 ?none c" by simp
    with success show ?thesis by blast
  next
    case (cancelled e1 j1 ce)
    then have "?Q e1 ?none ?none j1 0 ce ?nothing" by simp
    with cancelled show ?thesis by blast
  next
    case (exhausted e)
    then show ?thesis by simp
  next
    case first: (retry e1 j1 w2)
    let ?P1 = "?A 1 @ failureEvents 1 e1 j1"
    note shift2 = attemptAt_shift [OF first(5,6), of env tx]
    from two first(8) show ?thesis
    proof (cases rule: round_exact)
      case (success c)
      with first shift2 have "?Q e1 ?none ?none j1 0 ?none c" by simp
      with success first show ?thesis by (metis (lifting))
    next
      case (cancelled e2 j2 ce)
      with first shift2 have "?Q e1 e2 ?none j1 j2 ce ?nothing" by simp
      with cancelled first show ?thesis by (metis (lifting))
    next
      case (exhausted e)
      then show ?thesis by simp
    next
      case second: (retry e2 j2 w3)
      let ?P2 = "?P1 @ ?A 2 @ failureEvents 2 e2 j2"
      have w3: "store w3 = store w" "trace w3 = trace w @ ?P2"
        using first second by simp_all
      note shift3 = attemptAt_shift [OF w3, of env tx]
      from three second(8) show ?thesis
      proof (cases rule: round_exact)
        case (success c)
        with first second shift2 shift3 w3 have "?Q e1 e2 ?none j1 j2 ?none c" by simp
        with success w3 show ?thesis by (metis (lifting))
      next
        case (cancelled e j ce)
        then show ?thesis by simp
      next
        case (retry e j w4)
        then show ?thesis by simp
      next
        case (exhausted e3)
        with first second shift2 shift3 w3 have "?Q e1 e2 e3 j1 j2 ?none ?nothing" by simp
        with exhausted w3 show ?thesis by (metis (lifting))
      qed
    qed
  qed
qed

lemma filter_attempt_events [simp]:
  "length (filter isAttemptStart (attemptEvents env tx k)) = 1"
  "length (filter isAttemptStart (failureEvents k e j)) = 0"
  "length (filter isGenerationCall (attemptEvents env tx k)) \<le> 1"
  "length (filter isGenerationCall (failureEvents k e j)) = 0"
  by (simp_all add: attemptEvents_def failureEvents_def generationCall_def isAttemptStart_def
        isGenerationCall_def)

text \<open>
  C1.  A run of \<open>extractConversation\<close> with a budget of 3 leaves the store alone, only
  adds events to the trace, starts at most 3 attempts and sends at most 3 requests to the Text-Generation Service, and is
  one of six runs.  Writing \<open>A k\<close> for the events of attempt \<open>k\<close> (its log line and its
  request) and \<open>F k e j\<close> for the events after its failure with error \<open>e\<close> (the log line
  and the back-off timer of \<open>k * 2\<close> seconds plus a jitter of \<open>j < 1000\<close> milliseconds,
  \<open>j\<close> being the random number drawn after the attempt, modulo 1000):
  \<^item> \<open>A 1\<close>: attempt 1 succeeds, its result is returned;
  \<^item> \<open>A 1, F 1\<close>: attempt 1 fails, the context is done during the wait, the run fails
    at once with the cancellation error;
  \<^item> \<open>A 1, F 1, A 2\<close>: the context is not done during the first wait, attempt 2
    succeeds, its result is returned;
  \<^item> \<open>A 1, F 1, A 2, F 2\<close>: the context is not done during the first wait, attempt 2
    fails, the context is done during the second wait, the run fails at once with the
    cancellation error;
  \<^item> \<open>A 1, F 1, A 2, F 2, A 3\<close>: the context is done during neither wait, attempt 3
    succeeds, its result is returned;
  \<^item> \<open>A 1, F 1, A 2, F 2, A 3\<close> and the log line of the third failure: the context is
    done during neither wait, the run fails, and its error wraps the error of the third
    attempt.
  In each run \<open>attemptAt\<close> gives what the attempt returned at its place in the trace, and
  \<open>ctx_done\<close> is read at the trace that ends with the back-off timer of the wait.  A next
  attempt is thus made only after a wait during which the context was not done; when the
  context is done during a wait the run is the second or the fourth one, and no further
  attempt is made.
\<close>

theorem retry_controller_three_attempts:
  assumes "extractConversation env tx 3 w = (r, w')"
  shows "store w' = store w \<and> trace w' = trace w @ new_events w w' \<and>
    length (filter isAttemptStart (new_events w w')) \<le> 3 \<and>
    length (filter isGenerationCall (new_events w w')) \<le> 3 \<and>
    (\<exists>e1 e2 e3 j1 j2 ce c. (j1::nat) < 1000 \<and> (j2::nat) < 1000 \<and>
      (new_events w w' = attemptEvents env tx 1 \<and>
         attemptAt env tx w [] 1 = Inr c \<and> r = Inr c
       \<or>
       new_events w w' = attemptEvents env tx 1 @ failureEvents 1 e1 j1 \<and>
         attemptAt env tx w [] 1 = Inl e1 \<and>
         j1 = rand_Int63 env (trace w @ attemptEvents env tx 1) mod 1000 \<and>
         ctx_done env (trace w') = Some ce \<and> r = Inl (cancelled ce)
       \<or>
       new_events w w' = attemptEvents env tx 1 @ failureEvents 1 e1 j1 @ attemptEvents env tx 2 \<and>
         attemptAt env tx w [] 1 = Inl e1 \<and>
         j1 = rand_Int63 env (trace w @ attemptEvents env tx 1) mod 1000 \<and>
         ctx_done env (trace w @ attemptEvents env tx 1 @ failureEvents 1 e1 j1) = None \<and>
         attemptAt env tx w (attemptEvents env tx 1 @ failureEvents 1 e1 j1) 2 = Inr c \<and>
         r = Inr c
       \<or>
       new_events w w' = attemptEvents env tx 1 @ failureEvents 1 e1 j1 @ attemptEvents env tx 2
                          @ failureEvents 2 e2 j2 \<and>
         attemptAt env tx w [] 1 = Inl e1 \<and>
         j1 = rand_Int63 env (trace w @ attemptEvents env tx 1) mod 1000 \<and>
         ctx_done env (trace w @ attemptEvents env tx 1 @ failureEvents 1 e1 j1) = None \<and>
         attemptAt env tx w (attemptEvents env tx 1 @ failureEvents 1 e1 j1) 2 = Inl e2 \<and>
         j2 = rand_Int63 env (trace w @ attemptEvents env tx 1 @ failureEvents 1 e1 j1
                                @ attemptEvents env tx 2) mod 1000 \<and>
         ctx_done env (trace w') = Some ce \<and> r = Inl (cancelled ce)
       \<or>
       new_events w w' = attemptEvents env tx 1 @ failureEvents 1 e1 j1 @ attemptEvents env tx 2
                          @ failureEvents 2 e2 j2 @ attemptEvents env tx 3 \<and>
         attemptAt env tx w [] 1 = Inl e1 \<and>
         j1 = rand_Int63 env (trace w @ attemptEvents env tx 1) mod 1000 \<and>
         ctx_done env (trace w @ attemptEvents env tx 1 @ failureEvents 1 e1 j1) = None \<and>
         attemptAt env tx w (attemptEvents env tx 1 @ failureEvents 1 e1 j1) 2 = Inl e2 \<and>
         j2 = rand_Int63 env (trace w @ attemptEvents env tx 1 @ failureEvents 1 e1 j1
                                @ attemptEvents env tx 2) mod 1000 \<and>
         ctx_done env (trace w @ attemptEvents env tx 1 @ failureEvents 1 e1 j1
                       @ attemptEvents env tx 2 @ failureEvents 2 e2 j2) = None \<and>
         attemptAt env tx w (attemptEvents env tx 1 @ failureEvents 1 e1 j1
                             @ attemptEvents env tx 2 @ failureEvents 2 e2 j2) 3 = Inr c \<and>
         r = Inr c
       \<or>
       new_events w w' = attemptEvents env tx 1 @ failureEvents 1 e1 j1 @ attemptEvents env tx 2
                          @ failureEvents 2 e2 j2 @ attemptEvents env tx 3
                          @ [EvAttemptFailed 3 e3] \<and>
         attemptAt env tx w [] 1 = Inl e1 \<and>
         j1 = rand_Int63 env (trace w @ attemptEvents env tx 1) mod 1000 \<and>
         ctx_done env (trace w @ attemptEvents env tx 1 @ failureEvents 1 e1 j1) = None \<and>
         attemptAt env tx w (attemptEvents env tx 1 @ failureEvents 1 e1 j1) 2 = Inl e2 \<and>
         j2 = rand_Int63 env (trace w @ attemptEvents env tx 1 @ failureEvents 1 e1 j1
                                @ attemptEvents env tx 2) mod 1000 \<and>
         ctx_done env (trace w @ attemptEvents env tx 1 @ failureEvents 1 e1 j1
                       @ attemptEvents env tx 2 @ failureEvents 2 e2 j2) = None \<and>
         attemptAt env tx w (attemptEvents env tx 1 @ failureEvents 1 e1 j1
                             @ attemptEvents env tx 2 @ failureEvents 2 e2 j2) 3 = Inl e3 \<and>
         r = Inl (exhausted e3)))"
proof -
  note three = extractConversation_three_exact [OF assms]
  note shapes = extractConversation_three [OF assms]
  have gen: "length (filter isGenerationCall (attemptEvents env tx k)) \<le> 1" for k
    by (rule filter_attempt_events)
  from shapes have "length (filter isAttemptStart (new_events w w')) \<le> 3"
    by (elim conjE exE disjE) (simp_all add: isAttemptStart_def)
  moreover from shapes have "length (filter isGenerationCall (new_events w w')) \<le> 3"
    using gen [of 1] gen [of 2] gen [of 3]
    by (elim conjE exE disjE) (simp_all add: isGenerationCall_def)
  moreover have "trace w' = trace w @ new_events w w'"
  proof -
    from frame_extends [OF frame_extractConversation [OF assms, of "[]" "[]"]]
    obtain evs where evs: "trace w' = trace w @ evs" by blast
    then have "new_events w w' = evs" by (rule new_events_append)
    with evs show ?thesis by (simp only:)
  qed
  ultimately show ?thesis
    using three
    by (intro conjI)
       (rule conjunct1, assumption, assumption, assumption, assumption, rule conjunct2)
qed

lemma flaky_fields [simp]:
  "HF_API_KEY flaky_env = ''hf-key''"
  "json_Unmarshal flaky_env demo_json = Inr demo_conversation"
  "ctx_done flaky_env h = None"
  "rand_Int63 flaky_env h = 12345"
  "llm flaky_env h url p =
     (let n = length (filter isGenerationCall h)
      in if n < 2 then LLMSendError False (Err (''upstream failure '' @ showd (n + 1)))
         else LLMResponse 200 [] (Inr [demo_reply]))"
  by (simp_all add: flaky_env_def demo_env_def)

lemma down_fields [simp]:
  "HF_API_KEY down_env = ''hf-key''"
  "ctx_done down_env h = None"
  "rand_Int63 down_env h = 12345"
  "llm down_env h url p =
     LLMSendError False
       (Err (''upstream failure '' @ showd (length (filter isGenerationCall h) + 1)))"
  by (simp_all add: down_env_def demo_env_def)

lemma cancelled_fields [simp]:
  "HF_API_KEY cancelled_env = ''hf-key''"
  "ctx_done cancelled_env h = Some (Err ''context canceled'')"
  "rand_Int63 cancelled_env h = 12345"
  "llm cancelled_env h url p =
     LLMSendError False
       (Err (''upstream failure '' @ showd (length (filter isGenerationCall h) + 1)))"
  by (simp_all add: cancelled_env_def down_env_def demo_env_def)

lemmas retry_eval =
  extractConversation_def extractConversation_loop.simps [of _ _ 3 1]
  extractConversation_loop.simps [of _ _ 3 2] extractConversation_loop.simps [of _ _ 3 3]
  extractConversation_loop.simps [of _ _ 3 4]
  tryGenerateConversation_def Let_def emit_def demo_world_def isGenerationCall_def
  FindString_demo demo_replies_nonempty demo_entries showd.simps digit_def show_int_def

lemma flaky_run:
  "extractConversation flaky_env ''summary'' 3 demo_world
     = (Inr demo_conversation,
        \<lparr>store = Map.empty,
         trace = attemptEvents flaky_env ''summary'' 1
                 @ failureEvents 1 (Wrap ''failed to send request'' (Err ''upstream failure 1'')) 345
                 @ attemptEvents flaky_env ''summary'' 2
                 @ failureEvents 2 (Wrap ''failed to send request'' (Err ''upstream failure 2'')) 345
                 @ attemptEvents flaky_env ''summary'' 3\<rparr>)"
  by (simp add: retry_eval attemptEvents_def failureEvents_def generationCall_def)

lemma down_run:
  "extractConversation down_env ''summary'' 3 demo_world
     = (Inl (exhausted (Wrap ''failed to send request'' (Err ''upstream failure 3''))),
        \<lparr>store = Map.empty,
         trace = attemptEvents down_env ''summary'' 1
                 @ failureEvents 1 (Wrap ''failed to send request'' (Err ''upstream failure 1'')) 345
                 @ attemptEvents down_env ''summary'' 2
                 @ failureEvents 2 (Wrap ''failed to send request'' (Err ''upstream failure 2'')) 345
                 @ attemptEvents down_env ''summary'' 3
                 @ [EvAttemptFailed 3 (Wrap ''failed to send request'' (Err ''upstream failure 3''))]\<rparr>)"
  by (simp add: retry_eval attemptEvents_def failureEvents_def generationCall_def exhausted_def)

lemma cancelled_run:
  "extractConversation cancelled_env ''summary'' 3 demo_world
     = (Inl (cancelled (Err ''context canceled'')),
        \<lparr>store = Map.empty,
         trace = attemptEvents cancelled_env ''summary'' 1
                 @ failureEvents 1 (Wrap ''failed to send request'' (Err ''upstream failure 1'')) 345\<rparr>)"
  by (simp add: retry_eval attemptEvents_def failureEvents_def generationCall_def cancelled_def)

theorem retry_controller_three_attempts_witness:
  "fst (extractConversation flaky_env ''summary'' 3 demo_world) = Inr demo_conversation \<and>
   filter isAttemptStart (trace (snd (extractConversation flaky_env ''summary'' 3 demo_world)))
     = [EvAttempt 1 3, EvAttempt 2 3, EvAttempt 3 3] \<and>
   filter isBackoff (trace (snd (extractConversation flaky_env ''summary'' 3 demo_world)))
     = [EvBackoff 2345, EvBackoff 4345] \<and>
   length (filter isGenerationCall
             (new_events demo_world (snd (extractConversation flaky_env ''summary'' 3 demo_world))))
     \<le> 3 \<and>
   fst (extractConversation down_env ''summary'' 3 demo_world)
     = Inl (Wrap ''failed to generate conversation after 3 attempts''
              (Wrap ''failed to send request'' (Err ''upstream failure 3''))) \<and>
   length (filter isAttemptStart
             (new_events demo_world (snd (extractConversation down_env ''summary'' 3 demo_world))))
     \<le> 3 \<and>
   fst (extractConversation cancelled_env ''summary'' 3 demo_world)
     = Inl (Wrap ''context cancelled during retry wait'' (Err ''context canceled'')) \<and>
   filter isAttemptStart
     (trace (snd (extractConversation cancelled_env ''summary'' 3 demo_world)))
     = [EvAttempt 1 3] \<and>
   filter isBackoff (trace (snd (extractConversation cancelled_env ''summary'' 3 demo_world)))
     = [EvBackoff 2345] \<and>
   length (filter isGenerationCall
             (new_events demo_world
                (snd (extractConversation cancelled_env ''summary'' 3 demo_world))))
     \<le> 3"
proof -
  note stopped = retry_controller_three_attempts [OF cancelled_run]
  from stopped have 3: "length (filter isGenerationCall (new_events demo_world
      \<lparr>store = Map.empty,
       trace = attemptEvents cancelled_env ''summary'' 1
               @ failureEvents 1 (Wrap ''failed to send request'' (Err ''upstream failure 1'')) 345\<rparr>))
      \<le> 3"
    by blast
  have 4: "fst (extractConversation cancelled_env ''summary'' 3 demo_world)
     = Inl (Wrap ''context cancelled during retry wait'' (Err ''context canceled''))"
    "filter isAttemptStart
       (trace (snd (extractConversation cancelled_env ''summary'' 3 demo_world)))
     = [EvAttempt 1 3]"
    "filter isBackoff (trace (snd (extractConversation cancelled_env ''summary'' 3 demo_world)))
     = [EvBackoff 2345]"
    by (simp_all add: cancelled_run attemptEvents_def failureEvents_def generationCall_def
          isAttemptStart_def isBackoff_def cancelled_def)
  note flaky = retry_controller_three_attempts [OF flaky_run]
  note down = retry_controller_three_attempts [OF down_run]
  from flaky have 1: "length (filter isGenerationCall (new_events demo_world
      \<lparr>store = Map.empty,
       trace = attemptEvents flaky_env ''summary'' 1
               @ failureEvents 1 (Wrap ''failed to send request'' (Err ''upstream failure 1'')) 345
               @ attemptEvents flaky_env ''summary'' 2
               @ failureEvents 2 (Wrap ''failed to send request'' (Err ''upstream failure 2'')) 345
               @ attemptEvents flaky_env ''summary'' 3\<rparr>)) \<le> 3"
    by blast
  from down have 2: "length (filter isAttemptStart (new_events demo_world
      \<lparr>store = Map.empty,
       trace = attemptEvents down_env ''summary'' 1
               @ failureEvents 1 (Wrap ''failed to send request'' (Err ''upstream failure 1'')) 345
               @ attemptEvents down_env ''summary'' 2
               @ failureEvents 2 (Wrap ''failed to send request'' (Err ''upstream failure 2'')) 345
               @ attemptEvents down_env ''summary'' 3
               @ [EvAttemptFailed 3 (Wrap ''failed to send request'' (Err ''upstream failure 3''))]\<rparr>))
      \<le> 3"
    by blast
  have "filter isAttemptStart (trace (snd (extractConversation flaky_env ''summary'' 3 demo_world)))
     = [EvAttempt 1 3, EvAttempt 2 3, EvAttempt 3 3]"
    "filter isBackoff (trace (snd (extractConversation flaky_env ''summary'' 3 demo_world)))
     = [EvBackoff 2345, EvBackoff 4345]"
    "fst (extractConversation down_env ''summary'' 3 demo_world)
     = Inl (Wrap ''failed to generate conversation after 3 attempts''
              (Wrap ''failed to send request'' (Err ''upstream failure 3'')))"
    by (simp_all add: flaky_run down_run attemptEvents_def failureEvents_def generationCall_def
          isAttemptStart_def isBackoff_def exhausted_def)
  with 1 2 3 4 show ?thesis
    by (simp add: flaky_run down_run cancelled_run)
qed

section \<open>Full refresh: the conversation stage runs twice\<close>

lemma retry_events [simp]:
  "list_all isRetryEvent (attemptEvents env tx k)"
  "list_all isRetryEvent (failureEvents k e j)"
  by (simp_all add: attemptEvents_def failureEvents_def generationCall_def isRetryEvent_def)

lemma extractConversation_success:
  assumes "extractConversation env tx 3 w = (Inr cd, w')"
  shows "trace w' = trace w @ new_events w w' \<and> store w' = store w \<and>
         list_all isRetryEvent (new_events w w') \<and>
         1 \<le> length (filter isAttemptStart (new_events w w')) \<and>
         length (filter isAttemptStart (new_events w w')) \<le> 3"
proof -
  from frame_extends [OF frame_extractConversation [OF assms, of "[]" "[]"]]
  obtain evs where evs: "trace w' = trace w @ evs" by blast
  then have new: "new_events w w' = evs" by (rule new_events_append)
  note three = extractConversation_three [OF assms]
  have st: "store w' = store w" using three by blast
  have one: "length (filter isAttemptStart (attemptEvents env tx k)) = 1" for k
    by (rule filter_attempt_events)
  have zero: "length (filter isAttemptStart (failureEvents k e j)) = 0" for k e j
    by (rule filter_attempt_events)
  from three have "list_all isRetryEvent (new_events w w') \<and>
         1 \<le> length (filter isAttemptStart (new_events w w')) \<and>
         length (filter isAttemptStart (new_events w w')) \<le> 3"
  proof (elim conjE exE disjE)
    fix e1 e2 e3 j1 j2 ce c
    assume "new_events w w' = attemptEvents env tx 1"
    then show ?thesis by (simp only: one retry_events) simp
  next
    fix e1 e2 e3 :: err and j1 j2 :: nat and ce c
    assume "new_events w w' = attemptEvents env tx 1 @ failureEvents 1 e1 j1 @ attemptEvents env tx 2"
    then show ?thesis
      by (simp only: filter_append length_append one zero list_all_append retry_events) simp
  next
    fix e1 e2 e3 :: err and j1 j2 :: nat and ce c
    assume "new_events w w' = attemptEvents env tx 1 @ failureEvents 1 e1 j1 @ attemptEvents env tx 2
                          @ failureEvents 2 e2 j2 @ attemptEvents env tx 3"
    then show ?thesis
      by (simp only: filter_append length_append one zero list_all_append retry_events) simp
  qed (simp_all add: cancelled_def exhausted_def)
  with evs new st show ?thesis by simp
qed

lemma rdb_Set_trace: "rdb_Set env k v w = (r, w') \<Longrightarrow> trace w' = trace w @ [EvSet k v]"
  by (auto simp: rdb_Set_def split: option.splits)

lemma generatePodcastConversation_success:
  assumes "generatePodcastConversation env tx w = (Inr c, w')" and "redisConnected env"
  shows "\<exists>cd w1. extractConversation env tx 3 w = (Inr cd, w1) \<and>
           json_MarshalIndent env cd = Inr c \<and>
           trace w' = trace w @ new_events w w1 @ [EvSet conversationCacheKey c] \<and>
           list_all isRetryEvent (new_events w w1) \<and>
           1 \<le> length (filter isAttemptStart (new_events w w1)) \<and>
           length (filter isAttemptStart (new_events w w1)) \<le> 3"
proof -
  obtain x w1 where ext0: "extractConversation env tx 3 w = (x, w1)" by force
  with assms obtain cd where x: "x = Inr cd" and enc: "json_MarshalIndent env cd = Inr c"
    and w': "w' = snd (rdb_Set env conversationCacheKey c w1)"
    by (auto simp: generatePodcastConversation_def split: sum.splits)
  from w' have last: "trace w' = trace w1 @ [EvSet conversationCacheKey c]"
    by (simp add: rdb_Set_trace [OF surjective_pairing])
  note success = extractConversation_success [OF ext0 [unfolded x]]
  from success have "trace w1 = trace w @ new_events w w1" by (rule conjunct1)
  with last have "trace w' = trace w @ new_events w w1 @ [EvSet conversationCacheKey c]"
    by (metis append_assoc)
  moreover from success have "list_all isRetryEvent (new_events w w1)"
    "1 \<le> length (filter isAttemptStart (new_events w w1))"
    "length (filter isAttemptStart (new_events w w1)) \<le> 3"
    by blast+
  ultimately show ?thesis
    using ext0 x enc by blast
qed

lemma updateAllCaches_podcast_success:
  assumes "updateAllCaches_podcast env c w = (None, w')"
  shows "\<exists>audio conv w1. generateaudiopodcast env c w = (Inr audio, w1) \<and>
           rdb_Set env podcastCacheKey audio w1 = (None, w') \<and>
           json_Unmarshal env c = Inr conv \<and>
           trace w' = trace w @ map synthesisCall (Conversation conv) @ [EvSet podcastCacheKey audio]"
proof -
  obtain x w1 where gen0: "generateaudiopodcast env c w = (x, w1)" by force
  with assms obtain audio where x: "x = Inr audio"
    and set: "rdb_Set env podcastCacheKey audio w1 = (None, w')"
    by (auto simp: updateAllCaches_podcast_def split: sum.splits option.splits prod.splits)
  from generateaudiopodcast_success [OF gen0 [unfolded x]] obtain conv where
    "json_Unmarshal env c = Inr conv" "trace w1 = trace w @ map synthesisCall (Conversation conv)"
    by blast
  with gen0 x set rdb_Set_trace [OF set] show ?thesis
    by (intro exI [of _ audio] exI [of _ conv] exI [of _ w1]) simp
qed

lemma updateAllCaches_conversation2_success:
  assumes "updateAllCaches_conversation2 env s w = (None, w')"
  shows "\<exists>c w1 w2. generatePodcastConversation env s w = (Inr c, w1) \<and>
           rdb_Set env conversationCacheKey c w1 = (None, w2) \<and>
           updateAllCaches_podcast env c w2 = (None, w')"
proof -
  obtain x w1 where gen0: "generatePodcastConversation env s w = (x, w1)" by force
  obtain y w2 where set0: "rdb_Set env conversationCacheKey (projr x) w1 = (y, w2)" by force
  from assms gen0 set0 show ?thesis
    by (auto simp: updateAllCaches_conversation2_def split: sum.splits option.splits)
qed

lemma updateAllCaches_conversation_success:
  assumes "updateAllCaches_conversation env s w = (None, w')"
  shows "\<exists>c w1 w2. generatePodcastConversation env s w = (Inr c, w1) \<and>
           rdb_Set env conversationCacheKey c w1 = (None, w2) \<and>
           updateAllCaches_conversation2 env s w2 = (None, w')"
proof -
  obtain x w1 where gen0: "generatePodcastConversation env s w = (x, w1)" by force
  obtain y w2 where set0: "rdb_Set env conversationCacheKey (projr x) w1 = (y, w2)" by force
  from assms gen0 set0 show ?thesis
    by (auto simp: updateAllCaches_conversation_def split: sum.splits option.splits)
qed

lemma summarizeWithLLM_success:
  "summarizeWithLLM env md w = (Inr s, w') \<Longrightarrow>
     w' = emit (EvLLM summaryAPI (summaryPrompt @ md)) w"
  by (auto simp: summarizeWithLLM_def Let_def split: if_splits llm_result.splits sum.splits)

lemma updateAllCaches_summary_success:
  assumes "updateAllCaches_summary env feed w = (None, w')"
  shows "\<exists>md summary w1. parseRSSToMarkdown env feed = Inr md \<and>
           trace w1 = trace w @ [EvLLM summaryAPI (summaryPrompt @ md), EvSet summaryCacheKey summary] \<and>
           updateAllCaches_conversation env summary w1 = (None, w')"
proof -
  obtain x w1 where sum0: "summarizeWithLLM env (projr (parseRSSToMarkdown env feed)) w = (x, w1)"
    by force
  obtain y w2 where set0:
    "rdb_Set env summaryCacheKey (projr (generateSummaryRSS env (projr x) baseURL w1)) w1 = (y, w2)"
    by force
  from assms sum0 set0 obtain md sc summary where
    md: "parseRSSToMarkdown env feed = Inr md" and x: "x = Inr sc" and
    s: "generateSummaryRSS env sc baseURL w1 = Inr summary" and y: "y = None" and
    nxt: "updateAllCaches_conversation env summary w2 = (None, w')"
    by (auto simp: updateAllCaches_summary_def split: sum.splits option.splits)
  from sum0 md x have "w1 = emit (EvLLM summaryAPI (summaryPrompt @ md)) w"
    by (simp add: summarizeWithLLM_success)
  with set0 s x rdb_Set_trace [OF set0]
  have "trace w2 = trace w @ [EvLLM summaryAPI (summaryPrompt @ md), EvSet summaryCacheKey summary]"
    by simp
  with md nxt show ?thesis by blast
qed

lemma updateAllCaches_success:
  assumes "updateAllCaches env w = (None, w')"
  shows "redisConnected env \<and>
         (\<exists>feed w1. fst (generateFeedDirect env baseURL w) = Inr feed \<and>
            trace w1 = trace w @ [EvScrape, EvSet cacheKey feed] \<and>
            updateAllCaches_summary env feed w1 = (None, w'))"
proof -
  from assms have usable: "redisConnected env"
    by (auto simp: updateAllCaches_def split: if_splits)
  obtain x w1 where gen0: "generateFeedDirect env baseURL w = (x, w1)" by force
  with assms usable obtain feed where x: "x = Inr feed" and
    nxt: "updateAllCaches_summary env feed (snd (rdb_Set env cacheKey feed w1)) = (None, w')"
    by (auto simp: updateAllCaches_def split: sum.splits)
  from gen0 x have "w1 = emit EvScrape w"
    by (auto simp: generateFeedDirect_def scrapePapers_def split: sum.splits prod.splits)
  then have "trace (snd (rdb_Set env cacheKey feed w1)) = trace w @ [EvScrape, EvSet cacheKey feed]"
    using rdb_Set_trace [OF surjective_pairing, of env cacheKey feed w1] by simp
  with usable gen0 x nxt show ?thesis by auto
qed

lemma retry_event_facts:
  assumes "list_all isRetryEvent evs"
  shows "filter (writesKey k) evs = []" and "filter isSynthesisCall evs = []"
  using assms
  by (auto simp: list_all_iff filter_empty_conv isRetryEvent_def writesKey_def isSynthesisCall_def
           split: event.splits)

lemma synthesis_call_facts [simp]:
  "filter (writesKey k) (map synthesisCall es) = []"
  "filter isAttemptStart (map synthesisCall es) = []"
  by (auto simp: filter_empty_conv synthesisCall_def writesKey_def isAttemptStart_def)

text \<open>
  C9.  The events of a successful refresh are, in this order: the scrape and the write of
  the feed; the summary request and the write of the summary; the events of a successful
  run of the three-attempt retry loop on the summary bytes and two writes of its result
  to the conversation key (one inside \<open>generatePodcastConversation\<close>, one by
  \<open>updateAllCaches\<close>); the same once more, for a second call of
  \<open>generatePodcastConversation\<close> on the same summary bytes; and, only then, the synthesis
  calls and the write of the podcast.  Each retry cycle starts between one and three
  attempts, and the conversation key is the target of exactly four writes, all of them
  before the first synthesis call.
\<close>

theorem refresh_generates_conversation_twice:
  assumes "updateAllCaches env w = (None, w')"
  shows "\<exists>feed md summary cd1 c1 cd2 c2 conv audio w4 w5 w6 w7 cycle1 cycle2 r1 r2.
     generatePodcastConversation env summary w4 = (Inr c1, w5) \<and>
     extractConversation env summary 3 w4 = (Inr cd1, r1) \<and> cycle1 = new_events w4 r1 \<and>
     generatePodcastConversation env summary w6 = (Inr c2, w7) \<and>
     extractConversation env summary 3 w6 = (Inr cd2, r2) \<and> cycle2 = new_events w6 r2 \<and>
     json_Unmarshal env c2 = Inr conv \<and>
     new_events w w' =
       [EvScrape, EvSet cacheKey feed,
        EvLLM summaryAPI (summaryPrompt @ md), EvSet summaryCacheKey summary]
       @ cycle1 @ [EvSet conversationCacheKey c1, EvSet conversationCacheKey c1]
       @ cycle2 @ [EvSet conversationCacheKey c2, EvSet conversationCacheKey c2]
       @ map synthesisCall (Conversation conv) @ [EvSet podcastCacheKey audio] \<and>
     list_all isRetryEvent cycle1 \<and> list_all isRetryEvent cycle2 \<and>
     1 \<le> length (filter isAttemptStart cycle1) \<and> length (filter isAttemptStart cycle1) \<le> 3 \<and>
     1 \<le> length (filter isAttemptStart cycle2) \<and> length (filter isAttemptStart cycle2) \<le> 3 \<and>
     length (filter isAttemptStart (new_events w w'))
       = length (filter isAttemptStart cycle1) + length (filter isAttemptStart cycle2) \<and>
     filter (writesKey conversationCacheKey) (new_events w w')
       = [EvSet conversationCacheKey c1, EvSet conversationCacheKey c1,
          EvSet conversationCacheKey c2, EvSet conversationCacheKey c2]"
proof -
  from updateAllCaches_success [OF assms] obtain feed w1 where
    usable: "redisConnected env" and
    t1: "trace w1 = trace w @ [EvScrape, EvSet cacheKey feed]" and
    s1: "updateAllCaches_summary env feed w1 = (None, w')"
    by blast
  from updateAllCaches_summary_success [OF s1] obtain md summary w4 where
    t4: "trace w4 = trace w1 @ [EvLLM summaryAPI (summaryPrompt @ md), EvSet summaryCacheKey summary]"
    and s4: "updateAllCaches_conversation env summary w4 = (None, w')"
    by blast
  from updateAllCaches_conversation_success [OF s4] obtain c1 w5 w6 where
    g1: "generatePodcastConversation env summary w4 = (Inr c1, w5)" and
    set1: "rdb_Set env conversationCacheKey c1 w5 = (None, w6)" and
    s6: "updateAllCaches_conversation2 env summary w6 = (None, w')"
    by blast
  from generatePodcastConversation_success [OF g1 usable] obtain cd1 r1 where
    e1: "extractConversation env summary 3 w4 = (Inr cd1, r1)" and
    t5: "trace w5 = trace w4 @ new_events w4 r1 @ [EvSet conversationCacheKey c1]" and
    k1: "list_all isRetryEvent (new_events w4 r1)"
      "1 \<le> length (filter isAttemptStart (new_events w4 r1))"
      "length (filter isAttemptStart (new_events w4 r1)) \<le> 3"
    by blast
  from updateAllCaches_conversation2_success [OF s6] obtain c2 w7 w8 where
    g2: "generatePodcastConversation env summary w6 = (Inr c2, w7)" and
    set2: "rdb_Set env conversationCacheKey c2 w7 = (None, w8)" and
    s8: "updateAllCaches_podcast env c2 w8 = (None, w')"
    by blast
  from generatePodcastConversation_success [OF g2 usable] obtain cd2 r2 where
    e2: "extractConversation env summary 3 w6 = (Inr cd2, r2)" and
    t7: "trace w7 = trace w6 @ new_events w6 r2 @ [EvSet conversationCacheKey c2]" and
    k2: "list_all isRetryEvent (new_events w6 r2)"
      "1 \<le> length (filter isAttemptStart (new_events w6 r2))"
      "length (filter isAttemptStart (new_events w6 r2)) \<le> 3"
    by blast
  from updateAllCaches_podcast_success [OF s8] obtain audio conv where
    dec: "json_Unmarshal env c2 = Inr conv" and
    t9: "trace w' = trace w8 @ map synthesisCall (Conversation conv) @ [EvSet podcastCacheKey audio]"
    by blast
  define cycle1 where "cycle1 = new_events w4 r1"
  define cycle2 where "cycle2 = new_events w6 r2"
  note t6 = rdb_Set_trace [OF set1] and t8 = rdb_Set_trace [OF set2]
  have "trace w' = trace w @
       ([EvScrape, EvSet cacheKey feed,
         EvLLM summaryAPI (summaryPrompt @ md), EvSet summaryCacheKey summary]
        @ cycle1 @ [EvSet conversationCacheKey c1, EvSet conversationCacheKey c1]
        @ cycle2 @ [EvSet conversationCacheKey c2, EvSet conversationCacheKey c2]
        @ map synthesisCall (Conversation conv) @ [EvSet podcastCacheKey audio])"
    unfolding t9 t8 t7 t6 t5 t4 t1 cycle1_def [symmetric] cycle2_def [symmetric]
    by simp
  then have new: "new_events w w' =
       [EvScrape, EvSet cacheKey feed,
        EvLLM summaryAPI (summaryPrompt @ md), EvSet summaryCacheKey summary]
       @ cycle1 @ [EvSet conversationCacheKey c1, EvSet conversationCacheKey c1]
       @ cycle2 @ [EvSet conversationCacheKey c2, EvSet conversationCacheKey c2]
       @ map synthesisCall (Conversation conv) @ [EvSet podcastCacheKey audio]"
    by (rule new_events_append)
  note k1' = k1 [folded cycle1_def] and k2' = k2 [folded cycle2_def]
  have attempts: "length (filter isAttemptStart (new_events w w'))
       = length (filter isAttemptStart cycle1) + length (filter isAttemptStart cycle2)"
    unfolding new by (simp add: isAttemptStart_def)
  have writes: "filter (writesKey conversationCacheKey) (new_events w w')
       = [EvSet conversationCacheKey c1, EvSet conversationCacheKey c1,
          EvSet conversationCacheKey c2, EvSet conversationCacheKey c2]"
    unfolding new
    by (simp add: retry_event_facts(1) [OF k1'(1)] retry_event_facts(1) [OF k2'(1)] writesKey_def)
  from g1 e1 g2 e2 dec new k1' k2' attempts writes cycle1_def cycle2_def show ?thesis
    by blast
qed

lemmas refresh_eval =
  updateAllCaches_def updateAllCaches_summary_def
  updateAllCaches_conversation_def updateAllCaches_conversation2_def
  updateAllCaches_podcast_def generateFeedDirect_def scrapePapers_def generateRSS_def
  parseRSSToMarkdown_def summarizeWithLLM_def generateSummaryRSS_def
  generatePodcastConversation_def extractConversation_def
  extractConversation_loop.simps [of _ _ 3 1] tryGenerateConversation_def
  FindString_demo demo_replies_nonempty generateaudiopodcast_def demo_entries
  voiceFor_def Let_def rdb_Set_def emit_def demo_world_def

lemma refresh_demo:
  "fst (updateAllCaches demo_env demo_world) = None"
  "filter (writesKey conversationCacheKey) (trace (snd (updateAllCaches demo_env demo_world)))
     = [EvSet conversationCacheKey demo_json, EvSet conversationCacheKey demo_json,
        EvSet conversationCacheKey demo_json, EvSet conversationCacheKey demo_json]"
  "filter isAttemptStart (trace (snd (updateAllCaches demo_env demo_world)))
     = [EvAttempt 1 3, EvAttempt 1 3]"
  "store (snd (updateAllCaches demo_env demo_world)) podcastCacheKey
     = Some ''am_michael:Hello;af_bella:Hi;af_bella:Hey;''"
  by (simp_all add: refresh_eval writesKey_def isAttemptStart_def)

theorem refresh_generates_conversation_twice_witness:
  "updateAllCaches demo_env demo_world = (None, snd (updateAllCaches demo_env demo_world)) \<and>
   filter (writesKey conversationCacheKey) (trace (snd (updateAllCaches demo_env demo_world)))
     = [EvSet conversationCacheKey demo_json, EvSet conversationCacheKey demo_json,
        EvSet conversationCacheKey demo_json, EvSet conversationCacheKey demo_json] \<and>
   filter isAttemptStart (trace (snd (updateAllCaches demo_env demo_world)))
     = [EvAttempt 1 3, EvAttempt 1 3] \<and>
   length (filter (writesKey conversationCacheKey)
             (new_events demo_world (snd (updateAllCaches demo_env demo_world)))) = 4"
proof -
  have run: "updateAllCaches demo_env demo_world = (None, snd (updateAllCaches demo_env demo_world))"
    using refresh_demo(1) by (simp add: prod_eq_iff)
  from refresh_generates_conversation_twice [OF run] obtain c1 c2 where
    four: "filter (writesKey conversationCacheKey)
             (new_events demo_world (snd (updateAllCaches demo_env demo_world)))
           = [EvSet conversationCacheKey c1, EvSet conversationCacheKey c1,
              EvSet conversationCacheKey c2, EvSet conversationCacheKey c2]"
    by blast
  have "length (filter (writesKey conversationCacheKey)
             (new_events demo_world (snd (updateAllCaches demo_env demo_world)))) = 4"
    unfolding four by simp
  with run refresh_demo show ?thesis
    by simp
qed

section \<open>Conversation stage: extracting and decoding the answer\<close>


















section \<open>Summary stage: discarding the reasoning\<close>

lemma HasPrefix_iff: "HasPrefix s p = (\<exists>rest. s = p @ rest)"
  unfolding HasPrefix_def
  by (metis append_eq_conv_conj append_take_drop_id)

lemma Index_SomeD:
  "Index s sep = Some i \<Longrightarrow>
     i \<le> length s \<and> HasPrefix (drop i s) sep \<and> (\<forall>j<i. \<not> HasPrefix (drop j s) sep)"
proof (induction s arbitrary: i)
  case Nil
  then show ?case by (auto simp: HasPrefix_def split: if_splits)
next
  case (Cons c cs)
  show ?case
  proof (cases "HasPrefix (c # cs) sep")
    case True
    with Cons.prems show ?thesis by simp
  next
    case False
    with Cons.prems obtain k where k: "Index cs sep = Some k" "i = Suc k" by auto
    from Cons.IH [OF k(1)] have ih: "k \<le> length cs" "HasPrefix (drop k cs) sep"
      "\<forall>j<k. \<not> HasPrefix (drop j cs) sep" by auto
    have "\<not> HasPrefix (drop j (c # cs)) sep" if "j < i" for j
    proof (cases j)
      case 0
      with False show ?thesis by simp
    next
      case (Suc j')
      with that k ih(3) show ?thesis by simp
    qed
    with k ih show ?thesis by simp
  qed
qed

lemma Index_NoneD:
  "Index s sep = None \<Longrightarrow> j \<le> length s \<Longrightarrow> \<not> HasPrefix (drop j s) sep"
proof (induction s arbitrary: j)
  case Nil
  then show ?case by (auto simp: HasPrefix_def split: if_splits)
next
  case (Cons c cs)
  from Cons.prems(1) have here: "\<not> HasPrefix (c # cs) sep" and nxt: "Index cs sep = None"
    by (auto split: if_splits)
  show ?case
  proof (cases j)
    case 0
    with here show ?thesis by simp
  next
    case (Suc j')
    with Cons.prems(2) Cons.IH [OF nxt, of j'] show ?thesis by simp
  qed
qed

lemma Contains_iff: "Contains s sub = (\<exists>pre post. s = pre @ sub @ post)"
proof
  assume "Contains s sub"
  then obtain i where "Index s sub = Some i" by (auto simp: Contains_def)
  from Index_SomeD [OF this] obtain rest where "drop i s = sub @ rest"
    by (auto simp: HasPrefix_iff)
  then have "s = take i s @ sub @ rest"
    by (metis append_take_drop_id)
  then show "\<exists>pre post. s = pre @ sub @ post" by blast
next
  assume "\<exists>pre post. s = pre @ sub @ post"
  then obtain pre post where s: "s = pre @ sub @ post" by blast
  then have "HasPrefix (drop (length pre) s) sub" "length pre \<le> length s"
    by (simp_all add: HasPrefix_iff)
  with Index_NoneD [of s sub "length pre"] show "Contains s sub"
    by (auto simp: Contains_def)
qed

declare Split.simps [simp del]

lemma Split_no_occurrence: "sep \<noteq> [] \<Longrightarrow> \<not> Contains s sep \<Longrightarrow> Split s sep = [s]"
  by (subst Split.simps) (simp add: Contains_def)

lemma Split_last:
  assumes nonempty: "sep \<noteq> []" and fresh: "hd sep \<notin> set (tl sep)"
    and final: "\<not> Contains rest sep"
  shows "last (Split (pre @ sep @ rest) sep) = rest \<and> 1 < length (Split (pre @ sep @ rest) sep)"
proof (induction "length pre" arbitrary: pre rule: less_induct)
  case less
  let ?s = "pre @ sep @ rest"
  have occ: "HasPrefix (drop (length pre) ?s) sep"
    by (simp add: HasPrefix_iff)
  obtain i where i: "Index ?s sep = Some i"
    using Index_NoneD [of ?s sep "length pre"] occ by (cases "Index ?s sep") auto
  from Index_SomeD [OF i] have at: "HasPrefix (drop i ?s) sep"
    and first: "\<forall>j<i. \<not> HasPrefix (drop j ?s) sep"
    by auto
  from first occ have le: "i \<le> length pre"
    by (meson not_less)
  have unfold: "Split ?s sep = take i ?s # Split (drop (i + length sep) ?s) sep"
    using i nonempty by (subst Split.simps) simp
  show ?case
  proof (cases "i = length pre")
    case True
    then have "drop (i + length sep) ?s = rest" by simp
    with unfold Split_no_occurrence [OF nonempty final] show ?thesis by simp
  next
    case False
    with le have lt: "i < length pre" by simp
    have apart: "i + length sep \<le> length pre"
    proof (rule ccontr)
      assume "\<not> i + length sep \<le> length pre"
      with lt have k: "length pre - i < length sep" "0 < length pre - i" by auto
      from at obtain r where r: "drop i ?s = sep @ r"
        by (auto simp: HasPrefix_iff)
      have a: "?s ! length pre = sep ! 0"
        using nonempty by (simp add: nth_append)
      have "drop i ?s ! (length pre - i) = ?s ! (i + (length pre - i))"
        using lt by (intro nth_drop) simp
      with lt have b: "?s ! length pre = drop i ?s ! (length pre - i)"
        by simp
      have c: "drop i ?s ! (length pre - i) = sep ! (length pre - i)"
        unfolding r using k(1) by (simp add: nth_append)
      from a b c have "sep ! 0 = sep ! (length pre - i)"
        by (simp only:)
      moreover from nonempty obtain c cs where sep: "sep = c # cs" by (cases sep) auto
      ultimately have "c = cs ! (length pre - i - 1)" "length pre - i - 1 < length cs"
        using k by (simp_all add: nth_Cons')
      then have "c \<in> set cs" by (metis nth_mem)
      with fresh sep show False by simp
    qed
    define pre' where "pre' = drop (i + length sep) pre"
    from apart have "drop (i + length sep) ?s = pre' @ sep @ rest"
      by (simp add: pre'_def)
    moreover from nonempty apart have "length pre' < length pre"
      by (cases sep) (auto simp: pre'_def)
    ultimately show ?thesis
      using unfold less [of pre'] by auto
  qed
qed

lemma afterThink_cases:
  shows "\<not> Contains s ''<think>'' \<Longrightarrow> afterThink s = s"
    and "\<not> Contains s ''</think>'' \<Longrightarrow> afterThink s = s"
    and "Contains s ''<think>'' \<Longrightarrow> \<not> Contains rest ''</think>'' \<Longrightarrow>
           s = pre @ ''</think>'' @ rest \<Longrightarrow> afterThink s = TrimSpace rest"
proof -
  show "\<not> Contains s ''<think>'' \<Longrightarrow> afterThink s = s"
    by (simp add: afterThink_def)
  show "\<not> Contains s ''</think>'' \<Longrightarrow> afterThink s = s"
    by (simp add: afterThink_def Split_no_occurrence Let_def)
  assume "Contains s ''<think>''" and final: "\<not> Contains rest ''</think>''"
    and s: "s = pre @ ''</think>'' @ rest"
  let ?parts = "Split s ''</think>''"
  have "last ?parts = rest \<and> 1 < length ?parts"
    unfolding s by (rule Split_last [OF _ _ final]) simp_all
  then have long: "1 < length ?parts" and "last ?parts = rest"
    by simp_all
  moreover from long have "?parts \<noteq> []"
    by auto
  ultimately have "?parts ! (length ?parts - 1) = rest"
    by (metis last_conv_nth)
  with long have "?parts ! (length ?parts - 1) = rest" "1 < length ?parts"
    by simp_all
  with \<open>Contains s ''<think>''\<close> show "afterThink s = TrimSpace rest"
    by (simp add: afterThink_def Let_def)
qed

declare trim_runes.simps [simp del]

lemma trim_runes_removes_runes:
  "\<exists>ws. s = concat ws @ trim_runes rs s \<and> set ws \<subseteq> set rs"
proof (induction rs s rule: trim_runes.induct)
  case (1 rs s)
  show ?case
  proof (cases "find (\<lambda>r. r \<noteq> [] \<and> HasPrefix s r) rs")
    case None
    then have "trim_runes rs s = s" by (subst trim_runes.simps) simp
    then show ?thesis by (intro exI [of _ "[]"]) simp
  next
    case (Some r)
    then have r: "r \<in> set rs" "HasPrefix s r"
      by (auto simp: find_Some_iff)
    from Some have step: "trim_runes rs s = trim_runes rs (drop (length r) s)"
      by (subst trim_runes.simps) simp
    from "1.IH" [OF Some] obtain ws where
      ws: "drop (length r) s = concat ws @ trim_runes rs (drop (length r) s)" "set ws \<subseteq> set rs"
      by blast
    from r(2) have "s = r @ drop (length r) s"
      by (metis HasPrefix_def append_take_drop_id)
    with ws step have "s = concat (r # ws) @ trim_runes rs s"
      by simp
    with r(1) ws(2) show ?thesis
      by (intro exI [of _ "r # ws"]) simp
  qed
qed

lemma TrimSpace_removes_spaces:
  "\<exists>lead trail. s = concat lead @ TrimSpace s @ concat trail \<and>
     set lead \<subseteq> set space_runes \<and> set trail \<subseteq> set space_runes"
proof -
  let ?t = "trim_runes space_runes s"
  from trim_runes_removes_runes [of s space_runes] obtain lead where
    lead: "s = concat lead @ ?t" "set lead \<subseteq> set space_runes"
    by blast
  from trim_runes_removes_runes [of "rev ?t" "map rev space_runes"] obtain ws where
    ws: "rev ?t = concat ws @ trim_runes (map rev space_runes) (rev ?t)"
      "set ws \<subseteq> set (map rev space_runes)"
    by blast
  from ws(1) have "?t = rev (concat ws @ trim_runes (map rev space_runes) (rev ?t))"
    by (metis rev_rev_ident)
  then have t: "?t = TrimSpace s @ concat (rev (map rev ws))"
    by (simp add: TrimSpace_def rev_concat rev_map)
  from ws(2) have "set (rev (map rev ws)) \<subseteq> set space_runes"
    by (auto simp: rev_map image_iff)
  with lead t show ?thesis
    by (intro exI [of _ lead] exI [of _ "rev (map rev ws)"]) simp
qed

lemma summarizeWithLLM_result:
  assumes "summarizeWithLLM env md w = (Inr summary, w')"
  shows "\<exists>raw content others.
           llm env (trace w) summaryAPI (summaryPrompt @ md)
             = LLMResponse 200 raw (Inr (content # others)) \<and>
           summary = afterThink content"
  using assms
  by (auto simp: summarizeWithLLM_def Let_def neq_Nil_conv
           split: if_splits llm_result.splits sum.splits)

lemmas think_eval =
  afterThink_def keepAfterReasoning_def Contains_def Split.simps HasPrefix_def Let_def
  TrimSpace_def trim_runes.simps space_runes_def

text \<open>
  C8 (as amended).  A generated text that lacks the opening delimiter, or lacks the closing
  delimiter, is kept unchanged.  A generated text that contains the opening delimiter and
  in which \<open>rest\<close> follows the last closing delimiter is replaced by \<open>rest\<close> with the white
  space at its two ends removed: what is kept is a part of \<open>rest\<close>, and what is dropped
  around it is white space only.  The summary that \<open>summarizeWithLLM\<close> returns is the first
  choice of the answer of the Text-Generation Service, treated in this way.
\<close>

theorem reasoning_prefix_is_discarded:
  "(\<not> Contains s ''<think>'' \<longrightarrow> afterThink s = s) \<and>
   (\<not> Contains s ''</think>'' \<longrightarrow> afterThink s = s) \<and>
   (Contains s ''<think>'' \<and> s = pre @ ''</think>'' @ rest \<and> \<not> Contains rest ''</think>'' \<longrightarrow>
      afterThink s = TrimSpace rest \<and>
      (\<exists>lead trail. rest = concat lead @ afterThink s @ concat trail \<and>
         set lead \<subseteq> set space_runes \<and> set trail \<subseteq> set space_runes)) \<and>
   (summarizeWithLLM env md w = (Inr summary, w') \<longrightarrow>
      (\<exists>raw content others.
         llm env (trace w) summaryAPI (summaryPrompt @ md)
           = LLMResponse 200 raw (Inr (content # others)) \<and>
         summary = afterThink content))"
proof (intro conjI impI)
  show "\<not> Contains s ''<think>'' \<Longrightarrow> afterThink s = s"
    by (rule afterThink_cases(1))
  show "\<not> Contains s ''</think>'' \<Longrightarrow> afterThink s = s"
    by (rule afterThink_cases(2))
  show "summarizeWithLLM env md w = (Inr summary, w') \<Longrightarrow>
      \<exists>raw content others.
         llm env (trace w) summaryAPI (summaryPrompt @ md)
           = LLMResponse 200 raw (Inr (content # others)) \<and>
         summary = afterThink content"
    by (rule summarizeWithLLM_result)
next
  assume a: "Contains s ''<think>'' \<and> s = pre @ ''</think>'' @ rest \<and> \<not> Contains rest ''</think>''"
  then show eq: "afterThink s = TrimSpace rest"
    using afterThink_cases(3) [of s rest pre] by blast
  from TrimSpace_removes_spaces [of rest]
  show "\<exists>lead trail. rest = concat lead @ afterThink s @ concat trail \<and>
         set lead \<subseteq> set space_runes \<and> set trail \<subseteq> set space_runes"
    unfolding eq .
qed

theorem reasoning_prefix_is_discarded_witness:
  "Contains ''<think>plan</think> Hello '' ''<think>'' \<and>
   ''<think>plan</think> Hello '' = ''<think>plan'' @ ''</think>'' @ '' Hello '' \<and>
   \<not> Contains '' Hello '' ''</think>'' \<and>
   afterThink ''<think>plan</think> Hello '' = TrimSpace '' Hello '' \<and>
   TrimSpace '' Hello '' = ''Hello'' \<and>
   \<not> Contains ''<h2>Morning</h2>'' ''<think>'' \<and>
   afterThink ''<h2>Morning</h2>'' = ''<h2>Morning</h2>'' \<and>
   \<not> Contains ''<think>unfinished'' ''</think>'' \<and>
   afterThink ''<think>unfinished'' = ''<think>unfinished'' \<and>
   summarizeWithLLM demo_env ''# Papers'' demo_world
     = (Inr ''<h2>Morning Headline</h2>'',
        emit (EvLLM summaryAPI (summaryPrompt @ ''# Papers'')) demo_world) \<and>
   (\<exists>raw content others.
      llm demo_env (trace demo_world) summaryAPI (summaryPrompt @ ''# Papers'')
        = LLMResponse 200 raw (Inr (content # others)) \<and>
      ''<h2>Morning Headline</h2>'' = afterThink content)"
proof -
  have hyps: "Contains ''<think>plan</think> Hello '' ''<think>''"
    "''<think>plan</think> Hello '' = ''<think>plan'' @ ''</think>'' @ '' Hello ''"
    "\<not> Contains '' Hello '' ''</think>''"
    "\<not> Contains ''<h2>Morning</h2>'' ''<think>''"
    "\<not> Contains ''<think>unfinished'' ''</think>''"
    by (simp_all add: Contains_def HasPrefix_def)
  note inst = reasoning_prefix_is_discarded
  have 1: "afterThink ''<think>plan</think> Hello '' = TrimSpace '' Hello ''"
    by (rule conjunct1 [OF mp [OF conjunct1 [OF conjunct2 [OF conjunct2
          [OF inst [of "''<think>plan</think> Hello ''" "''<think>plan''" "'' Hello ''"]]]]]])
       (intro conjI hyps)
  have 2: "afterThink ''<h2>Morning</h2>'' = ''<h2>Morning</h2>''"
    by (rule mp [OF conjunct1 [OF inst [of "''<h2>Morning</h2>''"]]]) (rule hyps)
  have 3: "afterThink ''<think>unfinished'' = ''<think>unfinished''"
    by (rule mp [OF conjunct1 [OF conjunct2 [OF inst [of "''<think>unfinished''"]]]])
       (rule hyps)
  have 4: "TrimSpace '' Hello '' = ''Hello''"
    by (simp add: think_eval)
  have reply: "afterThink demo_summary_reply = ''<h2>Morning Headline</h2>''"
    by (simp add: demo_summary_reply_def think_eval)
  have run: "summarizeWithLLM demo_env ''# Papers'' demo_world
     = (Inr ''<h2>Morning Headline</h2>'',
        emit (EvLLM summaryAPI (summaryPrompt @ ''# Papers'')) demo_world)"
    by (simp add: summarizeWithLLM_def Let_def reply)
       (simp add: demo_summary_reply_def)
  have 5: "\<exists>raw content others.
      llm demo_env (trace demo_world) summaryAPI (summaryPrompt @ ''# Papers'')
        = LLMResponse 200 raw (Inr (content # others)) \<and>
      ''<h2>Morning Headline</h2>'' = afterThink content"
    by (rule mp [OF conjunct2 [OF conjunct2 [OF conjunct2 [OF inst]]]]) (rule run)
  show ?thesis
    by (intro conjI hyps 1 2 3 4 5 run)
qed

text \<open>
  The claim as stated keeps the text after the closing delimiter that matches the opening
  one, and keeps a text without such a pair unchanged (\<open>keepAfterReasoning\<close>).  The code
  differs on three kinds of text: with a second closing delimiter further right it keeps
  only what follows the last one; it removes the white space around what it keeps; and a
  text whose only closing delimiter stands before the opening one holds no pair, yet is
  cut after the closing delimiter.
\<close>

theorem reasoning_text_after_first_closing_delimiter_differs:
  "afterThink ''<think>a</think> b</think> c'' = ''c'' \<and>
   keepAfterReasoning ''<think>a</think> b</think> c'' = '' b</think> c'' \<and>
   afterThink ''<think>plan</think> Hello'' = ''Hello'' \<and>
   keepAfterReasoning ''<think>plan</think> Hello'' = '' Hello'' \<and>
   afterThink ''</think> x <think>'' = ''x <think>'' \<and>
   keepAfterReasoning ''</think> x <think>'' = ''</think> x <think>''"
  by (simp add: think_eval)

end
